theory Spec2Isabelle
  imports Complex_Main "HOL-Library.Word" "HOL-Library.Monad_Syntax"
begin

unbundle bit_operations_syntax

section \<open>Machine integers and memory faults\<close>

text \<open>
  The C sources work on fixed-width unsigned integers; they are words here, so that
  addition, subtraction and multiplication wrap as they do in C.  A function of the
  model returns an \<open>option\<close> whenever the C function can run into undefined
  behaviour: \<open>None\<close> stands for a read or write outside the object a pointer refers
  to, or for a remainder by zero.  A pointer argument that the C code tests against
  \<open>NULL\<close> is an \<open>option\<close> as well, with \<open>None\<close> for the null pointer.
\<close>

type_synonym u8 = "8 word"
type_synonym u16 = "16 word"
type_synonym u32 = "32 word"
type_synonym u64 = "64 word"

text \<open>\<open>memcpy (dst + off, src, n)\<close> on byte arrays.\<close>

definition memcpy :: "u8 list \<Rightarrow> nat \<Rightarrow> u8 list \<Rightarrow> nat \<Rightarrow> u8 list option" where
  "memcpy dst off src n =
     (if off + n \<le> length dst \<and> n \<le> length src
      then Some (take off dst @ take n src @ drop (off + n) dst)
      else None)"

section \<open>Packet capture: the ring buffer (packet_capture.c)\<close>

text \<open>
  \<open>RingBuffer\<close>.  Field names carry the prefix \<open>rb_\<close>, since record fields are
  global constants.  The lock is left out: every operation below runs with the mutex
  held from its first to its last statement.
\<close>

record RingBuffer =
  rb_buffer :: "u8 list"
  rb_size :: u32
  rb_write_pos :: u64
  rb_read_pos :: u64
  rb_encrypted :: bool

text \<open>
  \<open>ringbuffer_alloc\<close>.  \<open>mmap_ok\<close> says whether \<open>malloc\<close> and \<open>mmap\<close> succeed;
  \<open>mmap\<close> rejects a length of zero, so a size that wraps to 0 gives no buffer.
\<close>

definition ringbuffer_alloc :: "bool \<Rightarrow> u32 \<Rightarrow> RingBuffer option" where
  "ringbuffer_alloc mmap_ok size_mb =
     (let sz = size_mb * 1024 * 1024 in
      if \<not> mmap_ok \<or> sz = 0 then None
      else Some \<lparr>rb_buffer = replicate (unat sz) 0, rb_size = sz,
                  rb_write_pos = 0, rb_read_pos = 0, rb_encrypted = False\<rparr>)"

text \<open>
  \<open>ringbuffer_append\<close>.  The result is the returned offset, the buffer after the
  call and the value stored through \<open>packet_id\<close> (\<open>None\<close> when nothing is stored).
  \<open>data\<close> is the array the caller's pointer refers to.
\<close>

definition ringbuffer_append ::
  "RingBuffer \<Rightarrow> u8 list \<Rightarrow> u32 \<Rightarrow> (u32 \<times> RingBuffer \<times> u64 option) option" where
  "ringbuffer_append rb data len =
     (if rb_size rb = 0 then None
      else
        let offset = (ucast (rb_write_pos rb mod ucast (rb_size rb)) :: u32);
            available = (ucast (ucast (rb_size rb) - (rb_write_pos rb - rb_read_pos rb)) :: u32)
        in
        if available < len then Some (0xFFFFFFFF, rb, None)
        else
          do {
            buf \<leftarrow>
              (if offset + len \<le> rb_size rb then memcpy (rb_buffer rb) (unat offset) data (unat len)
               else
                 let first_part = rb_size rb - offset in
                 do {
                   b1 \<leftarrow> memcpy (rb_buffer rb) (unat offset) data (unat first_part);
                   memcpy b1 0 (drop (unat first_part) data) (unat (len - first_part))
                 });
            let wp = rb_write_pos rb + ucast len;
            Some (offset, rb\<lparr>rb_buffer := buf, rb_write_pos := wp\<rparr>, Some wp)
          })"

text \<open>A sequence of appends, each given as the payload array and its length.\<close>

fun ringbuffer_appends :: "RingBuffer \<Rightarrow> (u8 list \<times> u32) list \<Rightarrow> RingBuffer option" where
  "ringbuffer_appends rb [] = Some rb"
| "ringbuffer_appends rb ((data, len) # ps) =
     (case ringbuffer_append rb data len of
        None \<Rightarrow> None
      | Some (off, rb', pid) \<Rightarrow> ringbuffer_appends rb' ps)"

section \<open>Packet capture: the flow table (packet_capture.h, packet_capture.c)\<close>

text \<open>
  \<open>FlowTuple\<close>, \<open>FlowRecord\<close>, \<open>FlowEntry\<close> and \<open>FlowTable\<close>, with the field prefixes
  \<open>tup_\<close>, \<open>fr_\<close>, \<open>fe_\<close> and \<open>ftb_\<close>.  A \<open>FlowTuple\<close> object has sixteen bytes: the
  compiler leaves one byte between \<open>protocol\<close> and \<open>vlan_id\<close> to align \<open>vlan_id\<close>.
  That byte is no member of the structure, but \<open>flow_tuple_hash\<close> reads it with the
  other fifteen, so the model keeps it as \<open>tup_pad\<close>: whatever the caller's object holds
  there.
\<close>

record FlowTuple =
  tup_src_ip :: u32
  tup_dst_ip :: u32
  tup_src_port :: u16
  tup_dst_port :: u16
  tup_protocol :: u8
  tup_pad :: u8
  tup_vlan_id :: u16

record FlowRecord =
  fr_tuple :: FlowTuple
  fr_flow_id :: u64
  fr_first_packet_id :: u64
  fr_last_packet_id :: u64
  fr_first_seen_ns :: u64
  fr_last_seen_ns :: u64
  fr_packets :: u64
  fr_bytes :: u64
  fr_bytes_fwd :: u64
  fr_bytes_rev :: u64
  fr_flags :: u32
  fr_interface_id :: u16
  fr_state :: u8
  fr_reserved :: u8

record FlowEntry =
  fe_flow :: FlowRecord
  fe_last_activity_ns :: u64
  fe_packet_count :: u32
  fe_state :: u8

record FlowTable =
  ftb_entries :: "FlowEntry list"
  ftb_size :: u32
  ftb_count :: u32

text \<open>The all-zero objects that \<open>calloc\<close> hands out.\<close>

definition zero_FlowTuple :: FlowTuple where
  "zero_FlowTuple = \<lparr>tup_src_ip = 0, tup_dst_ip = 0, tup_src_port = 0, tup_dst_port = 0,
                      tup_protocol = 0, tup_pad = 0, tup_vlan_id = 0\<rparr>"

definition zero_FlowRecord :: FlowRecord where
  "zero_FlowRecord = \<lparr>fr_tuple = zero_FlowTuple, fr_flow_id = 0, fr_first_packet_id = 0,
                       fr_last_packet_id = 0, fr_first_seen_ns = 0, fr_last_seen_ns = 0,
                       fr_packets = 0, fr_bytes = 0, fr_bytes_fwd = 0, fr_bytes_rev = 0,
                       fr_flags = 0, fr_interface_id = 0, fr_state = 0, fr_reserved = 0\<rparr>"

definition zero_FlowEntry :: FlowEntry where
  "zero_FlowEntry = \<lparr>fe_flow = zero_FlowRecord, fe_last_activity_ns = 0,
                      fe_packet_count = 0, fe_state = 0\<rparr>"

text \<open>
  The sixteen bytes of a \<open>FlowTuple\<close> object as \<open>flow_tuple_hash\<close> reads them: fields in
  declaration order, least significant byte first, with the padding byte at offset 13.
\<close>

definition le_bytes :: "nat \<Rightarrow> 'a::len word \<Rightarrow> u8 list" where
  "le_bytes n w = map (\<lambda>k. ucast (drop_bit (8 * k) w)) [0..<n]"

definition FlowTuple_bytes :: "FlowTuple \<Rightarrow> u8 list" where
  "FlowTuple_bytes t =
     le_bytes 4 (tup_src_ip t) @ le_bytes 4 (tup_dst_ip t) @
     le_bytes 2 (tup_src_port t) @ le_bytes 2 (tup_dst_port t) @
     [tup_protocol t] @ [tup_pad t] @ le_bytes 2 (tup_vlan_id t)"

text \<open>\<open>flow_tuple_hash\<close> of packet_capture.c: FNV-1a over the bytes of the tuple.\<close>

definition FNV_OFFSET_BASIS :: u64 where
  "FNV_OFFSET_BASIS = 14695981039346656037"

definition FNV_PRIME :: u64 where
  "FNV_PRIME = 1099511628211"

definition flow_tuple_hash :: "FlowTuple \<Rightarrow> u64" where
  "flow_tuple_hash tuple =
     foldl (\<lambda>hash b. (hash XOR ucast b) * FNV_PRIME) FNV_OFFSET_BASIS (FlowTuple_bytes tuple)"

text \<open>\<open>flow_table_init\<close>; \<open>alloc_ok\<close> says whether \<open>malloc\<close> and \<open>calloc\<close> succeed.\<close>

definition flow_table_init :: "bool \<Rightarrow> u32 \<Rightarrow> FlowTable option" where
  "flow_table_init alloc_ok sz =
     (if alloc_ok
      then Some \<lparr>ftb_entries = replicate (unat sz) zero_FlowEntry, ftb_size = sz, ftb_count = 0\<rparr>
      else None)"

text \<open>
  \<open>flow_table_update\<close>.  The result is the returned \<open>int\<close> and the table after the call.
  The slot index is a remainder by \<open>ft->size\<close>, which is undefined for a size of zero.
  The assignment \<open>entry->flow.tuple = *tuple\<close> copies the object, and the model copies the
  padding byte with it; no function reads the padding of a stored tuple.
\<close>

definition flow_slot :: "FlowTable \<Rightarrow> FlowTuple \<Rightarrow> nat" where
  "flow_slot ft tuple = unat (ucast (flow_tuple_hash tuple mod ucast (ftb_size ft)) :: u32)"

definition flow_table_update ::
  "FlowTable option \<Rightarrow> FlowTuple option \<Rightarrow> u32 \<Rightarrow> u64 \<Rightarrow> u64 \<Rightarrow> (int \<times> FlowTable option) option" where
  "flow_table_update ft tuple payload_len packet_id timestamp_ns =
     (case (ft, tuple) of
        (Some t, Some tp) \<Rightarrow>
          if ftb_size t = 0 then None
          else
            let flow_id = flow_tuple_hash tp;
                idx = flow_slot t tp
            in
            if length (ftb_entries t) \<le> idx then None
            else
              let entry = ftb_entries t ! idx;
                  flow = fe_flow entry;
                  is_new = (tup_src_ip (fr_tuple flow) = 0);
                  flow1 =
                    (if is_new
                     then flow\<lparr>fr_tuple := tp, fr_flow_id := flow_id,
                               fr_first_packet_id := packet_id, fr_first_seen_ns := timestamp_ns,
                               fr_packets := 1, fr_bytes := ucast payload_len, fr_state := 0\<rparr>
                     else flow\<lparr>fr_last_packet_id := packet_id,
                               fr_packets := fr_packets flow + 1,
                               fr_bytes := fr_bytes flow + ucast payload_len\<rparr>);
                  count1 = (if is_new then ftb_count t + 1 else ftb_count t);
                  entry1 = entry\<lparr>fe_flow := flow1\<lparr>fr_last_seen_ns := timestamp_ns\<rparr>,
                                  fe_last_activity_ns := timestamp_ns\<rparr>
              in Some (0, Some (t\<lparr>ftb_entries := (ftb_entries t)[idx := entry1],
                                   ftb_count := count1\<rparr>))
      | _ \<Rightarrow> Some (- 1, ft))"

text \<open>
  \<open>flow_table_lookup\<close>.  \<open>flow\<close> is the caller's record behind the out-pointer; the
  result is the returned \<open>int\<close> and that record after the call.
\<close>

definition flow_table_lookup ::
  "FlowTable option \<Rightarrow> FlowTuple option \<Rightarrow> FlowRecord option \<Rightarrow> (int \<times> FlowRecord option) option" where
  "flow_table_lookup ft tuple flow =
     (case (ft, tuple, flow) of
        (Some t, Some tp, Some out) \<Rightarrow>
          if ftb_size t = 0 then None
          else
            let idx = flow_slot t tp in
            if length (ftb_entries t) \<le> idx then None
            else
              let entry = ftb_entries t ! idx;
                  et = fr_tuple (fe_flow entry)
              in
              if tup_src_ip et = tup_src_ip tp \<and> tup_dst_ip et = tup_dst_ip tp \<and>
                 tup_src_port et = tup_src_port tp \<and> tup_dst_port et = tup_dst_port tp \<and>
                 tup_protocol et = tup_protocol tp
              then Some (0, Some (fe_flow entry))
              else Some (1, flow)
      | _ \<Rightarrow> Some (- 1, flow))"

text \<open>
  A run of \<open>flow_table_update\<close> calls on one table, each call given as tuple, payload
  length, packet id and timestamp.
\<close>

fun flow_table_updates ::
  "FlowTable \<Rightarrow> (FlowTuple \<times> u32 \<times> u64 \<times> u64) list \<Rightarrow> FlowTable option" where
  "flow_table_updates t [] = Some t"
| "flow_table_updates t ((tp, payload_len, packet_id, ts) # us) =
     (case flow_table_update (Some t) (Some tp) payload_len packet_id ts of
        Some (r, Some t') \<Rightarrow> flow_table_updates t' us
      | _ \<Rightarrow> None)"

section \<open>Deep packet inspection: data model (dpi_engine.h, dpi_engine.c)\<close>

subsection \<open>Constants and enumerations\<close>

definition DPI_MAX_RULES :: nat where
  "DPI_MAX_RULES = 10000"

definition DPI_MAX_ALERTS :: nat where
  "DPI_MAX_ALERTS = 1000000"

datatype dpi_protocol_t =
    DPI_PROTO_UNKNOWN | DPI_PROTO_HTTP | DPI_PROTO_HTTPS | DPI_PROTO_DNS | DPI_PROTO_SMTP
  | DPI_PROTO_SMTPS | DPI_PROTO_FTP | DPI_PROTO_FTPS | DPI_PROTO_SMB | DPI_PROTO_SSH
  | DPI_PROTO_TELNET | DPI_PROTO_SNMP | DPI_PROTO_QUIC | DPI_PROTO_DTLS | DPI_PROTO_MQTT
  | DPI_PROTO_COAP | DPI_PROTO_MAX

datatype dpi_session_state_t =
    DPI_STATE_NEW | DPI_STATE_ESTABLISHED | DPI_STATE_CLOSING | DPI_STATE_CLOSED | DPI_STATE_ERROR

datatype dpi_alert_severity_t =
    DPI_ALERT_INFO | DPI_ALERT_WARNING | DPI_ALERT_CRITICAL | DPI_ALERT_MALWARE | DPI_ALERT_ANOMALY

datatype dpi_rule_type_t =
    DPI_RULE_REGEX | DPI_RULE_SNORT | DPI_RULE_YARA | DPI_RULE_CONTENT | DPI_RULE_BEHAVIORAL

datatype dpi_tls_mode_t =
    DPI_TLS_DISABLED | DPI_TLS_PASSTHROUGH | DPI_TLS_DECRYPT | DPI_TLS_INSPECT

subsection \<open>Structures\<close>

text \<open>
  Each C structure is a record; the fields keep their names behind a prefix that tells
  the structures apart (\<open>fl_\<close> flow tuple, \<open>pr_\<close> protocol result, \<open>http_\<close>, \<open>dns_\<close>,
  \<open>tls_\<close>, \<open>an_\<close> anomaly, \<open>al_\<close> alert, \<open>s_\<close> session, \<open>r_\<close> rule, \<open>cfg_\<close> configuration,
  \<open>st_\<close> statistics).  Character arrays are strings: the characters before the
  terminating NUL.  Payload bytes are \<open>char\<close>s as well, a \<open>char\<close> being one byte.
\<close>

record dpi_flow_tuple_t =
  fl_src_ip :: u32
  fl_dst_ip :: u32
  fl_src_port :: u16
  fl_dst_port :: u16
  fl_protocol :: u8

record dpi_protocol_result_t =
  pr_protocol :: dpi_protocol_t
  pr_confidence :: u8
  pr_detection_tick :: u32
  pr_app_name :: string

record dpi_http_data_t =
  http_method :: string
  http_uri :: string
  http_host :: string
  http_user_agent :: string
  http_status_code :: u16
  http_content_length :: u64
  http_is_request :: u8

record dpi_dns_data_t =
  dns_transaction_id :: u16
  dns_query_name :: string
  dns_query_type :: u16
  dns_is_query :: u8
  dns_response_code :: u8
  dns_answered_ips :: "u32 list option"
  dns_answer_count :: u32

record dpi_tls_data_t =
  tls_version_major :: u8
  tls_version_minor :: u8
  tls_cipher_suite :: u16
  tls_sni :: string
  tls_cert_subject :: string
  tls_is_client_hello :: u8
  tls_cert_chain_depth :: u32

record dpi_anomaly_t =
  an_anomaly_type :: u16
  an_description :: string
  an_severity :: u8

record dpi_alert_t =
  al_alert_id :: u64
  al_timestamp_ns :: u64
  al_flow :: dpi_flow_tuple_t
  al_severity :: dpi_alert_severity_t
  al_protocol :: dpi_protocol_t
  al_rule_id :: u32
  al_rule_name :: string
  al_message :: string
  al_payload_sample :: "string option"
  al_payload_sample_len :: u32
  al_offset_in_stream :: u32

text \<open>
  In a session, \<open>fwd_buffer\<close> and \<open>rev_buffer\<close> are only ever allocated and freed, so the
  model keeps whether the pointer is non-null.  \<open>anomalies\<close> is a heap array whose cells
  may be uninitialised (\<open>None\<close>) after \<open>realloc\<close> has grown it from nothing.
\<close>

record dpi_session_t =
  s_session_id :: u64
  s_flow :: dpi_flow_tuple_t
  s_state :: dpi_session_state_t
  s_protocol :: dpi_protocol_result_t
  s_fwd_buffer :: bool
  s_fwd_buffer_used :: u32
  s_fwd_seq :: u32
  s_rev_buffer :: bool
  s_rev_buffer_used :: u32
  s_rev_seq :: u32
  s_http_data :: "dpi_http_data_t option"
  s_dns_data :: "dpi_dns_data_t option"
  s_tls_data :: "dpi_tls_data_t option"
  s_anomalies :: "dpi_anomaly_t option list option"
  s_anomaly_count :: u32
  s_created_ns :: u64
  s_last_seen_ns :: u64
  s_packets_seen :: u32
  s_total_bytes :: u64

record dpi_rule_t =
  r_rule_id :: u32
  r_type :: dpi_rule_type_t
  r_name :: string
  r_description :: string
  r_severity :: dpi_alert_severity_t
  r_pattern :: "string option"
  r_pattern_len :: u32
  r_protocol :: dpi_protocol_t
  r_port_range_start :: u16
  r_port_range_end :: u16
  r_applies_to_request :: u8
  r_applies_to_response :: u8
  r_category :: string
  r_created_at :: u64
  r_last_modified :: u64
  r_enabled :: u8

record dpi_config_t =
  cfg_tls_mode :: dpi_tls_mode_t
  cfg_enable_anomaly_detection :: u8
  cfg_enable_malware_detection :: u8
  cfg_reassembly_timeout_sec :: u32
  cfg_max_concurrent_sessions :: u32
  cfg_memory_limit_mb :: u64
  cfg_log_all_alerts :: u8
  cfg_log_tls_keys :: u8
  cfg_log_dir :: string
  cfg_redact_pii :: u8
  cfg_anonymize_ips :: u8

text \<open>The three \<open>double\<close> fields of the statistics are never written; they are reals.\<close>

record dpi_stats_t =
  st_packets_processed :: u64
  st_bytes_processed :: u64
  st_flows_created :: u64
  st_flows_terminated :: u64
  st_active_sessions :: u32
  st_alerts_generated :: u64
  st_anomalies_detected :: u64
  st_http_packets :: u64
  st_dns_packets :: u64
  st_tls_packets :: u64
  st_smtp_packets :: u64
  st_smb_packets :: u64
  st_avg_processing_time_us :: real
  st_max_packet_processing_us :: real
  st_buffer_utilization_percent :: u32

subsection \<open>The engine\<close>

text \<open>
  \<open>dpi_session_table_t\<close>: the pointer array is dense, so the model keeps the sessions
  that its first \<open>count\<close> slots point to, in order; \<open>count\<close> is the length of that list.
  \<open>dpi_rule_engine_t\<close> and \<open>dpi_alert_queue_t\<close> hold their arrays at full length.  A
  compiled matcher (\<open>regex_t\<close>) is zeroed storage, a compiled pattern, what a failed
  \<open>regcomp\<close> left behind, or a matcher released by \<open>regfree\<close>.  Locks are left out: each
  function below holds them around all it does to the structure they guard.
\<close>

record dpi_session_table_t =
  stab_sessions :: "dpi_session_t list"
  stab_capacity :: u32

datatype regex_t = Regex_Zeroed | Regex_Compiled string | Regex_Failed | Regex_Freed

record dpi_rule_engine_t =
  re_rules :: "dpi_rule_t list"
  re_compiled_regex :: "regex_t list"
  re_rule_count :: u32
  re_max_rules :: u32

record dpi_alert_queue_t =
  aq_queue :: "dpi_alert_t list"
  aq_head :: u32
  aq_tail :: u32
  aq_capacity :: u32

record dpi_engine_t =
  e_config :: dpi_config_t
  e_sessions :: dpi_session_table_t
  e_rules :: dpi_rule_engine_t
  e_alerts :: dpi_alert_queue_t
  e_stats :: dpi_stats_t
  e_next_session_id :: u64
  e_next_alert_id :: u64

text \<open>Zero-filled objects, as \<open>calloc\<close> and \<open>memset\<close> produce them.\<close>

definition zero_flow :: dpi_flow_tuple_t where
  "zero_flow = \<lparr>fl_src_ip = 0, fl_dst_ip = 0, fl_src_port = 0, fl_dst_port = 0, fl_protocol = 0\<rparr>"

definition zero_protocol_result :: dpi_protocol_result_t where
  "zero_protocol_result = \<lparr>pr_protocol = DPI_PROTO_UNKNOWN, pr_confidence = 0,
                            pr_detection_tick = 0, pr_app_name = []\<rparr>"

definition zero_http :: dpi_http_data_t where
  "zero_http = \<lparr>http_method = [], http_uri = [], http_host = [], http_user_agent = [],
                 http_status_code = 0, http_content_length = 0, http_is_request = 0\<rparr>"

definition zero_dns :: dpi_dns_data_t where
  "zero_dns = \<lparr>dns_transaction_id = 0, dns_query_name = [], dns_query_type = 0, dns_is_query = 0,
                dns_response_code = 0, dns_answered_ips = None, dns_answer_count = 0\<rparr>"

definition zero_tls :: dpi_tls_data_t where
  "zero_tls = \<lparr>tls_version_major = 0, tls_version_minor = 0, tls_cipher_suite = 0, tls_sni = [],
                tls_cert_subject = [], tls_is_client_hello = 0, tls_cert_chain_depth = 0\<rparr>"

definition zero_anomaly :: dpi_anomaly_t where
  "zero_anomaly = \<lparr>an_anomaly_type = 0, an_description = [], an_severity = 0\<rparr>"

definition zero_alert :: dpi_alert_t where
  "zero_alert = \<lparr>al_alert_id = 0, al_timestamp_ns = 0, al_flow = zero_flow,
                  al_severity = DPI_ALERT_INFO, al_protocol = DPI_PROTO_UNKNOWN, al_rule_id = 0,
                  al_rule_name = [], al_message = [], al_payload_sample = None,
                  al_payload_sample_len = 0, al_offset_in_stream = 0\<rparr>"

definition zero_session :: dpi_session_t where
  "zero_session = \<lparr>s_session_id = 0, s_flow = zero_flow, s_state = DPI_STATE_NEW,
                    s_protocol = zero_protocol_result,
                    s_fwd_buffer = False, s_fwd_buffer_used = 0, s_fwd_seq = 0,
                    s_rev_buffer = False, s_rev_buffer_used = 0, s_rev_seq = 0,
                    s_http_data = None, s_dns_data = None, s_tls_data = None,
                    s_anomalies = None, s_anomaly_count = 0,
                    s_created_ns = 0, s_last_seen_ns = 0, s_packets_seen = 0, s_total_bytes = 0\<rparr>"

definition zero_rule :: dpi_rule_t where
  "zero_rule = \<lparr>r_rule_id = 0, r_type = DPI_RULE_REGEX, r_name = [], r_description = [],
                 r_severity = DPI_ALERT_INFO, r_pattern = None, r_pattern_len = 0,
                 r_protocol = DPI_PROTO_UNKNOWN, r_port_range_start = 0, r_port_range_end = 0,
                 r_applies_to_request = 0, r_applies_to_response = 0, r_category = [],
                 r_created_at = 0, r_last_modified = 0, r_enabled = 0\<rparr>"

definition zero_stats :: dpi_stats_t where
  "zero_stats = \<lparr>st_packets_processed = 0, st_bytes_processed = 0, st_flows_created = 0,
                  st_flows_terminated = 0, st_active_sessions = 0, st_alerts_generated = 0,
                  st_anomalies_detected = 0, st_http_packets = 0, st_dns_packets = 0,
                  st_tls_packets = 0, st_smtp_packets = 0, st_smb_packets = 0,
                  st_avg_processing_time_us = 0, st_max_packet_processing_us = 0,
                  st_buffer_utilization_percent = 0\<rparr>"

section \<open>Deep packet inspection: the C library on byte arrays\<close>

text \<open>
  The dissectors hand the payload pointer to \<open>strncmp\<close>, \<open>strchr\<close>, \<open>strstr\<close> and
  \<open>atoi\<close>, which stop at a NUL byte and not at the packet length.  In the functions
  below the first argument is the array the pointer refers to (the packet and whatever
  the caller stored behind it); the result is \<open>None\<close> when the library function would read
  past the end of that array.
\<close>

abbreviation NUL :: char where
  "NUL \<equiv> CHR 0x00"

definition char_at :: "string \<Rightarrow> nat \<Rightarrow> char option" where
  "char_at data i = (if i < length data then Some (data ! i) else None)"

definition byte_at :: "string \<Rightarrow> nat \<Rightarrow> u8 option" where
  "byte_at data i = map_option of_char (char_at data i)"

text \<open>The operators \<open>||\<close> and \<open>&&\<close>: the right operand is read only when it decides.\<close>

definition sc_or :: "bool option \<Rightarrow> bool option \<Rightarrow> bool option" where
  "sc_or a b = (case a of None \<Rightarrow> None | Some True \<Rightarrow> Some True | Some False \<Rightarrow> b)"

definition sc_and :: "bool option \<Rightarrow> bool option \<Rightarrow> bool option" where
  "sc_and a b = (case a of None \<Rightarrow> None | Some False \<Rightarrow> Some False | Some True \<Rightarrow> b)"

text \<open>
  \<open>strncmp (s, lit, n) == 0\<close> for a string literal \<open>lit\<close>: the characters are compared
  in turn, up to \<open>n\<close> of them and no further than a NUL.
\<close>

fun compare_chars :: "string \<Rightarrow> string \<Rightarrow> bool option" where
  "compare_chars s [] = Some True"
| "compare_chars [] (d # p) = None"
| "compare_chars (c # s) (d # p) =
     (if c \<noteq> d then Some False else if c = NUL then Some True else compare_chars s p)"

definition strncmp_eq :: "string \<Rightarrow> string \<Rightarrow> nat \<Rightarrow> bool option" where
  "strncmp_eq s lit n = compare_chars s (take n (lit @ [NUL]))"

text \<open>
  \<open>strchr (s, ch)\<close>: \<open>Some (Some i)\<close> for the pointer \<open>s + i\<close>, \<open>Some None\<close> for the null
  pointer.
\<close>

fun strchr :: "string \<Rightarrow> char \<Rightarrow> nat option option" where
  "strchr [] ch = None"
| "strchr (c # s) ch =
     (if c = ch then Some (Some 0)
      else if c = NUL then Some None
      else map_option (map_option Suc) (strchr s ch))"

text \<open>
  \<open>isdigit\<close>, \<open>isspace\<close> and \<open>atoi\<close> in the C locale.  The digits are read after
  white space and one optional sign; \<open>atoi_space\<close> is their value as a number.  C
  leaves \<open>atoi\<close> undefined where that value is no \<open>int\<close>.  The model follows glibc,
  where \<open>atoi (s)\<close> is \<open>(int) strtol (s, NULL, 10)\<close>: \<open>strtol\<close> stops at \<open>LONG_MAX\<close>
  and \<open>LONG_MIN\<close> (64 bits), and the conversion to \<open>int\<close> keeps the low 32 bits.
\<close>

definition isdigit :: "char \<Rightarrow> bool" where
  "isdigit c \<longleftrightarrow> c \<in> set ''0123456789''"

definition isspace :: "char \<Rightarrow> bool" where
  "isspace c \<longleftrightarrow> c \<in> set [CHR '' '', CHR 0x09, CHR 0x0A, CHR 0x0B, CHR 0x0C, CHR 0x0D]"

fun atoi_digits :: "string \<Rightarrow> int \<Rightarrow> int option" where
  "atoi_digits [] acc = None"
| "atoi_digits (c # s) acc =
     (if isdigit c then atoi_digits s (acc * 10 + (of_char c - 48)) else Some acc)"

fun atoi_sign :: "string \<Rightarrow> int option" where
  "atoi_sign [] = None"
| "atoi_sign (c # s) =
     (if c = CHR ''-'' then map_option uminus (atoi_digits s 0)
      else if c = CHR ''+'' then atoi_digits s 0
      else atoi_digits (c # s) 0)"

fun atoi_space :: "string \<Rightarrow> int option" where
  "atoi_space [] = None"
| "atoi_space (c # s) = (if isspace c then atoi_space s else atoi_sign (c # s))"

definition strtol :: "string \<Rightarrow> int option" where
  "strtol s = map_option (\<lambda>v. max (- (2 ^ 63)) (min (2 ^ 63 - 1) v)) (atoi_space s)"

definition atoi :: "string \<Rightarrow> int option" where
  "atoi s = map_option (\<lambda>v. sint (word_of_int v :: 32 word)) (strtol s)"

text \<open>
  \<open>strstr (s, needle) != NULL\<close>: \<open>s\<close> has to be a string, that is, hold a NUL; the search
  runs over the characters before it.
\<close>

definition c_string :: "string \<Rightarrow> string option" where
  "c_string s = (if NUL \<in> set s then Some (takeWhile (\<lambda>c. c \<noteq> NUL) s) else None)"

fun contains :: "string \<Rightarrow> string \<Rightarrow> bool" where
  "contains [] needle = (needle = [])"
| "contains (c # h) needle = (take (length needle) (c # h) = needle \<or> contains h needle)"

definition strstr_found :: "string \<Rightarrow> string \<Rightarrow> bool option" where
  "strstr_found s needle = map_option (\<lambda>h. contains h needle) (c_string s)"

text \<open>The conversion \<open>%u\<close> of \<open>snprintf\<close>, and the cut at the size of the target array.\<close>

fun show_nat :: "nat \<Rightarrow> string" where
  "show_nat n =
     (if n < 10 then [''0123456789'' ! n]
      else show_nat (n div 10) @ [''0123456789'' ! (n mod 10)])"

declare show_nat.simps [simp del]

definition snprintf :: "nat \<Rightarrow> string \<Rightarrow> string" where
  "snprintf sz text = take (sz - 1) text"

text \<open>
  \<open>memmove (&a[i], &a[i+1], n * sizeof a[0])\<close>: the \<open>n\<close> elements after index \<open>i\<close> move
  down by one.
\<close>

definition memmove_down :: "'a list \<Rightarrow> nat \<Rightarrow> nat \<Rightarrow> 'a list option" where
  "memmove_down xs i n =
     (if i + 1 + n \<le> length xs
      then Some (take i xs @ take n (drop (i + 1) xs) @ drop (i + n) xs)
      else None)"

section \<open>Deep packet inspection: utilities and dissectors (dpi_engine.c)\<close>

text \<open>
  \<open>flow_tuple_hash\<close> of dpi_engine.c (the name is taken by the function of
  packet_capture.c, hence the suffix).  The remainder is undefined for a table size of
  zero.
\<close>

definition hash_mix :: "u32 \<Rightarrow> u32 \<Rightarrow> u32" where
  "hash_mix hash b = (push_bit 5 hash + hash) XOR b"

definition flow_tuple_hash_dpi :: "dpi_flow_tuple_t \<Rightarrow> u32 \<Rightarrow> u32 option" where
  "flow_tuple_hash_dpi flow table_size =
     (let hash = 5381;
          hash = hash_mix hash (fl_src_ip flow AND 0xFF);
          hash = hash_mix hash (drop_bit 8 (fl_src_ip flow) AND 0xFF);
          hash = hash_mix hash (drop_bit 16 (fl_src_ip flow) AND 0xFF);
          hash = hash_mix hash (drop_bit 24 (fl_src_ip flow) AND 0xFF);
          hash = hash_mix hash (fl_dst_ip flow AND 0xFF);
          hash = hash_mix hash (drop_bit 8 (fl_dst_ip flow) AND 0xFF);
          hash = hash_mix hash (drop_bit 16 (fl_dst_ip flow) AND 0xFF);
          hash = hash_mix hash (drop_bit 24 (fl_dst_ip flow) AND 0xFF);
          hash = hash_mix hash (ucast (fl_src_port flow) AND 0xFF);
          hash = hash_mix hash (ucast (drop_bit 8 (fl_src_port flow)) AND 0xFF);
          hash = hash_mix hash (ucast (fl_dst_port flow) AND 0xFF);
          hash = hash_mix hash (ucast (drop_bit 8 (fl_dst_port flow)) AND 0xFF);
          hash = hash_mix hash (ucast (fl_protocol flow))
      in if table_size = 0 then None else Some (hash mod table_size))"

definition flow_tuple_equal :: "dpi_flow_tuple_t \<Rightarrow> dpi_flow_tuple_t \<Rightarrow> bool" where
  "flow_tuple_equal a b \<longleftrightarrow>
     fl_src_ip a = fl_src_ip b \<and> fl_dst_ip a = fl_dst_ip b \<and>
     fl_src_port a = fl_src_port b \<and> fl_dst_port a = fl_dst_port b \<and>
     fl_protocol a = fl_protocol b"

text \<open>
  The dissectors.  \<open>malloc_ok\<close> says whether the dissector's \<open>malloc\<close> succeeds.  The
  result pairs the returned tag with the record stored through \<open>out\<close> (\<open>None\<close> when
  nothing is stored); \<open>dissect_smtp\<close> and \<open>dissect_smb\<close> never store anything and return
  the tag alone.
\<close>

definition dissect_http ::
  "bool \<Rightarrow> string \<Rightarrow> u32 \<Rightarrow> (dpi_protocol_t \<times> dpi_http_data_t option) option" where
  "dissect_http malloc_ok data len =
     (if len < 7 then Some (DPI_PROTO_UNKNOWN, None)
      else do {
        is_method \<leftarrow>
          sc_or (strncmp_eq data ''GET '' 4)
         (sc_or (strncmp_eq data ''POST '' 5)
         (sc_or (strncmp_eq data ''PUT '' 4)
         (sc_or (strncmp_eq data ''DELETE '' 7)
         (sc_or (strncmp_eq data ''HEAD '' 5)
         (sc_or (strncmp_eq data ''OPTIONS '' 8)
                (strncmp_eq data ''PATCH '' 6))))));
        if is_method then
          (if \<not> malloc_ok then Some (DPI_PROTO_UNKNOWN, None)
           else do {
             space \<leftarrow> strchr data CHR '' '';
             let http = zero_http\<lparr>http_is_request := 1\<rparr>;
             let http =
               (case space of
                  None \<Rightarrow> http
                | Some method_len \<Rightarrow>
                    if method_len < 16 then http\<lparr>http_method := take method_len data\<rparr> else http);
             Some (DPI_PROTO_HTTP, Some http)
           })
        else do {
          is_response \<leftarrow> strncmp_eq data ''HTTP/'' 5;
          if is_response then
            (if \<not> malloc_ok then Some (DPI_PROTO_UNKNOWN, None)
             else do {
               space \<leftarrow> strchr data CHR '' '';
               let http = zero_http\<lparr>http_is_request := 0\<rparr>;
               http \<leftarrow>
                 (case space of
                    None \<Rightarrow> Some http
                  | Some i \<Rightarrow>
                      map_option (\<lambda>code. http\<lparr>http_status_code := of_int code\<rparr>)
                        (atoi (drop (Suc i) data)));
               Some (DPI_PROTO_HTTP, Some http)
             })
          else Some (DPI_PROTO_UNKNOWN, None)
        }
      })"

definition dissect_dns ::
  "bool \<Rightarrow> string \<Rightarrow> u32 \<Rightarrow> (dpi_protocol_t \<times> dpi_dns_data_t option) option" where
  "dissect_dns malloc_ok data len =
     (if len < 12 then Some (DPI_PROTO_UNKNOWN, None)
      else if \<not> malloc_ok then Some (DPI_PROTO_UNKNOWN, None)
      else do {
        b0 \<leftarrow> byte_at data 0;
        b1 \<leftarrow> byte_at data 1;
        b2 \<leftarrow> byte_at data 2;
        b3 \<leftarrow> byte_at data 3;
        Some (DPI_PROTO_DNS,
              Some (zero_dns\<lparr>dns_transaction_id := push_bit 8 (ucast b0) OR ucast b1,
                             dns_is_query := (if b2 AND 0x80 = 0 then 1 else 0),
                             dns_response_code := b3 AND 0x0F\<rparr>))
      })"

definition dissect_tls ::
  "bool \<Rightarrow> string \<Rightarrow> u32 \<Rightarrow> (dpi_protocol_t \<times> dpi_tls_data_t option) option" where
  "dissect_tls malloc_ok data len =
     (if len < 5 then Some (DPI_PROTO_UNKNOWN, None)
      else do {
        content_type \<leftarrow> byte_at data 0;
        b1 \<leftarrow> byte_at data 1;
        b2 \<leftarrow> byte_at data 2;
        if content_type \<noteq> 0x16 \<and> content_type \<noteq> 0x17 \<and> content_type \<noteq> 0x15
        then Some (DPI_PROTO_UNKNOWN, None)
        else if b1 \<noteq> 0x03 \<or> (b2 < 0x01 \<or> b2 > 0x04)
        then Some (DPI_PROTO_UNKNOWN, None)
        else if \<not> malloc_ok then Some (DPI_PROTO_UNKNOWN, None)
        else Some (DPI_PROTO_HTTPS,
                   Some (zero_tls\<lparr>tls_version_major := b1, tls_version_minor := b2\<rparr>))
      })"

definition dissect_smtp :: "string \<Rightarrow> u32 \<Rightarrow> dpi_protocol_t option" where
  "dissect_smtp data len =
     (if len < 8 then Some DPI_PROTO_UNKNOWN
      else do {
        is_reply \<leftarrow>
          sc_and (map_option isdigit (char_at data 0))
         (sc_and (map_option isdigit (char_at data 1))
         (sc_and (map_option isdigit (char_at data 2))
                 (map_option (\<lambda>c. c = CHR '' '') (char_at data 3))));
        if is_reply then Some DPI_PROTO_SMTP
        else do {
          is_command \<leftarrow>
            sc_or (strncmp_eq data ''EHLO '' 5)
           (sc_or (strncmp_eq data ''HELO '' 5)
           (sc_or (strncmp_eq data ''MAIL '' 5)
           (sc_or (strncmp_eq data ''RCPT '' 5)
           (sc_or (strncmp_eq data ''DATA'' 4)
                  (strncmp_eq data ''QUIT'' 4)))));
          Some (if is_command then DPI_PROTO_SMTP else DPI_PROTO_UNKNOWN)
        }
      })"

definition dissect_smb :: "string \<Rightarrow> u32 \<Rightarrow> dpi_protocol_t option" where
  "dissect_smb data len =
     (if len < 4 then Some DPI_PROTO_UNKNOWN
      else do {
        is_smb \<leftarrow>
          sc_and (sc_or (map_option (\<lambda>c. c = CHR 0xFF) (char_at data 0))
                        (map_option (\<lambda>c. c = CHR 0xFE) (char_at data 0)))
         (sc_and (map_option (\<lambda>c. c = CHR ''S'') (char_at data 1))
         (sc_and (map_option (\<lambda>c. c = CHR ''M'') (char_at data 2))
                 (map_option (\<lambda>c. c = CHR ''B'') (char_at data 3))));
        Some (if is_smb then DPI_PROTO_SMB else DPI_PROTO_UNKNOWN)
      })"

definition classify_by_port :: "u16 \<Rightarrow> u16 \<Rightarrow> dpi_protocol_t" where
  "classify_by_port src_port dst_port =
     (if dst_port = 80 \<or> src_port = 80 then DPI_PROTO_HTTP
      else if dst_port = 443 \<or> src_port = 443 then DPI_PROTO_HTTPS
      else if dst_port = 53 \<or> src_port = 53 then DPI_PROTO_DNS
      else if dst_port = 25 \<or> dst_port = 587 \<or> src_port = 25 then DPI_PROTO_SMTP
      else if dst_port = 465 \<or> src_port = 465 then DPI_PROTO_SMTPS
      else if dst_port = 21 \<or> src_port = 21 then DPI_PROTO_FTP
      else if dst_port = 990 \<or> src_port = 990 then DPI_PROTO_FTPS
      else if dst_port = 445 \<or> src_port = 445 then DPI_PROTO_SMB
      else if dst_port = 22 \<or> src_port = 22 then DPI_PROTO_SSH
      else if dst_port = 23 \<or> src_port = 23 then DPI_PROTO_TELNET
      else if dst_port = 161 \<or> src_port = 161 then DPI_PROTO_SNMP
      else DPI_PROTO_UNKNOWN)"

text \<open>
  The last block of \<open>detect_anomalies\<close>: an anomaly with a type other than zero is
  appended to the session's array, which \<open>realloc\<close> grows by one cell.  When \<open>realloc\<close>
  fails, the session is left with a null array and its old count.
\<close>

definition record_anomaly :: "bool \<Rightarrow> dpi_session_t \<Rightarrow> dpi_anomaly_t \<Rightarrow> dpi_session_t" where
  "record_anomaly realloc_ok session anomaly =
     (if an_anomaly_type anomaly \<noteq> 0
      then (if realloc_ok
            then
              let n = unat (s_anomaly_count session);
                  old = (case s_anomalies session of None \<Rightarrow> [] | Some cells \<Rightarrow> cells)
              in session\<lparr>s_anomalies := Some (take n (old @ replicate n None) @ [Some anomaly]),
                         s_anomaly_count := s_anomaly_count session + 1\<rparr>
            else session\<lparr>s_anomalies := None\<rparr>)
      else session)"

text \<open>
  \<open>detect_anomalies\<close>.  \<open>realloc_ok\<close> says whether \<open>realloc\<close> succeeds.  The null test
  on \<open>session\<close> cannot fire, the one caller having dereferenced the pointer before.
\<close>

definition detect_anomalies ::
  "bool \<Rightarrow> dpi_session_t \<Rightarrow> string \<Rightarrow> u32 \<Rightarrow> u8 \<Rightarrow> dpi_session_t option" where
  "detect_anomalies realloc_ok session data len is_response =
     (if 10 \<le> s_anomaly_count session then Some session
      else do {
        let anomaly = zero_anomaly;
        anomaly \<leftarrow>
          (if pr_protocol (s_protocol session) = DPI_PROTO_HTTP then do {
             let anomaly =
               (if 8192 < len
                then \<lparr>an_anomaly_type = 1,
                      an_description = snprintf 256
                        (''HTTP packet exceeds normal header size: '' @ show_nat (unat len) @ '' bytes''),
                      an_severity = 5\<rparr>
                else anomaly);
             has_ua \<leftarrow> strstr_found data ''User-Agent: '';
             Some (if has_ua
                   then \<lparr>an_anomaly_type = 2,
                         an_description = snprintf 256 ''HTTP request contains suspicious User-Agent'',
                         an_severity = 3\<rparr>
                   else anomaly)
           }
           else Some anomaly);
        let anomaly =
          (if pr_protocol (s_protocol session) = DPI_PROTO_HTTP \<and>
              fl_dst_port (s_flow session) \<noteq> 80 \<and> fl_dst_port (s_flow session) \<noteq> 8080
           then \<lparr>an_anomaly_type = 3,
                 an_description = snprintf 256
                   (''HTTP on non-standard port '' @ show_nat (unat (fl_dst_port (s_flow session)))),
                 an_severity = 4\<rparr>
           else anomaly);
        Some (record_anomaly realloc_ok session anomaly)
      })"

section \<open>Deep packet inspection: the engine API (dpi_engine.c)\<close>

text \<open>
  \<open>dpi_init\<close>.  \<open>calloc_ok\<close> says whether the allocations succeed; the function returns
  the null pointer when one of them fails.  \<open>config\<close> is dereferenced without a test.
\<close>

definition dpi_init :: "bool \<Rightarrow> dpi_config_t \<Rightarrow> dpi_engine_t option" where
  "dpi_init calloc_ok config =
     (if \<not> calloc_ok then None
      else Some
        \<lparr>e_config = config,
         e_sessions = \<lparr>stab_sessions = [], stab_capacity = cfg_max_concurrent_sessions config\<rparr>,
         e_rules = \<lparr>re_rules = replicate DPI_MAX_RULES zero_rule,
                     re_compiled_regex = replicate DPI_MAX_RULES Regex_Zeroed,
                     re_rule_count = 0, re_max_rules = of_nat DPI_MAX_RULES\<rparr>,
         e_alerts = \<lparr>aq_queue = replicate DPI_MAX_ALERTS zero_alert,
                      aq_head = 0, aq_tail = 0, aq_capacity = of_nat DPI_MAX_ALERTS\<rparr>,
         e_stats = zero_stats,
         e_next_session_id = 1,
         e_next_alert_id = 1\<rparr>)"

subsection \<open>\<open>dpi_process_packet\<close>\<close>

text \<open>
  The outcomes of the allocations that one call of \<open>dpi_process_packet\<close> can make: the
  session, its two reassembly buffers, the record of each dissector, and the anomaly
  array.
\<close>

record dpi_allocs =
  alloc_session :: bool
  alloc_fwd_buffer :: bool
  alloc_rev_buffer :: bool
  alloc_http :: bool
  alloc_dns :: bool
  alloc_tls :: bool
  alloc_anomalies :: bool

text \<open>The search loop over the session array: the index of the first session of the flow.\<close>

fun session_index :: "dpi_session_t list \<Rightarrow> dpi_flow_tuple_t \<Rightarrow> nat option" where
  "session_index [] flow = None"
| "session_index (s # ss) flow =
     (if flow_tuple_equal (s_flow s) flow then Some 0
      else map_option Suc (session_index ss flow))"

text \<open>The session that the creation branch builds.\<close>

definition new_session :: "dpi_allocs \<Rightarrow> u64 \<Rightarrow> dpi_flow_tuple_t \<Rightarrow> u64 \<Rightarrow> dpi_session_t" where
  "new_session heap session_id flow timestamp_ns =
     zero_session\<lparr>s_session_id := session_id, s_flow := flow, s_state := DPI_STATE_NEW,
                  s_created_ns := timestamp_ns, s_last_seen_ns := timestamp_ns,
                  s_fwd_buffer := alloc_fwd_buffer heap, s_rev_buffer := alloc_rev_buffer heap\<rparr>"

text \<open>
  The classification cascade (``classify protocol on first packet with payload'').  It
  writes the \<open>protocol\<close> and \<open>detection_tick\<close> fields of the classification and the
  parsed record, and nothing else.
\<close>

definition set_protocol :: "dpi_protocol_t \<Rightarrow> dpi_session_t \<Rightarrow> dpi_session_t" where
  "set_protocol p session = session\<lparr>s_protocol := (s_protocol session)\<lparr>pr_protocol := p\<rparr>\<rparr>"

definition classify_cascade ::
  "dpi_allocs \<Rightarrow> dpi_session_t \<Rightarrow> dpi_flow_tuple_t \<Rightarrow> string \<Rightarrow> u32 \<Rightarrow> dpi_session_t option" where
  "classify_cascade heap session flow data len =
     do {
       http \<leftarrow> dissect_http (alloc_http heap) data len;
       if fst http \<noteq> DPI_PROTO_UNKNOWN
       then Some ((set_protocol DPI_PROTO_HTTP session)\<lparr>s_http_data := snd http\<rparr>)
       else do {
         dns \<leftarrow> dissect_dns (alloc_dns heap) data len;
         if fst dns \<noteq> DPI_PROTO_UNKNOWN
         then Some ((set_protocol DPI_PROTO_DNS session)\<lparr>s_dns_data := snd dns\<rparr>)
         else do {
           tls \<leftarrow> dissect_tls (alloc_tls heap) data len;
           if fst tls \<noteq> DPI_PROTO_UNKNOWN
           then Some ((set_protocol DPI_PROTO_HTTPS session)\<lparr>s_tls_data := snd tls\<rparr>)
           else do {
             smtp \<leftarrow> dissect_smtp data len;
             if smtp \<noteq> DPI_PROTO_UNKNOWN
             then Some (set_protocol DPI_PROTO_SMTP session)
             else do {
               smb \<leftarrow> dissect_smb data len;
               if smb \<noteq> DPI_PROTO_UNKNOWN
               then Some (set_protocol DPI_PROTO_SMB session)
               else Some (set_protocol
                            (classify_by_port (fl_src_port flow) (fl_dst_port flow)) session)
             }
           }
         }
       }
     }"

definition classify_session ::
  "dpi_allocs \<Rightarrow> dpi_session_t \<Rightarrow> dpi_flow_tuple_t \<Rightarrow> string \<Rightarrow> u32 \<Rightarrow> dpi_session_t option" where
  "classify_session heap session flow data len =
     (if pr_protocol (s_protocol session) = DPI_PROTO_UNKNOWN \<and> 0 < len
      then do {
        session \<leftarrow> classify_cascade heap session flow data len;
        Some (session\<lparr>s_protocol :=
                (s_protocol session)\<lparr>pr_detection_tick := s_packets_seen session\<rparr>\<rparr>)
      }
      else Some session)"

text \<open>The block \<open>if (session) { ... }\<close>: what one packet does to its session.\<close>

definition session_packet ::
  "dpi_allocs \<Rightarrow> dpi_config_t \<Rightarrow> dpi_session_t \<Rightarrow> dpi_flow_tuple_t \<Rightarrow> string \<Rightarrow> u32 \<Rightarrow> u64 \<Rightarrow> u8
     \<Rightarrow> dpi_session_t option" where
  "session_packet heap config session flow data len timestamp_ns is_response =
     do {
       let session = session\<lparr>s_last_seen_ns := timestamp_ns,
                              s_packets_seen := s_packets_seen session + 1,
                              s_total_bytes := s_total_bytes session + ucast len\<rparr>;
       session \<leftarrow> classify_session heap session flow data len;
       let session = (if s_state session = DPI_STATE_NEW
                      then session\<lparr>s_state := DPI_STATE_ESTABLISHED\<rparr> else session);
       if cfg_enable_anomaly_detection config \<noteq> 0
       then detect_anomalies (alloc_anomalies heap) session data len is_response
       else Some session
     }"

text \<open>
  ``Find or create session'': the table after the step, with the index of the session of
  the flow, if there is one.  The second component is the next session id.
\<close>

definition find_or_create_session ::
  "dpi_allocs \<Rightarrow> dpi_session_table_t \<Rightarrow> u64 \<Rightarrow> dpi_flow_tuple_t \<Rightarrow> u64
     \<Rightarrow> dpi_session_table_t \<times> u64 \<times> nat option" where
  "find_or_create_session heap table next_id flow timestamp_ns =
     (case session_index (stab_sessions table) flow of
        Some i \<Rightarrow> (table, next_id, Some i)
      | None \<Rightarrow>
          if length (stab_sessions table) < unat (stab_capacity table) \<and> alloc_session heap
          then (table\<lparr>stab_sessions :=
                        stab_sessions table @ [new_session heap next_id flow timestamp_ns]\<rparr>,
                next_id + 1,
                Some (length (stab_sessions table)))
          else (table, next_id, None))"

text \<open>
  \<open>dpi_process_packet\<close>.  \<open>alerts_out\<close> is the caller's pointer variable behind the
  out-parameter (\<open>None\<close> for a null \<open>alerts_out\<close>).  The result is the returned count,
  the engine after the call and the pointer variable after the call.
\<close>

definition dpi_process_packet ::
  "dpi_allocs \<Rightarrow> dpi_engine_t option \<Rightarrow> dpi_flow_tuple_t option \<Rightarrow> string option \<Rightarrow> u32 \<Rightarrow> u64
     \<Rightarrow> u8 \<Rightarrow> dpi_alert_t list option option
     \<Rightarrow> (u32 \<times> dpi_engine_t option \<times> dpi_alert_t list option option) option" where
  "dpi_process_packet heap engine flow packet_data packet_len timestamp_ns is_response alerts_out =
     (case (engine, flow, packet_data) of
        (Some e, Some f, Some data) \<Rightarrow>
          if packet_len = 0 then Some (0, engine, alerts_out)
          else do {
            let alerts_generated = 0;
            hash_idx \<leftarrow> flow_tuple_hash_dpi f (stab_capacity (e_sessions e));
            let (table, next_id, found) =
              find_or_create_session heap (e_sessions e) (e_next_session_id e) f timestamp_ns;
            table \<leftarrow>
              (case found of
                 None \<Rightarrow> Some table
               | Some i \<Rightarrow>
                   map_option (\<lambda>s. table\<lparr>stab_sessions := (stab_sessions table)[i := s]\<rparr>)
                     (session_packet heap (e_config e) (stab_sessions table ! i) f data
                        packet_len timestamp_ns is_response));
            let stats = (e_stats e)
                  \<lparr>st_packets_processed := st_packets_processed (e_stats e) + 1,
                   st_bytes_processed := st_bytes_processed (e_stats e) + ucast packet_len,
                   st_active_sessions := of_nat (length (stab_sessions table))\<rparr>;
            Some (alerts_generated,
                  Some (e\<lparr>e_sessions := table, e_next_session_id := next_id, e_stats := stats\<rparr>),
                  (if alerts_out = None then None else Some None))
          }
      | _ \<Rightarrow> Some (0, engine, alerts_out))"

subsection \<open>Rules\<close>

text \<open>
  \<open>dpi_add_rule\<close>.  \<open>regcomp_ok\<close> says for which patterns \<open>regcomp\<close> with
  \<open>REG_EXTENDED | REG_ICASE\<close> returns 0.  The result is the returned rule id and the
  engine after the call.  The slot \<open>rules[rule_count]\<close> is written before the pattern is
  compiled, and a rule of type \<open>DPI_RULE_REGEX\<close> with a null pattern is accepted without
  a matcher.
\<close>

definition dpi_add_rule ::
  "(string \<Rightarrow> bool) \<Rightarrow> dpi_engine_t option \<Rightarrow> dpi_rule_t option
     \<Rightarrow> (u32 \<times> dpi_engine_t option) option" where
  "dpi_add_rule regcomp_ok engine rule =
     (case (engine, rule) of
        (Some e, Some r) \<Rightarrow>
          let rules = e_rules e in
          if re_max_rules rules \<le> re_rule_count rules then Some (0, engine)
          else
            let n = unat (re_rule_count rules);
                rule_id = re_rule_count rules + 1
            in
            if length (re_rules rules) \<le> n then None
            else
              let rules = rules\<lparr>re_rules := (re_rules rules)[n := r\<lparr>r_rule_id := rule_id\<rparr>]\<rparr> in
              (case r_pattern r of
                 Some pattern \<Rightarrow>
                   if r_type r = DPI_RULE_REGEX
                   then
                     (if length (re_compiled_regex rules) \<le> n then None
                      else if regcomp_ok pattern
                      then Some (rule_id,
                                 Some (e\<lparr>e_rules := rules
                                         \<lparr>re_compiled_regex :=
                                            (re_compiled_regex rules)[n := Regex_Compiled pattern],
                                          re_rule_count := re_rule_count rules + 1\<rparr>\<rparr>))
                      else Some (0,
                                 Some (e\<lparr>e_rules := rules
                                         \<lparr>re_compiled_regex :=
                                            (re_compiled_regex rules)[n := Regex_Failed]\<rparr>\<rparr>)))
                   else Some (rule_id,
                              Some (e\<lparr>e_rules := rules\<lparr>re_rule_count := re_rule_count rules + 1\<rparr>\<rparr>))
               | None \<Rightarrow>
                   Some (rule_id,
                         Some (e\<lparr>e_rules := rules\<lparr>re_rule_count := re_rule_count rules + 1\<rparr>\<rparr>)))
      | _ \<Rightarrow> Some (0, engine))"

text \<open>The search loop of \<open>dpi_remove_rule\<close>: the index of the first rule with the id.\<close>

fun rule_index :: "dpi_rule_t list \<Rightarrow> u32 \<Rightarrow> nat option" where
  "rule_index [] rule_id = None"
| "rule_index (r # rs) rule_id =
     (if r_rule_id r = rule_id then Some 0 else map_option Suc (rule_index rs rule_id))"

text \<open>\<open>dpi_remove_rule\<close>: the returned \<open>int\<close> and the engine after the call.\<close>

definition dpi_remove_rule ::
  "dpi_engine_t option \<Rightarrow> u32 \<Rightarrow> (int \<times> dpi_engine_t option) option" where
  "dpi_remove_rule engine rule_id =
     (case engine of
        None \<Rightarrow> Some (- 1, engine)
      | Some e \<Rightarrow>
          if rule_id = 0 then Some (- 1, engine)
          else
            let rules = e_rules e;
                n = unat (re_rule_count rules)
            in
            (case rule_index (take n (re_rules rules)) rule_id of
               None \<Rightarrow> if length (re_rules rules) < n then None else Some (- 1, engine)
             | Some i \<Rightarrow>
                 do {
                   regexes \<leftarrow>
                     (if r_type (re_rules rules ! i) = DPI_RULE_REGEX
                      then (if i < length (re_compiled_regex rules)
                            then Some ((re_compiled_regex rules)[i := Regex_Freed])
                            else None)
                      else Some (re_compiled_regex rules));
                   moved_rules \<leftarrow> memmove_down (re_rules rules) i (n - i - 1);
                   moved_regexes \<leftarrow> memmove_down regexes i (n - i - 1);
                   Some (0, Some (e\<lparr>e_rules := rules
                                    \<lparr>re_rules := moved_rules,
                                     re_compiled_regex := moved_regexes,
                                     re_rule_count := re_rule_count rules - 1\<rparr>\<rparr>))
                 }))"

subsection \<open>Alerts\<close>

text \<open>
  The \<open>while\<close> loop of \<open>dpi_get_alerts\<close>.  \<open>alerts\<close> is the caller's array; \<open>count\<close> is
  the loop counter.  Index \<open>head\<close> is read from the queue on every round, and \<open>head\<close>
  moves only when \<open>clear_after_read\<close> is set.
\<close>

function get_alerts_loop ::
  "dpi_alert_queue_t \<Rightarrow> dpi_alert_t list \<Rightarrow> u32 \<Rightarrow> u8 \<Rightarrow> u32
     \<Rightarrow> (u32 \<times> dpi_alert_queue_t \<times> dpi_alert_t list) option" where
  "get_alerts_loop q alerts max_alerts clear_after_read count =
     (if count < max_alerts \<and> aq_head q \<noteq> aq_tail q
      then
        if length alerts \<le> unat count \<or> length (aq_queue q) \<le> unat (aq_head q) then None
        else
          let alerts = alerts[unat count := aq_queue q ! unat (aq_head q)] in
          if clear_after_read \<noteq> 0
          then
            (if aq_capacity q = 0 then None
             else get_alerts_loop (q\<lparr>aq_head := (aq_head q + 1) mod aq_capacity q\<rparr>)
                    alerts max_alerts clear_after_read (count + 1))
          else get_alerts_loop q alerts max_alerts clear_after_read (count + 1)
      else Some (count, q, alerts))"
  by pat_completeness auto
termination
proof (relation "measure (\<lambda>(q, alerts, max_alerts, clear_after_read, count). unat max_alerts - unat count)",
    goal_cases)
  case 1
  show ?case by simp
next
  case (2 q alerts max_alerts clear_after_read count x)
  then have lt: "unat count < unat max_alerts"
    by (simp add: word_less_nat_alt)
  moreover have "unat max_alerts < 2 ^ 32"
    using unsigned_less [of max_alerts, where 'a = nat] by simp
  ultimately have "unat count + unat (1 :: u32) < 2 ^ 32"
    by simp
  then have "unat (count + 1) = unat count + 1"
    using unat_add_lem [of count 1] by simp
  with lt show ?case by simp
next
  case (3 q alerts max_alerts clear_after_read count x)
  then have lt: "unat count < unat max_alerts"
    by (simp add: word_less_nat_alt)
  moreover have "unat max_alerts < 2 ^ 32"
    using unsigned_less [of max_alerts, where 'a = nat] by simp
  ultimately have "unat count + unat (1 :: u32) < 2 ^ 32"
    by simp
  then have "unat (count + 1) = unat count + 1"
    using unat_add_lem [of count 1] by simp
  with lt show ?case by simp
qed

declare get_alerts_loop.simps [simp del]


subsection \<open>Sessions and configuration\<close>

definition dpi_get_session ::
  "dpi_engine_t option \<Rightarrow> dpi_flow_tuple_t option \<Rightarrow> dpi_session_t option" where
  "dpi_get_session engine flow =
     (case (engine, flow) of
        (Some e, Some f) \<Rightarrow>
          map_option (\<lambda>i. stab_sessions (e_sessions e) ! i)
            (session_index (stab_sessions (e_sessions e)) f)
      | _ \<Rightarrow> None)"

definition dpi_classify_protocol ::
  "dpi_engine_t option \<Rightarrow> dpi_flow_tuple_t option \<Rightarrow> dpi_protocol_result_t" where
  "dpi_classify_protocol engine flow =
     (case (engine, flow) of
        (Some e, Some f) \<Rightarrow>
          (case dpi_get_session engine flow of
             Some session \<Rightarrow> s_protocol session
           | None \<Rightarrow> zero_protocol_result)
      | _ \<Rightarrow> zero_protocol_result)"

text \<open>\<open>dpi_set_tls_mode\<close>: the returned \<open>int\<close> and the engine after the call.\<close>

definition dpi_set_tls_mode ::
  "dpi_engine_t option \<Rightarrow> dpi_flow_tuple_t option \<Rightarrow> dpi_tls_mode_t \<Rightarrow> int \<times> dpi_engine_t option" where
  "dpi_set_tls_mode engine flow mode =
     (case (engine, flow) of
        (Some e, Some f) \<Rightarrow> (0, Some (e\<lparr>e_config := (e_config e)\<lparr>cfg_tls_mode := mode\<rparr>\<rparr>))
      | _ \<Rightarrow> (- 1, engine))"


section \<open>Runs and observers\<close>

text \<open>
  A run of \<open>dpi_add_rule\<close> and \<open>dpi_remove_rule\<close> calls on one engine.  The result
  lists the ids that the successful \<open>dpi_add_rule\<close> calls returned, in call order, next
  to the engine after the run.
\<close>

datatype rule_call = Add_Rule dpi_rule_t | Remove_Rule u32

fun rule_calls ::
  "(string \<Rightarrow> bool) \<Rightarrow> dpi_engine_t \<Rightarrow> rule_call list \<Rightarrow> (u32 list \<times> dpi_engine_t) option" where
  "rule_calls regcomp_ok e [] = Some ([], e)"
| "rule_calls regcomp_ok e (Add_Rule r # calls) =
     (case dpi_add_rule regcomp_ok (Some e) (Some r) of
        Some (rule_id, Some e') \<Rightarrow>
          map_option (\<lambda>(ids, e''). (if rule_id \<noteq> 0 then rule_id # ids else ids, e''))
            (rule_calls regcomp_ok e' calls)
      | _ \<Rightarrow> None)"
| "rule_calls regcomp_ok e (Remove_Rule rule_id # calls) =
     (case dpi_remove_rule (Some e) rule_id of
        Some (r, Some e') \<Rightarrow> rule_calls regcomp_ok e' calls
      | _ \<Rightarrow> None)"

text \<open>
  The ids of the rules in use: the first \<open>rule_count\<close> slots of the rule array.
\<close>

definition live_rule_ids :: "dpi_engine_t \<Rightarrow> u32 list" where
  "live_rule_ids e = map r_rule_id (take (unat (re_rule_count (e_rules e))) (re_rules (e_rules e)))"

text \<open>
  The engine that a \<open>dpi_process_packet\<close> call leaves behind.
\<close>

definition engine_after ::
  "(u32 \<times> dpi_engine_t option \<times> dpi_alert_t list option option) option \<Rightarrow> dpi_engine_t option" where
  "engine_after result = (case result of Some (n, engine, out) \<Rightarrow> engine | None \<Rightarrow> None)"

text \<open>
  The confidence that \<open>dpi_classify_protocol\<close> reports for a flow: that of the flow's
  session, and that of the zero-filled result when there is none.
\<close>

definition session_confidence :: "dpi_session_t list \<Rightarrow> dpi_flow_tuple_t \<Rightarrow> u8" where
  "session_confidence ss g =
     (case session_index ss g of
        Some i \<Rightarrow> pr_confidence (s_protocol (ss ! i))
      | None \<Rightarrow> 0)"

text \<open>
  The condition of the first \<open>if\<close> of \<open>dissect_http\<close>.
\<close>

definition http_method_test :: "string \<Rightarrow> bool option" where
  "http_method_test data =
          sc_or (strncmp_eq data ''GET '' 4)
         (sc_or (strncmp_eq data ''POST '' 5)
         (sc_or (strncmp_eq data ''PUT '' 4)
         (sc_or (strncmp_eq data ''DELETE '' 7)
         (sc_or (strncmp_eq data ''HEAD '' 5)
         (sc_or (strncmp_eq data ''OPTIONS '' 8)
                (strncmp_eq data ''PATCH '' 6))))))"

text \<open>
  A packet that the dissectors can read: the array behind the pointer holds the
  \<open>len\<close> bytes of the packet and a NUL, so that the string functions stop inside it.
\<close>

definition packet_readable :: "string \<Rightarrow> u32 \<Rightarrow> bool" where
  "packet_readable data len \<longleftrightarrow> unat len \<le> length data \<and> NUL \<in> set data"


section \<open>The claims in the words of the specification\<close>

text \<open>
  The HTTP prefixes: a request begins with one of seven methods followed by a space, a
  response with \<open>HTTP/\<close>.
\<close>

definition http_request_prefix :: "string \<Rightarrow> bool" where
  "http_request_prefix data \<longleftrightarrow>
     take 4 data = ''GET '' \<or> take 5 data = ''POST '' \<or> take 4 data = ''PUT '' \<or>
     take 7 data = ''DELETE '' \<or> take 5 data = ''HEAD '' \<or> take 8 data = ''OPTIONS '' \<or>
     take 6 data = ''PATCH ''"

definition http_response_prefix :: "string \<Rightarrow> bool" where
  "http_response_prefix data \<longleftrightarrow> take 5 data = ''HTTP/''"

text \<open>
  Rule matching as the specification describes it: a rule admits a session when it is
  enabled, its protocol is \<open>UNKNOWN\<close> or the session's, and its port range is \<open>0..0\<close>
  or holds the destination port; it matches when the payload contains its pattern.
  \<open>spec_alerts_expected\<close> counts the rules in use that admit the flow's session and
  match the payload, the number of alerts the specification asks for.
\<close>

definition spec_rule_admits :: "dpi_rule_t \<Rightarrow> dpi_session_t \<Rightarrow> bool" where
  "spec_rule_admits r s \<longleftrightarrow>
     r_enabled r \<noteq> 0 \<and>
     (r_protocol r = DPI_PROTO_UNKNOWN \<or> r_protocol r = pr_protocol (s_protocol s)) \<and>
     (r_port_range_start r = 0 \<and> r_port_range_end r = 0 \<or>
      r_port_range_start r \<le> fl_dst_port (s_flow s) \<and> fl_dst_port (s_flow s) \<le> r_port_range_end r)"

definition spec_rule_matches :: "dpi_rule_t \<Rightarrow> string \<Rightarrow> bool" where
  "spec_rule_matches r payload \<longleftrightarrow>
     (case r_pattern r of None \<Rightarrow> False | Some pattern \<Rightarrow> contains payload pattern)"

definition spec_alerts_expected :: "dpi_engine_t option \<Rightarrow> dpi_flow_tuple_t \<Rightarrow> string \<Rightarrow> nat option" where
  "spec_alerts_expected engine flow payload =
     (case (engine, dpi_get_session engine (Some flow)) of
        (Some e, Some s) \<Rightarrow>
          Some (length (filter (\<lambda>r. spec_rule_admits r s \<and> spec_rule_matches r payload)
                  (take (unat (re_rule_count (e_rules e))) (re_rules (e_rules e)))))
      | _ \<Rightarrow> None)"

section \<open>Invariants used in the proofs\<close>

text \<open>
  What every slot of a flow table satisfies after \<open>n\<close> updates, the last of them at
  time \<open>tm\<close>: the slot is untouched, or it has counted between one and \<open>n\<close> packets
  and its timestamps are in order.
\<close>

definition entry_ok :: "nat \<Rightarrow> u64 \<Rightarrow> FlowEntry \<Rightarrow> bool" where
  "entry_ok n tm e \<longleftrightarrow>
     e = zero_FlowEntry \<or>
     (1 \<le> unat (fr_packets (fe_flow e)) \<and> unat (fr_packets (fe_flow e)) \<le> n \<and>
      fr_first_seen_ns (fe_flow e) \<le> fr_last_seen_ns (fe_flow e) \<and>
      fr_last_seen_ns (fe_flow e) \<le> tm)"

definition table_ok :: "nat \<Rightarrow> u64 \<Rightarrow> FlowTable \<Rightarrow> bool" where
  "table_ok n tm t \<longleftrightarrow>
     ftb_size t \<noteq> 0 \<and> length (ftb_entries t) = unat (ftb_size t) \<and>
     list_all (entry_ok n tm) (ftb_entries t)"

text \<open>
  What holds of a ring buffer from \<open>ringbuffer_alloc\<close> after any appends: the mapped
  region has \<open>size\<close> bytes, \<open>read_pos\<close> is still 0, since no function of
  packet_capture.c writes it after the allocation, and \<open>write_pos\<close> has not passed
  \<open>size\<close>.
\<close>

definition rb_filled :: "RingBuffer \<Rightarrow> bool" where
  "rb_filled rb \<longleftrightarrow>
     rb_size rb \<noteq> 0 \<and> length (rb_buffer rb) = unat (rb_size rb) \<and>
     rb_read_pos rb = 0 \<and> unat (rb_write_pos rb) \<le> unat (rb_size rb)"

section \<open>Example inputs\<close>

text \<open>
  The ring buffer that \<open>ringbuffer_alloc (3072)\<close> returns, three gibibytes, and the same
  buffer with five bytes stored.
\<close>

definition rb_example :: RingBuffer where
  "rb_example = \<lparr>rb_buffer = replicate 3221225472 0, rb_size = 3221225472,
                  rb_write_pos = 0, rb_read_pos = 0, rb_encrypted = False\<rparr>"

definition rb_example_stored :: RingBuffer where
  "rb_example_stored = rb_example\<lparr>rb_buffer := [1, 2, 3, 4, 5] @ replicate 3221225467 0,
                                   rb_write_pos := 5\<rparr>"

text \<open>
  An empty flow table of eight slots, a TCP flow, and a DHCP discover flow, whose source
  address is 0.0.0.0.
\<close>

definition flow_example_table :: FlowTable where
  "flow_example_table = \<lparr>ftb_entries = replicate 8 zero_FlowEntry, ftb_size = 8, ftb_count = 0\<rparr>"

definition flow_example_tuple :: FlowTuple where
  "flow_example_tuple = \<lparr>tup_src_ip = 0x0A000001, tup_dst_ip = 0x0A000002, tup_src_port = 52344,
                          tup_dst_port = 80, tup_protocol = 6, tup_pad = 0, tup_vlan_id = 0\<rparr>"

definition flow_unspecified_source :: FlowTuple where
  "flow_unspecified_source = \<lparr>tup_src_ip = 0, tup_dst_ip = 0xFFFFFFFF, tup_src_port = 68,
                          tup_dst_port = 67, tup_protocol = 17, tup_pad = 0, tup_vlan_id = 0\<rparr>"

text \<open>The record found for the DHCP flow after updates with packet ids 1, 2, 3.\<close>

definition flow_unspecified_record :: FlowRecord where
  "flow_unspecified_record =
     \<lparr>fr_tuple = flow_unspecified_source, fr_flow_id = 10349115404642888191,
      fr_first_packet_id = 3, fr_last_packet_id = 0, fr_first_seen_ns = 30, fr_last_seen_ns = 30,
      fr_packets = 1, fr_bytes = 50, fr_bytes_fwd = 0, fr_bytes_rev = 0, fr_flags = 0,
      fr_interface_id = 0, fr_state = 0, fr_reserved = 0\<rparr>"

text \<open>A lookup in the table that a run of updates leaves behind.\<close>

definition flow_table_lookup_after ::
  "FlowTable \<Rightarrow> (FlowTuple \<times> u32 \<times> u64 \<times> u64) list \<Rightarrow> FlowTuple \<Rightarrow> (int \<times> FlowRecord option) option" where
  "flow_table_lookup_after t us q =
     (case flow_table_updates t us of
        None \<Rightarrow> None
      | Some t' \<Rightarrow> flow_table_lookup (Some t') (Some q) (Some zero_FlowRecord))"

text \<open>
  An engine configuration with room for four sessions and anomaly detection switched
  on, the engine that \<open>dpi_init\<close> builds from it, an allocator that never fails, and a
  \<open>regcomp\<close> that accepts every pattern.
\<close>

definition example_config :: dpi_config_t where
  "example_config = \<lparr>cfg_tls_mode = DPI_TLS_DISABLED, cfg_enable_anomaly_detection = 1,
      cfg_enable_malware_detection = 0, cfg_reassembly_timeout_sec = 300,
      cfg_max_concurrent_sessions = 4, cfg_memory_limit_mb = 0, cfg_log_all_alerts = 0,
      cfg_log_tls_keys = 0, cfg_log_dir = [], cfg_redact_pii = 0, cfg_anonymize_ips = 0\<rparr>"

definition dpi_example_engine :: dpi_engine_t where
  "dpi_example_engine = the (dpi_init True example_config)"

definition all_allocs :: dpi_allocs where
  "all_allocs = \<lparr>alloc_session = True, alloc_fwd_buffer = True, alloc_rev_buffer = True,
                  alloc_http = True, alloc_dns = True, alloc_tls = True, alloc_anomalies = True\<rparr>"

definition regcomp_any :: "string \<Rightarrow> bool" where
  "regcomp_any pattern = True"

text \<open>
  A TCP flow from 10.0.0.1:52344 to the given port of 10.0.0.2.
\<close>

definition example_flow :: "u16 \<Rightarrow> dpi_flow_tuple_t" where
  "example_flow dst_port = \<lparr>fl_src_ip = 0x0A000001, fl_dst_ip = 0x0A000002, fl_src_port = 52344,
                            fl_dst_port = dst_port, fl_protocol = 6\<rparr>"

text \<open>
  Payloads: an HTTP request and an HTTP response, the request as a C string literal
  (with its terminating NUL), and two short packets.
\<close>

definition http_get_payload :: string where
  "http_get_payload = ''GET /index HTTP/1.1'' @ [CHR 0x0D, CHR 0x0A] @ ''Host: x'' @
                      [CHR 0x0D, CHR 0x0A, CHR 0x0D, CHR 0x0A]"

definition http_ok_payload :: string where
  "http_ok_payload = ''HTTP/1.1 200 OK'' @ [CHR 0x0D, CHR 0x0A, CHR 0x0D, CHR 0x0A, NUL]"

definition http_get_packet :: string where
  "http_get_packet = http_get_payload @ [NUL]"

definition hello_packet :: string where
  "hello_packet = ''hello'' @ [NUL]"

definition evil_payload :: string where
  "evil_payload = ''evil'' @ [NUL]"

text \<open>
  An enabled rule for the pattern \<open>evil\<close> with protocol \<open>UNKNOWN\<close> and port range
  \<open>0..0\<close>, and the example engine with that rule installed as a content rule.
\<close>

definition evil_rule :: "dpi_rule_type_t \<Rightarrow> dpi_rule_t" where
  "evil_rule ty = zero_rule\<lparr>r_type := ty, r_name := ''evil'', r_pattern := Some ''evil'',
                           r_pattern_len := 4, r_enabled := 1\<rparr>"

definition evil_engine :: dpi_engine_t where
  "evil_engine = dpi_example_engine
     \<lparr>e_rules := (e_rules dpi_example_engine)
        \<lparr>re_rules := (re_rules (e_rules dpi_example_engine))
                        [0 := (evil_rule DPI_RULE_CONTENT)\<lparr>r_rule_id := 1\<rparr>],
         re_rule_count := 1\<rparr>\<rparr>"

text \<open>
  A queue of capacity four with two alerts in it, with ids 1 and 2.  No engine of the
  program holds such a queue; it serves to run the loop of \<open>dpi_get_alerts\<close>.
\<close>

definition alert_with_id :: "u64 \<Rightarrow> dpi_alert_t" where
  "alert_with_id n = zero_alert\<lparr>al_alert_id := n\<rparr>"

definition alert_queue_example :: dpi_alert_queue_t where
  "alert_queue_example =
     \<lparr>aq_queue = [alert_with_id 1, alert_with_id 2, zero_alert, zero_alert],
      aq_head = 0, aq_tail = 2, aq_capacity = 4\<rparr>"

section \<open>Facts about machine integers\<close>

lemma unat_u32_bound: "unat (x :: u32) < 2 ^ 32"
  using unsigned_less [of x, where 'a = nat] by simp

lemma unat_u64_bound: "unat (x :: u64) < 2 ^ 64"
  using unsigned_less [of x, where 'a = nat] by simp

lemma unat_ucast: "unat (ucast (w :: 'a::len word) :: 'b::len word) = unat w mod 2 ^ LENGTH('b)"
  by (simp add: unsigned_ucast_eq take_bit_eq_mod)

lemma unat_ucast_u32_u64: "unat (ucast (x :: u32) :: u64) = unat x"
  using unat_u32_bound [of x] by (simp add: unat_ucast)

lemma unat_mod_u64_u32:
  fixes x :: u64 and sz :: u32
  assumes "sz \<noteq> 0"
  shows "unat (ucast (x mod ucast sz) :: u32) = unat x mod unat sz"
proof -
  have "unat sz < 2 ^ 32" "0 < unat sz"
    using unat_u32_bound [of sz] assms by (simp_all add: unat_gt_0)
  then have "unat x mod unat sz < 2 ^ 32"
    using mod_less_divisor [of "unat sz" "unat x"] by linarith
  moreover have "unat (x mod ucast sz) = unat x mod unat sz"
    by (simp only: unat_mod unat_ucast_u32_u64)
  ultimately show ?thesis
    by (simp only: unat_ucast) simp
qed

section \<open>The ring buffer keeps its positions in range\<close>

lemma rb_filled_available:
  assumes "rb_filled rb"
  shows "unat (ucast (ucast (rb_size rb) - (rb_write_pos rb - rb_read_pos rb) :: u64) :: u32)
         = unat (rb_size rb) - unat (rb_write_pos rb)"
proof -
  from assms have rp: "rb_read_pos rb = 0" and le: "unat (rb_write_pos rb) \<le> unat (rb_size rb)"
    by (simp_all add: rb_filled_def)
  have s: "unat (ucast (rb_size rb) :: u64) = unat (rb_size rb)"
    by (rule unat_ucast_u32_u64)
  have "rb_write_pos rb \<le> (ucast (rb_size rb) :: u64)"
    using le s by (simp add: word_le_nat_alt)
  then have "unat ((ucast (rb_size rb) :: u64) - rb_write_pos rb)
      = unat (rb_size rb) - unat (rb_write_pos rb)"
    using s by (simp add: unat_sub)
  moreover have "unat (rb_size rb) < 2 ^ 32"
    by (rule unat_u32_bound)
  ultimately show ?thesis
    using rp by (simp add: unat_ucast)
qed

lemma rb_filled_offset:
  assumes "rb_filled rb"
  shows "unat (ucast (rb_write_pos rb mod ucast (rb_size rb)) :: u32)
         = unat (rb_write_pos rb) mod unat (rb_size rb)"
  using assms by (intro unat_mod_u64_u32) (simp add: rb_filled_def)

lemma rb_filled_fits:
  assumes inv: "rb_filled rb"
    and room: "unat len \<le> unat (rb_size rb) - unat (rb_write_pos rb)"
  shows "unat (rb_write_pos rb) mod unat (rb_size rb) + unat len \<le> unat (rb_size rb)"
proof (cases "unat (rb_write_pos rb) < unat (rb_size rb)")
  case True
  then show ?thesis using room by simp
next
  case False
  with inv have "unat (rb_write_pos rb) = unat (rb_size rb)"
    by (simp add: rb_filled_def)
  then show ?thesis using room by simp
qed

lemma memcpy_Some:
  assumes "off + n \<le> length dst" and "n \<le> length src"
  shows "\<exists>r. memcpy dst off src n = Some r \<and> length r = length dst"
  using assms by (simp add: memcpy_def)

lemma memcpy_length:
  assumes "memcpy dst off src n = Some r"
  shows "length r = length dst"
  using assms by (auto simp add: memcpy_def split: if_splits)

lemma ringbuffer_append_drop:
  assumes "rb_filled rb"
    and "unat (rb_size rb) - unat (rb_write_pos rb) < unat len"
  shows "ringbuffer_append rb data len = Some (0xFFFFFFFF, rb, None)"
proof -
  have "rb_size rb \<noteq> 0" using assms(1) by (simp add: rb_filled_def)
  moreover have "(ucast (ucast (rb_size rb) - (rb_write_pos rb - rb_read_pos rb) :: u64) :: u32) < len"
    using assms(2) by (simp only: word_less_nat_alt rb_filled_available [OF assms(1)])
  ultimately show ?thesis
    by (simp add: ringbuffer_append_def Let_def)
qed

lemma ringbuffer_append_write_pos:
  assumes inv: "rb_filled rb"
    and room: "unat len \<le> unat (rb_size rb) - unat (rb_write_pos rb)"
  shows "unat (rb_write_pos rb + ucast (len :: u32)) = unat (rb_write_pos rb) + unat len"
proof -
  have "unat (rb_write_pos rb) + unat len \<le> unat (rb_size rb)"
    using inv room unfolding rb_filled_def by linarith
  moreover have "unat (rb_size rb) < 2 ^ 32"
    by (rule unat_u32_bound)
  ultimately have "unat (rb_write_pos rb) + unat (ucast len :: u64) < 2 ^ 64"
    by (simp add: unat_ucast_u32_u64)
  then show ?thesis
    using unat_add_lem [of "rb_write_pos rb" "ucast len :: u64"]
    by (simp add: unat_ucast_u32_u64)
qed

lemma ringbuffer_append_sum:
  assumes inv: "rb_filled rb"
    and room: "unat len \<le> unat (rb_size rb) - unat (rb_write_pos rb)"
  shows "(ucast (rb_write_pos rb mod ucast (rb_size rb)) :: u32) + len \<le> rb_size rb"
proof -
  define offset :: u32 where "offset = ucast (rb_write_pos rb mod ucast (rb_size rb))"
  have off: "unat offset = unat (rb_write_pos rb) mod unat (rb_size rb)"
    unfolding offset_def by (rule rb_filled_offset [OF inv])
  have fits: "unat offset + unat len \<le> unat (rb_size rb)"
    unfolding off by (rule rb_filled_fits [OF inv room])
  moreover have "unat (rb_size rb) < 2 ^ 32"
    by (rule unat_u32_bound)
  ultimately have "unat offset + unat len < 2 ^ 32"
    by simp
  then have "unat (offset + len) = unat offset + unat len"
    using unat_add_lem [of offset len] by simp
  with fits show ?thesis
    unfolding offset_def by (simp add: word_le_nat_alt)
qed

lemma ringbuffer_append_store:
  assumes inv: "rb_filled rb"
    and data: "unat len \<le> length data"
    and room: "unat len \<le> unat (rb_size rb) - unat (rb_write_pos rb)"
  shows "\<exists>buf. ringbuffer_append rb data len =
           Some (ucast (rb_write_pos rb mod ucast (rb_size rb)),
                 rb\<lparr>rb_buffer := buf, rb_write_pos := rb_write_pos rb + ucast len\<rparr>,
                 Some (rb_write_pos rb + ucast len))"
proof -
  define offset :: u32 where "offset = ucast (rb_write_pos rb mod ucast (rb_size rb))"
  define available :: u32 where
    "available = ucast (ucast (rb_size rb) - (rb_write_pos rb - rb_read_pos rb) :: u64)"
  have nz: "rb_size rb \<noteq> 0" and lb: "length (rb_buffer rb) = unat (rb_size rb)"
    using inv by (simp_all add: rb_filled_def)
  have off: "unat offset = unat (rb_write_pos rb) mod unat (rb_size rb)"
    unfolding offset_def by (rule rb_filled_offset [OF inv])
  have av: "unat available = unat (rb_size rb) - unat (rb_write_pos rb)"
    unfolding available_def by (rule rb_filled_available [OF inv])
  have not_less: "\<not> available < len"
    using room by (simp add: word_less_nat_alt av)
  have sum: "offset + len \<le> rb_size rb"
    unfolding offset_def by (rule ringbuffer_append_sum [OF inv room])
  have "unat offset + unat len \<le> length (rb_buffer rb)"
    unfolding off lb by (rule rb_filled_fits [OF inv room])
  from memcpy_Some [OF this data] obtain buf where
    buf: "memcpy (rb_buffer rb) (unat offset) data (unat len) = Some buf"
    by blast
  have "ringbuffer_append rb data len =
           Some (offset, rb\<lparr>rb_buffer := buf, rb_write_pos := rb_write_pos rb + ucast len\<rparr>,
                 Some (rb_write_pos rb + ucast len))"
    unfolding ringbuffer_append_def Let_def offset_def [symmetric] available_def [symmetric]
    using nz not_less sum buf by simp
  then show ?thesis
    unfolding offset_def by blast
qed

lemma rb_filled_append:
  assumes inv: "rb_filled rb"
    and step: "ringbuffer_append rb data len = Some (off, rb', pid)"
  shows "rb_filled rb'"
proof (cases "unat (rb_size rb) - unat (rb_write_pos rb) < unat len")
  case True
  from ringbuffer_append_drop [OF inv True] step inv show ?thesis by simp
next
  case False
  then have room: "unat len \<le> unat (rb_size rb) - unat (rb_write_pos rb)"
    by simp
  define offset :: u32 where "offset = ucast (rb_write_pos rb mod ucast (rb_size rb))"
  define available :: u32 where
    "available = ucast (ucast (rb_size rb) - (rb_write_pos rb - rb_read_pos rb) :: u64)"
  have nz: "rb_size rb \<noteq> 0"
    using inv by (simp add: rb_filled_def)
  have av: "unat available = unat (rb_size rb) - unat (rb_write_pos rb)"
    unfolding available_def by (rule rb_filled_available [OF inv])
  have not_less: "\<not> available < len"
    using room by (simp add: word_less_nat_alt av)
  have sum: "offset + len \<le> rb_size rb"
    unfolding offset_def by (rule ringbuffer_append_sum [OF inv room])
  from step obtain buf where
    buf: "memcpy (rb_buffer rb) (unat offset) data (unat len) = Some buf"
    and rb': "rb' = rb\<lparr>rb_buffer := buf, rb_write_pos := rb_write_pos rb + ucast len\<rparr>"
    unfolding ringbuffer_append_def Let_def offset_def [symmetric] available_def [symmetric]
    using nz not_less sum by (auto split: bind_splits)
  have "length buf = length (rb_buffer rb)"
    by (rule memcpy_length [OF buf])
  moreover have "unat (rb_write_pos rb + ucast len) = unat (rb_write_pos rb) + unat len"
    by (rule ringbuffer_append_write_pos [OF inv room])
  moreover have "unat (rb_write_pos rb) + unat len \<le> unat (rb_size rb)"
    using inv room unfolding rb_filled_def by linarith
  ultimately show ?thesis
    using inv unfolding rb' rb_filled_def by simp
qed

lemma rb_filled_appends:
  assumes "rb_filled rb" and "ringbuffer_appends rb ps = Some rb'"
  shows "rb_filled rb'"
  using assms
proof (induction ps arbitrary: rb)
  case Nil
  then show ?case by simp
next
  case (Cons p ps)
  obtain data len where p: "p = (data, len)" by (cases p)
  from Cons.prems(2) p obtain off rb1 pid where
    step: "ringbuffer_append rb data len = Some (off, rb1, pid)"
    and rest: "ringbuffer_appends rb1 ps = Some rb'"
    by (auto split: option.splits)
  from rb_filled_append [OF Cons.prems(1) step] have "rb_filled rb1" .
  from Cons.IH [OF this rest] show ?case .
qed

lemma ringbuffer_appends_Some:
  assumes "rb_filled rb" and "list_all (\<lambda>(data, len). unat len \<le> length data) ps"
  shows "\<exists>rb'. ringbuffer_appends rb ps = Some rb'"
  using assms
proof (induction ps arbitrary: rb)
  case Nil
  then show ?case by simp
next
  case (Cons p ps)
  obtain data len where p: "p = (data, len)" by (cases p)
  with Cons.prems have data: "unat len \<le> length data"
    and rest: "list_all (\<lambda>(data, len). unat len \<le> length data) ps"
    by simp_all
  have "\<exists>off rb1 pid. ringbuffer_append rb data len = Some (off, rb1, pid)"
  proof (cases "unat (rb_size rb) - unat (rb_write_pos rb) < unat len")
    case True
    from ringbuffer_append_drop [OF Cons.prems(1) True] show ?thesis by blast
  next
    case False
    then have "unat len \<le> unat (rb_size rb) - unat (rb_write_pos rb)" by simp
    from ringbuffer_append_store [OF Cons.prems(1) data this] show ?thesis by blast
  qed
  then obtain off rb1 pid where step: "ringbuffer_append rb data len = Some (off, rb1, pid)"
    by blast
  from rb_filled_append [OF Cons.prems(1) step] have "rb_filled rb1" .
  from Cons.IH [OF this rest] step p show ?case by simp
qed

lemma ringbuffer_alloc_filled:
  assumes "ringbuffer_alloc mmap_ok size_mb = Some rb"
  shows "rb_filled rb"
  using assms by (auto simp add: ringbuffer_alloc_def rb_filled_def Let_def split: if_splits)

text \<open>
  Claim C4.  Let \<open>rb\<close> be a ring buffer of the program: \<open>ringbuffer_alloc\<close> has returned
  it, for any number of mebibytes, and any run of \<open>ringbuffer_append\<close> calls has filled
  it; these are the two functions of packet_capture.c that write to a ring buffer, and
  neither moves \<open>read_pos\<close>.  Let the payload array hold at least \<open>len\<close> bytes.  If
  \<open>size - (write_pos - read_pos) < len\<close>, \<open>ringbuffer_append\<close> reports a drop
  (\<open>UINT32_MAX\<close>) and leaves the buffer as it was, storing no packet id.  Otherwise it
  returns the slot offset \<open>write_pos mod size\<close>, \<open>write_pos\<close> grows by \<open>len\<close> without
  wrapping, and the packet id is the new \<open>write_pos\<close>.  After any further sequence of
  appends, the empty one included, \<open>read_pos \<le> write_pos\<close> and
  \<open>write_pos - read_pos \<le> size\<close> hold.
\<close>

theorem ringbuffer_append_positions:
  assumes "ringbuffer_alloc mmap_ok size_mb = Some rb0"
    and "ringbuffer_appends rb0 ps = Some rb"
    and "unat len \<le> length data"
  shows "(unat (rb_size rb) - (unat (rb_write_pos rb) - unat (rb_read_pos rb)) < unat len \<longrightarrow>
            ringbuffer_append rb data len = Some (0xFFFFFFFF, rb, None))
       \<and> (\<not> unat (rb_size rb) - (unat (rb_write_pos rb) - unat (rb_read_pos rb)) < unat len \<longrightarrow>
            (\<exists>buf. ringbuffer_append rb data len =
               Some (ucast (rb_write_pos rb mod ucast (rb_size rb)),
                     rb\<lparr>rb_buffer := buf, rb_write_pos := rb_write_pos rb + ucast len\<rparr>,
                     Some (rb_write_pos rb + ucast len)))
            \<and> unat (rb_write_pos rb + ucast len) = unat (rb_write_pos rb) + unat len)
       \<and> (\<forall>qs. list_all (\<lambda>(data, len). unat len \<le> length data) qs \<longrightarrow>
            (\<exists>rb'. ringbuffer_appends rb qs = Some rb'
                 \<and> unat (rb_read_pos rb') \<le> unat (rb_write_pos rb')
                 \<and> unat (rb_write_pos rb') - unat (rb_read_pos rb') \<le> unat (rb_size rb')))"
proof -
  have inv: "rb_filled rb"
    by (rule rb_filled_appends [OF ringbuffer_alloc_filled [OF assms(1)] assms(2)])
  then have rp: "unat (rb_read_pos rb) = 0"
    by (simp add: rb_filled_def)
  show ?thesis
  proof (intro conjI impI allI)
    assume "unat (rb_size rb) - (unat (rb_write_pos rb) - unat (rb_read_pos rb)) < unat len"
    then have "unat (rb_size rb) - unat (rb_write_pos rb) < unat len"
      by (simp add: rp)
    then show "ringbuffer_append rb data len = Some (0xFFFFFFFF, rb, None)"
      by (rule ringbuffer_append_drop [OF inv])
  next
    assume "\<not> unat (rb_size rb) - (unat (rb_write_pos rb) - unat (rb_read_pos rb)) < unat len"
    then have room: "unat len \<le> unat (rb_size rb) - unat (rb_write_pos rb)"
      by (simp add: rp)
    show "\<exists>buf. ringbuffer_append rb data len =
               Some (ucast (rb_write_pos rb mod ucast (rb_size rb)),
                     rb\<lparr>rb_buffer := buf, rb_write_pos := rb_write_pos rb + ucast len\<rparr>,
                     Some (rb_write_pos rb + ucast len))"
      by (rule ringbuffer_append_store [OF inv assms(3) room])
    show "unat (rb_write_pos rb + ucast len) = unat (rb_write_pos rb) + unat len"
      by (rule ringbuffer_append_write_pos [OF inv room])
  next
    fix qs :: "(u8 list \<times> u32) list"
    assume "list_all (\<lambda>(data, len). unat len \<le> length data) qs"
    from ringbuffer_appends_Some [OF inv this] obtain rb' where
      run: "ringbuffer_appends rb qs = Some rb'"
      by blast
    from rb_filled_appends [OF inv run] have "rb_filled rb'" .
    then have "unat (rb_read_pos rb') \<le> unat (rb_write_pos rb')
                 \<and> unat (rb_write_pos rb') - unat (rb_read_pos rb') \<le> unat (rb_size rb')"
      by (simp add: rb_filled_def)
    with run show "\<exists>rb'. ringbuffer_appends rb qs = Some rb'
                 \<and> unat (rb_read_pos rb') \<le> unat (rb_write_pos rb')
                 \<and> unat (rb_write_pos rb') - unat (rb_read_pos rb') \<le> unat (rb_size rb')"
      by blast
  qed
qed

lemma rb_example_alloc: "ringbuffer_alloc True 3072 = Some rb_example"
  by (simp add: ringbuffer_alloc_def rb_example_def)

lemma rb_example_append:
  "ringbuffer_appends rb_example [([1, 2, 3, 4, 5], 5)] = Some rb_example_stored"
  by (simp add: ringbuffer_append_def memcpy_def rb_example_def rb_example_stored_def)

text \<open>
  The theorem at the three gibibytes that \<open>ringbuffer_alloc (3072)\<close> returns, with five
  bytes stored: a payload of all but four bytes of the buffer is dropped, a three-byte
  payload is stored at offset 5 with packet id 8, and three appends in a row keep the
  invariant.
\<close>

theorem ringbuffer_append_positions_witness:
  "ringbuffer_alloc True 3072 = Some rb_example
   \<and> ringbuffer_appends rb_example [([1, 2, 3, 4, 5], 5)] = Some rb_example_stored
   \<and> ringbuffer_append rb_example_stored (replicate 3221225468 7) 3221225468
       = Some (0xFFFFFFFF, rb_example_stored, None)
   \<and> (\<exists>buf. ringbuffer_append rb_example_stored [6, 7, 8] 3 =
         Some (5, rb_example_stored\<lparr>rb_buffer := buf, rb_write_pos := 8\<rparr>, Some 8))
   \<and> (\<exists>rb'. ringbuffer_appends rb_example_stored [([1, 2, 3], 3), ([4, 5], 2), ([6], 1)] = Some rb'
         \<and> unat (rb_read_pos rb') \<le> unat (rb_write_pos rb')
         \<and> unat (rb_write_pos rb') - unat (rb_read_pos rb') \<le> unat (rb_size rb'))"
proof -
  note built = rb_example_alloc rb_example_append
  have "ringbuffer_append rb_example_stored (replicate 3221225468 7) 3221225468
       = Some (0xFFFFFFFF, rb_example_stored, None)"
    using ringbuffer_append_positions [OF built, of 3221225468 "replicate 3221225468 7"]
    by (simp add: rb_example_def rb_example_stored_def)
  moreover have "\<exists>buf. ringbuffer_append rb_example_stored [6, 7, 8] 3 =
         Some (5, rb_example_stored\<lparr>rb_buffer := buf, rb_write_pos := 8\<rparr>, Some 8)"
    using ringbuffer_append_positions [OF built, of 3 "[6, 7, 8]"]
    by (simp add: rb_example_def rb_example_stored_def)
  moreover have "\<exists>rb'. ringbuffer_appends rb_example_stored [([1, 2, 3], 3), ([4, 5], 2), ([6], 1)] = Some rb'
         \<and> unat (rb_read_pos rb') \<le> unat (rb_write_pos rb')
         \<and> unat (rb_write_pos rb') - unat (rb_read_pos rb') \<le> unat (rb_size rb')"
  proof -
    have "\<forall>qs. list_all (\<lambda>(data, len). unat len \<le> length data) qs \<longrightarrow>
            (\<exists>rb'. ringbuffer_appends rb_example_stored qs = Some rb'
                 \<and> unat (rb_read_pos rb') \<le> unat (rb_write_pos rb')
                 \<and> unat (rb_write_pos rb') - unat (rb_read_pos rb') \<le> unat (rb_size rb'))"
      using ringbuffer_append_positions [OF built, of 0 "[]"] by simp
    moreover have "list_all (\<lambda>(data, len). unat len \<le> length data)
                     [([1, 2, 3], 3 :: u32), ([4, 5], 2), ([6 :: u8], 1)]"
      by simp
    ultimately show ?thesis by blast
  qed
  ultimately show ?thesis using built by blast
qed

text \<open>
  The limits of the arithmetic, on positions that no function of the file produces.  In
  a buffer of three gibibytes whose \<open>read_pos\<close> has been moved by hand to one byte before
  the end, with nothing unread, \<open>offset + len\<close> overflows 32 bits for a payload of two
  gibibytes, the test \<open>offset + len <= size\<close> passes and \<open>memcpy\<close> writes past the end
  of the region.  In a buffer of eight bytes with both positions at \<open>2^64 - 2\<close>, an
  append of four bytes wraps \<open>write_pos\<close> to 2.
\<close>

lemma ringbuffer_append_by_hand:
  "ringbuffer_append (rb_example\<lparr>rb_write_pos := 3221225471, rb_read_pos := 3221225471\<rparr>)
       (replicate 2147483648 7) 2147483648 = None
   \<and> ringbuffer_append
         \<lparr>rb_buffer = [0, 0, 0, 0, 0, 0, 0, 0], rb_size = 8, rb_write_pos = 18446744073709551614,
          rb_read_pos = 18446744073709551614, rb_encrypted = False\<rparr> [1, 2, 3, 4] 4
       = Some (6, \<lparr>rb_buffer = [3, 4, 0, 0, 0, 0, 1, 2], rb_size = 8, rb_write_pos = 2,
                    rb_read_pos = 18446744073709551614, rb_encrypted = False\<rparr>, Some 2)"
  by (simp add: ringbuffer_append_def memcpy_def rb_example_def)

section \<open>Flow aggregation\<close>

lemma flow_slot_less:
  assumes "ftb_size t \<noteq> 0"
  shows "flow_slot t tp < unat (ftb_size t)"
proof -
  have "0 < unat (ftb_size t)" using assms by (simp add: unat_gt_0)
  then show ?thesis
    unfolding flow_slot_def unat_mod_u64_u32 [OF assms] by simp
qed

lemma entry_ok_mono:
  "entry_ok n tm e \<Longrightarrow> n \<le> n' \<Longrightarrow> tm \<le> tm' \<Longrightarrow> entry_ok n' tm' e"
  unfolding entry_ok_def by auto

lemma zero_entry_src_ip: "tup_src_ip (fr_tuple (fe_flow zero_FlowEntry)) = 0"
  by (simp add: zero_FlowEntry_def zero_FlowRecord_def zero_FlowTuple_def)

lemma packets_suc:
  fixes p :: u64
  assumes "unat p \<le> n" and "Suc n < 2 ^ 64"
  shows "unat (p + 1) = Suc (unat p)"
proof -
  have "unat p + unat (1 :: u64) < 2 ^ 64" using assms by simp
  then show ?thesis using unat_add_lem [of p 1] by simp
qed

lemma flow_table_update_ok:
  assumes ok: "table_ok n tm t" and ts: "tm \<le> ts" and n: "Suc n < 2 ^ 64"
  shows "\<exists>t'. flow_table_update (Some t) (Some tp) len pid ts = Some (0, Some t')
              \<and> table_ok (Suc n) ts t'"
proof -
  from ok have nz: "ftb_size t \<noteq> 0" and len: "length (ftb_entries t) = unat (ftb_size t)"
    and all: "list_all (entry_ok n tm) (ftb_entries t)"
    by (simp_all add: table_ok_def)
  define idx where "idx = flow_slot t tp"
  have idx: "idx < length (ftb_entries t)"
    unfolding idx_def len by (rule flow_slot_less [OF nz])
  define entry where "entry = ftb_entries t ! idx"
  have e_ok: "entry_ok n tm entry"
    using all idx unfolding entry_def by (simp add: list_all_length)
  define flow1 where "flow1 =
     (if tup_src_ip (fr_tuple (fe_flow entry)) = 0
      then (fe_flow entry)\<lparr>fr_tuple := tp, fr_flow_id := flow_tuple_hash tp,
                fr_first_packet_id := pid, fr_first_seen_ns := ts,
                fr_packets := 1, fr_bytes := ucast len, fr_state := 0\<rparr>
      else (fe_flow entry)\<lparr>fr_last_packet_id := pid,
                fr_packets := fr_packets (fe_flow entry) + 1,
                fr_bytes := fr_bytes (fe_flow entry) + ucast len\<rparr>)"
  define entry1 where "entry1 = entry\<lparr>fe_flow := flow1\<lparr>fr_last_seen_ns := ts\<rparr>,
                                  fe_last_activity_ns := ts\<rparr>"
  define t' where "t' = t\<lparr>ftb_entries := (ftb_entries t)[idx := entry1],
       ftb_count := (if tup_src_ip (fr_tuple (fe_flow entry)) = 0 then ftb_count t + 1 else ftb_count t)\<rparr>"
  have eq: "flow_table_update (Some t) (Some tp) len pid ts = Some (0, Some t')"
    using nz idx
    by (simp add: flow_table_update_def Let_def idx_def [symmetric] entry_def [symmetric]
        flow1_def [symmetric] entry1_def [symmetric] t'_def linorder_not_le [symmetric])
  have e1: "entry_ok (Suc n) ts entry1"
  proof (cases "tup_src_ip (fr_tuple (fe_flow entry)) = 0")
    case True
    then show ?thesis
      by (simp add: entry_ok_def entry1_def flow1_def)
  next
    case False
    with e_ok have old: "1 \<le> unat (fr_packets (fe_flow entry))"
         "unat (fr_packets (fe_flow entry)) \<le> n"
         "fr_first_seen_ns (fe_flow entry) \<le> fr_last_seen_ns (fe_flow entry)"
         "fr_last_seen_ns (fe_flow entry) \<le> tm"
      using zero_entry_src_ip by (auto simp add: entry_ok_def)
    have "unat (fr_packets (fe_flow entry) + 1) = Suc (unat (fr_packets (fe_flow entry)))"
      by (rule packets_suc [OF old(2) n])
    moreover have "fr_first_seen_ns (fe_flow entry) \<le> ts"
      using old(3) old(4) ts by (blast intro: order_trans)
    ultimately show ?thesis
      using False old by (simp add: entry_ok_def entry1_def flow1_def)
  qed
  have "list_all (entry_ok (Suc n) ts) ((ftb_entries t)[idx := entry1])"
    unfolding list_all_length
  proof (intro allI impI)
    fix i assume "i < length ((ftb_entries t)[idx := entry1])"
    then have i: "i < length (ftb_entries t)" by simp
    show "entry_ok (Suc n) ts ((ftb_entries t)[idx := entry1] ! i)"
    proof (cases "i = idx")
      case True
      with i e1 show ?thesis by simp
    next
      case False
      from all i have "entry_ok n tm (ftb_entries t ! i)" by (simp add: list_all_length)
      then have "entry_ok (Suc n) ts (ftb_entries t ! i)"
        by (rule entry_ok_mono) (simp_all add: ts)
      with False show ?thesis by simp
    qed
  qed
  then have "table_ok (Suc n) ts t'"
    using nz len by (simp add: table_ok_def t'_def)
  with eq show ?thesis by blast
qed

lemma flow_table_updates_ok:
  assumes "table_ok n tm t" and "sorted (tm # map (\<lambda>(tp, len, pid, ts). ts) us)"
    and "n + length us < 2 ^ 64"
  shows "\<exists>t' tm'. flow_table_updates t us = Some t' \<and> table_ok (n + length us) tm' t'"
  using assms
proof (induction us arbitrary: t n tm)
  case Nil
  then show ?case by auto
next
  case (Cons u us)
  obtain tp len pid ts where u: "u = (tp, len, pid, ts)" by (cases u)
  from Cons.prems u have le: "tm \<le> ts" and srt: "sorted (ts # map (\<lambda>(tp, len, pid, ts). ts) us)"
    and n: "Suc n < 2 ^ 64" and n': "Suc n + length us < 2 ^ 64"
    by simp_all
  from flow_table_update_ok [OF Cons.prems(1) le n] obtain t1 where
    step: "flow_table_update (Some t) (Some tp) len pid ts = Some (0, Some t1)"
    and ok1: "table_ok (Suc n) ts t1"
    by blast
  from Cons.IH [OF ok1 srt n'] step u show ?case by simp
qed

lemma flow_table_init_ok:
  assumes "flow_table_init True sz = Some t" and "sz \<noteq> 0"
  shows "table_ok 0 0 t"
  using assms by (auto simp add: flow_table_init_def table_ok_def entry_ok_def list_all_length)

lemma flow_table_lookup_found:
  assumes "table_ok n tm t" and "tup_src_ip q \<noteq> 0"
    and "flow_table_lookup (Some t) (Some q) (Some out) = Some (0, Some r)"
  shows "1 \<le> unat (fr_packets r) \<and> fr_first_seen_ns r \<le> fr_last_seen_ns r"
proof -
  from assms(1) have nz: "ftb_size t \<noteq> 0" and len: "length (ftb_entries t) = unat (ftb_size t)"
    and all: "list_all (entry_ok n tm) (ftb_entries t)"
    by (simp_all add: table_ok_def)
  have idx: "flow_slot t q < length (ftb_entries t)"
    unfolding len by (rule flow_slot_less [OF nz])
  with all have e_ok: "entry_ok n tm (ftb_entries t ! flow_slot t q)"
    by (simp add: list_all_length)
  from assms(3) nz idx have r: "r = fe_flow (ftb_entries t ! flow_slot t q)"
    and src: "tup_src_ip (fr_tuple (fe_flow (ftb_entries t ! flow_slot t q))) = tup_src_ip q"
    by (auto simp add: flow_table_lookup_def Let_def split: if_splits)
  from src assms(2) have "ftb_entries t ! flow_slot t q \<noteq> zero_FlowEntry"
    using zero_entry_src_ip by auto
  with e_ok r show ?thesis
    by (simp add: entry_ok_def)
qed

lemma flow_table_three_updates:
  assumes nz: "sz \<noteq> 0" and src: "tup_src_ip tp \<noteq> 0"
    and init: "flow_table_init True sz = Some t0"
  shows "\<exists>t3 r. flow_table_updates t0 [(tp, 100, p1, ts1), (tp, 200, p2, ts2), (tp, 50, p3, ts3)] = Some t3
            \<and> flow_table_lookup (Some t3) (Some tp) (Some out) = Some (0, Some r)
            \<and> fr_packets r = 3 \<and> fr_bytes r = 350
            \<and> fr_first_packet_id r = p1 \<and> fr_last_packet_id r = p3"
proof -
  from init have t0: "t0 = \<lparr>ftb_entries = replicate (unat sz) zero_FlowEntry, ftb_size = sz, ftb_count = 0\<rparr>"
    by (simp add: flow_table_init_def)
  define idx where "idx = flow_slot t0 tp"
  have slot: "\<And>es c. flow_slot \<lparr>ftb_entries = es, ftb_size = sz, ftb_count = c\<rparr> tp = idx"
    by (simp add: idx_def t0 flow_slot_def)
  have lt: "idx < unat sz"
    using flow_slot_less [of t0 tp] nz by (simp add: idx_def t0)
  show ?thesis
    using nz src lt
    by (simp add: t0 flow_table_update_def flow_table_lookup_def Let_def slot
        zero_FlowEntry_def zero_FlowRecord_def zero_FlowTuple_def)
qed

lemma flow_unspecified_hash: "flow_tuple_hash flow_unspecified_source = 10349115404642888191"
  by (simp add: flow_tuple_hash_def flow_unspecified_source_def FlowTuple_bytes_def le_bytes_def
      FNV_OFFSET_BASIS_def FNV_PRIME_def upt_rec)

lemma flow_zero_hash: "flow_tuple_hash zero_FlowTuple mod 8 = 5"
  by (simp add: flow_tuple_hash_def zero_FlowTuple_def FlowTuple_bytes_def le_bytes_def
      FNV_OFFSET_BASIS_def FNV_PRIME_def upt_rec)

lemma flow_example_hash: "flow_tuple_hash flow_example_tuple = 12233557391255495948"
  by (simp add: flow_tuple_hash_def flow_example_tuple_def FlowTuple_bytes_def le_bytes_def
      FNV_OFFSET_BASIS_def FNV_PRIME_def upt_rec)

lemma flow_example_padded_hash:
  "flow_tuple_hash (flow_example_tuple\<lparr>tup_pad := 0xFF\<rparr>) = 15775336147548008777"
  by (simp add: flow_tuple_hash_def flow_example_tuple_def FlowTuple_bytes_def le_bytes_def
      FNV_OFFSET_BASIS_def FNV_PRIME_def upt_rec)

text \<open>
  Claim C5 fails on the code, which takes \<open>src_ip == 0\<close> for the mark of a free slot
  where the header promises ``0 if found, 1 if not found''.  On the empty table that
  \<open>flow_table_init (8)\<close> returns, \<open>flow_table_lookup\<close> of the all-zero tuple returns 0
  and hands out the untouched slot, a record with \<open>packets = 0\<close>, though no flow was
  ever stored.  (\<open>capture_flow_enable\<close> builds the same empty table for a session, and
  \<open>capture_flow_lookup\<close> passes it on to \<open>flow_table_lookup\<close>.)  And three updates for a DHCP discover flow
  (0.0.0.0:68 \<rightarrow> 255.255.255.255:67) with payload sizes 100, 200, 50, packet
  ids 1, 2, 3 and timestamps 10, 20, 30 leave a record with \<open>packets = 1\<close>,
  \<open>bytes = 50\<close> and \<open>first_packet_id = 3 > last_packet_id = 0\<close>, since each update
  takes the slot for free.
\<close>

theorem flow_table_free_slot_marker:
  "flow_table_init True 8 = Some flow_example_table
   \<and> flow_table_lookup_after flow_example_table [] zero_FlowTuple = Some (0, Some zero_FlowRecord)
   \<and> fr_packets zero_FlowRecord = 0
   \<and> flow_table_lookup_after flow_example_table
       [(flow_unspecified_source, 100, 1, 10), (flow_unspecified_source, 200, 2, 20),
        (flow_unspecified_source, 50, 3, 30)] flow_unspecified_source
     = Some (0, Some flow_unspecified_record)
   \<and> fr_packets flow_unspecified_record = 1 \<and> fr_bytes flow_unspecified_record = 50
   \<and> fr_first_packet_id flow_unspecified_record > fr_last_packet_id flow_unspecified_record"
  apply (simp add: flow_table_init_def flow_table_lookup_after_def flow_example_table_def flow_table_update_def
        flow_table_lookup_def Let_def flow_slot_def flow_unspecified_hash flow_zero_hash)
  apply (simp add: flow_unspecified_source_def flow_unspecified_record_def zero_FlowEntry_def zero_FlowRecord_def zero_FlowTuple_def)
  done

subsection \<open>Flows with a source address\<close>

text \<open>
  Where the source address is not 0.0.0.0 the table aggregates.  On an empty flow table
  (\<open>flow_table_init\<close> with a size other than zero), three \<open>flow_table_update\<close> calls
  with one tuple object, with payload sizes 100, 200, 50 and increasing packet ids, yield
  a record with \<open>packets = 3\<close>, \<open>bytes = 350\<close> and \<open>first_packet_id < last_packet_id\<close>.
  And in every table built from the empty one by fewer than \<open>2^64\<close> updates with
  non-decreasing timestamps, every record that \<open>flow_table_lookup\<close> finds for a tuple
  with a source address has \<open>packets \<ge> 1\<close> and \<open>first_seen_ns \<le> last_seen_ns\<close>.
\<close>

lemma flow_table_update_aggregates:
  assumes init: "flow_table_init True sz = Some t0" and nz: "sz \<noteq> 0"
  shows "(tup_src_ip tp \<noteq> 0 \<and> p1 < p2 \<and> p2 < p3 \<longrightarrow>
            (\<exists>t3 r. flow_table_updates t0 [(tp, 100, p1, ts1), (tp, 200, p2, ts2), (tp, 50, p3, ts3)] = Some t3
               \<and> flow_table_lookup (Some t3) (Some tp) (Some out) = Some (0, Some r)
               \<and> fr_packets r = 3 \<and> fr_bytes r = 350
               \<and> fr_first_packet_id r < fr_last_packet_id r))
       \<and> (\<forall>us t q r. sorted (map (\<lambda>(tp, len, pid, ts). ts) us) \<and> length us < 2 ^ 64
               \<and> flow_table_updates t0 us = Some t \<and> tup_src_ip q \<noteq> 0
               \<and> flow_table_lookup (Some t) (Some q) (Some out) = Some (0, Some r) \<longrightarrow>
               1 \<le> fr_packets r \<and> fr_first_seen_ns r \<le> fr_last_seen_ns r)"
proof (intro conjI impI allI)
  assume a: "tup_src_ip tp \<noteq> 0 \<and> p1 < p2 \<and> p2 < p3"
  then have src: "tup_src_ip tp \<noteq> 0" and lt: "p1 < p3" by auto
  from flow_table_three_updates [OF nz src init, of p1 ts1 p2 ts2 p3 ts3 out] lt
  show "\<exists>t3 r. flow_table_updates t0 [(tp, 100, p1, ts1), (tp, 200, p2, ts2), (tp, 50, p3, ts3)] = Some t3
               \<and> flow_table_lookup (Some t3) (Some tp) (Some out) = Some (0, Some r)
               \<and> fr_packets r = 3 \<and> fr_bytes r = 350
               \<and> fr_first_packet_id r < fr_last_packet_id r"
    by auto
next
  fix us t q r
  assume a: "sorted (map (\<lambda>(tp, len, pid, ts). ts) us) \<and> length us < 2 ^ 64
               \<and> flow_table_updates t0 us = Some t \<and> tup_src_ip q \<noteq> 0
               \<and> flow_table_lookup (Some t) (Some q) (Some out) = Some (0, Some r)"
  then have srt: "sorted (0 # map (\<lambda>(tp, len, pid, ts). ts) us)" and len: "0 + length us < 2 ^ 64"
    by simp_all
  from flow_table_updates_ok [OF flow_table_init_ok [OF init nz] srt len] a
  obtain tm' where ok: "table_ok (0 + length us) tm' t" by auto
  from a have "tup_src_ip q \<noteq> 0"
    and "flow_table_lookup (Some t) (Some q) (Some out) = Some (0, Some r)" by simp_all
  from flow_table_lookup_found [OF ok this]
  have "1 \<le> unat (fr_packets r)" and fl: "fr_first_seen_ns r \<le> fr_last_seen_ns r" by simp_all
  then show "1 \<le> fr_packets r" by (simp add: word_le_nat_alt)
  from fl show "fr_first_seen_ns r \<le> fr_last_seen_ns r" .
qed

text \<open>
  The lemma at a table of eight slots and the flow 10.0.0.1:52344 \<rightarrow> 10.0.0.2:80.
\<close>

lemma flow_table_update_aggregates_example:
  "flow_table_init True 8 = Some flow_example_table \<and> (8 :: u32) \<noteq> 0 \<and>
   (\<exists>t3 r. flow_table_updates flow_example_table
              [(flow_example_tuple, 100, 1, 10), (flow_example_tuple, 200, 2, 20),
               (flow_example_tuple, 50, 3, 30)] = Some t3
       \<and> flow_table_lookup (Some t3) (Some flow_example_tuple) (Some zero_FlowRecord) = Some (0, Some r)
       \<and> fr_packets r = 3 \<and> fr_bytes r = 350 \<and> fr_first_packet_id r < fr_last_packet_id r
       \<and> 1 \<le> fr_packets r \<and> fr_first_seen_ns r \<le> fr_last_seen_ns r)"
proof -
  have init: "flow_table_init True 8 = Some flow_example_table"
    by (simp add: flow_table_init_def flow_example_table_def)
  have nz: "(8 :: u32) \<noteq> 0" by simp
  have src: "tup_src_ip flow_example_tuple \<noteq> 0"
    by (simp add: flow_example_tuple_def)
  note agg = flow_table_update_aggregates [OF init nz, of flow_example_tuple 1 2 3 10 20 30 zero_FlowRecord]
  from agg src obtain t3 r where
    upd: "flow_table_updates flow_example_table
              [(flow_example_tuple, 100, 1, 10), (flow_example_tuple, 200, 2, 20),
               (flow_example_tuple, 50, 3, 30)] = Some t3"
    and look: "flow_table_lookup (Some t3) (Some flow_example_tuple) (Some zero_FlowRecord) = Some (0, Some r)"
    and vals: "fr_packets r = 3" "fr_bytes r = 350" "fr_first_packet_id r < fr_last_packet_id r"
    by auto
  have "sorted (map (\<lambda>(tp, len, pid, ts). ts)
          [(flow_example_tuple, 100 :: u32, 1 :: u64, 10 :: u64), (flow_example_tuple, 200, 2, 20),
           (flow_example_tuple, 50, 3, 30)])"
    by simp
  with agg upd look src have "1 \<le> fr_packets r \<and> fr_first_seen_ns r \<le> fr_last_seen_ns r"
    by (elim conjE allE [of _ "[(flow_example_tuple, 100, 1, 10), (flow_example_tuple, 200, 2, 20),
               (flow_example_tuple, 50, 3, 30)]"] allE [of _ t3] allE [of _ flow_example_tuple] allE [of _ r]) simp
  with init nz upd look vals show ?thesis by blast
qed

text \<open>
  The slot of a flow depends on the padding byte of the tuple object.  Two objects for
  the flow 10.0.0.1:52344 \<rightarrow> 10.0.0.2:80 that differ in that byte alone go to
  slots 4 and 1 of eight: after an update with the one, a lookup with the other finds
  nothing, and of three updates, the second with the other object, the lookup reports
  two packets.  A run of updates with timestamps 30 and 20 leaves a record with
  \<open>first_seen_ns = 30 > last_seen_ns = 20\<close>.
\<close>

lemma flow_tuple_hash_reads_padding:
  "flow_slot flow_example_table flow_example_tuple = 4
   \<and> flow_slot flow_example_table (flow_example_tuple\<lparr>tup_pad := 0xFF\<rparr>) = 1
   \<and> flow_table_lookup_after flow_example_table [(flow_example_tuple, 100, 1, 10)]
         (flow_example_tuple\<lparr>tup_pad := 0xFF\<rparr>) = Some (1, Some zero_FlowRecord)
   \<and> (\<exists>r. flow_table_lookup_after flow_example_table
           [(flow_example_tuple, 100, 1, 10), (flow_example_tuple\<lparr>tup_pad := 0xFF\<rparr>, 200, 2, 20),
            (flow_example_tuple, 50, 3, 30)] flow_example_tuple = Some (0, Some r)
         \<and> fr_packets r = 2 \<and> fr_bytes r = 150)"
  apply (simp add: flow_table_lookup_after_def flow_example_table_def flow_table_update_def
        flow_table_lookup_def Let_def flow_slot_def flow_example_hash flow_example_padded_hash)
  apply (simp add: flow_example_tuple_def zero_FlowEntry_def zero_FlowRecord_def zero_FlowTuple_def)
  done

lemma flow_table_update_keeps_timestamps:
  "\<exists>r. flow_table_lookup_after flow_example_table
         [(flow_example_tuple, 100, 1, 30), (flow_example_tuple, 200, 2, 20)] flow_example_tuple
           = Some (0, Some r)
       \<and> fr_first_seen_ns r = 30 \<and> fr_last_seen_ns r = 20"
  apply (simp add: flow_table_lookup_after_def flow_example_table_def flow_table_update_def
        flow_table_lookup_def Let_def flow_slot_def flow_example_hash)
  apply (simp add: flow_example_tuple_def zero_FlowEntry_def zero_FlowRecord_def zero_FlowTuple_def)
  done

section \<open>The HTTP dissector\<close>

lemma compare_chars_Some:
  assumes "compare_chars s p = Some b" and "NUL \<notin> set p"
  shows "b \<longleftrightarrow> take (length p) s = p"
  using assms by (induction s p rule: compare_chars.induct) (auto split: if_splits)

lemma compare_chars_in_bounds:
  assumes "length p \<le> length s \<or> NUL \<in> set s"
  shows "compare_chars s p \<noteq> None"
  using assms by (induction s p rule: compare_chars.induct) auto

lemma strncmp_eq_literal:
  assumes "n = length lit" and "NUL \<notin> set lit" and "strncmp_eq s lit n = Some b"
  shows "b \<longleftrightarrow> take n s = lit"
  using assms by (simp add: strncmp_eq_def compare_chars_Some)

lemma strncmp_eq_in_bounds:
  assumes "n = length lit" and "n \<le> length s \<or> NUL \<in> set s"
  shows "strncmp_eq s lit n \<noteq> None"
  using assms by (simp add: strncmp_eq_def compare_chars_in_bounds)

lemma sc_or_Some:
  "sc_or a b = Some r \<longleftrightarrow> (a = Some True \<and> r) \<or> (a = Some False \<and> b = Some r)"
  by (auto simp add: sc_or_def split: option.splits bool.splits)

lemma sc_or_None:
  "sc_or a b = None \<longleftrightarrow> a = None \<or> (a = Some False \<and> b = None)"
  by (auto simp add: sc_or_def split: option.splits bool.splits)

lemma http_method_test_Some:
  assumes "http_method_test data = Some b"
  shows "b \<longleftrightarrow> http_request_prefix data"
proof -
  have 1: "\<And>c. strncmp_eq data ''GET '' 4 = Some c \<Longrightarrow> c = (take 4 data = ''GET '')"
    by (rule strncmp_eq_literal [of _ "''GET ''"]) simp_all
  have 2: "\<And>c. strncmp_eq data ''POST '' 5 = Some c \<Longrightarrow> c = (take 5 data = ''POST '')"
    by (rule strncmp_eq_literal [of _ "''POST ''"]) simp_all
  have 3: "\<And>c. strncmp_eq data ''PUT '' 4 = Some c \<Longrightarrow> c = (take 4 data = ''PUT '')"
    by (rule strncmp_eq_literal [of _ "''PUT ''"]) simp_all
  have 4: "\<And>c. strncmp_eq data ''DELETE '' 7 = Some c \<Longrightarrow> c = (take 7 data = ''DELETE '')"
    by (rule strncmp_eq_literal [of _ "''DELETE ''"]) simp_all
  have 5: "\<And>c. strncmp_eq data ''HEAD '' 5 = Some c \<Longrightarrow> c = (take 5 data = ''HEAD '')"
    by (rule strncmp_eq_literal [of _ "''HEAD ''"]) simp_all
  have 6: "\<And>c. strncmp_eq data ''OPTIONS '' 8 = Some c \<Longrightarrow> c = (take 8 data = ''OPTIONS '')"
    by (rule strncmp_eq_literal [of _ "''OPTIONS ''"]) simp_all
  have 7: "\<And>c. strncmp_eq data ''PATCH '' 6 = Some c \<Longrightarrow> c = (take 6 data = ''PATCH '')"
    by (rule strncmp_eq_literal [of _ "''PATCH ''"]) simp_all
  from assms show ?thesis
    unfolding http_method_test_def http_request_prefix_def sc_or_Some
    using 1 2 3 4 5 6 7 by blast
qed

lemma http_method_test_in_bounds:
  assumes "8 \<le> length data \<or> NUL \<in> set data"
  shows "http_method_test data \<noteq> None"
proof -
  have "\<And>lit n. n = length lit \<Longrightarrow> n \<le> 8 \<Longrightarrow> strncmp_eq data lit n \<noteq> None"
    using assms by (intro strncmp_eq_in_bounds) auto
  from this [of 4 "''GET ''"] this [of 5 "''POST ''"] this [of 4 "''PUT ''"] this [of 7 "''DELETE ''"]
      this [of 5 "''HEAD ''"] this [of 8 "''OPTIONS ''"] this [of 6 "''PATCH ''"]
  show ?thesis
    unfolding http_method_test_def sc_or_None by simp
qed

lemmas dissect_http_eq = dissect_http_def [folded http_method_test_def]

lemma strchr_in_literal:
  assumes "ch \<in> set lit" and "NUL \<notin> set lit"
  shows "strchr (lit @ rest) ch = Some (Some (length (takeWhile (\<lambda>c. c \<noteq> ch) lit)))"
  using assms by (induction lit) auto

lemma strchr_in_bounds:
  assumes "NUL \<in> set s"
  shows "strchr s ch \<noteq> None"
  using assms by (induction s) auto

lemma strchr_tail:
  assumes "strchr s ch = Some (Some i)" and "NUL \<in> set s" and "ch \<noteq> NUL"
  shows "NUL \<in> set (drop (Suc i) s)"
  using assms by (induction s arbitrary: i) (auto split: if_splits)

lemma atoi_digits_in_bounds:
  assumes "NUL \<in> set s"
  shows "atoi_digits s acc \<noteq> None"
  using assms by (induction s arbitrary: acc) (auto simp add: isdigit_def)

lemma atoi_sign_in_bounds:
  assumes "NUL \<in> set s"
  shows "atoi_sign s \<noteq> None"
  using assms atoi_digits_in_bounds [of s 0] atoi_digits_in_bounds [of "tl s" 0]
  by (cases s) (auto simp add: isdigit_def)

lemma atoi_space_in_bounds:
  assumes "NUL \<in> set s"
  shows "atoi_space s \<noteq> None"
  using assms
proof (induction s)
  case Nil
  then show ?case by simp
next
  case (Cons c s)
  show ?case
  proof (cases "isspace c")
    case True
    then have "c \<noteq> NUL" by (auto simp add: isspace_def)
    with Cons show ?thesis using True by simp
  next
    case False
    with atoi_sign_in_bounds [OF Cons.prems] show ?thesis by simp
  qed
qed

lemma atoi_in_bounds:
  assumes "NUL \<in> set s"
  shows "atoi s \<noteq> None"
  using atoi_space_in_bounds [OF assms] by (simp add: atoi_def strtol_def)

lemma method_prefix_split:
  assumes "take n data = lit" and "CHR '' '' \<in> set lit \<and> NUL \<notin> set lit \<and> length lit \<le> 8"
  shows "\<exists>lit rest. data = lit @ rest \<and>
           (CHR '' '' \<in> set lit \<and> NUL \<notin> set lit \<and> length lit \<le> 8)"
  using assms by (metis append_take_drop_id)

lemma http_request_prefix_cases:
  assumes "http_request_prefix data"
  shows "\<exists>lit rest. data = lit @ rest \<and>
           (CHR '' '' \<in> set lit \<and> NUL \<notin> set lit \<and> length lit \<le> 8)"
proof -
  from assms have "take 4 data = ''GET '' \<or> take 5 data = ''POST '' \<or> take 4 data = ''PUT '' \<or>
     take 7 data = ''DELETE '' \<or> take 5 data = ''HEAD '' \<or> take 8 data = ''OPTIONS '' \<or>
     take 6 data = ''PATCH ''"
    by (simp only: http_request_prefix_def)
  moreover have "\<And>n lit. take n data = lit \<Longrightarrow>
      CHR '' '' \<in> set lit \<and> NUL \<notin> set lit \<and> length lit \<le> 8 \<Longrightarrow> ?thesis"
    by (rule method_prefix_split)
  from this [of 4 "''GET ''"] this [of 5 "''POST ''"] this [of 4 "''PUT ''"]
    this [of 7 "''DELETE ''"] this [of 5 "''HEAD ''"] this [of 8 "''OPTIONS ''"]
    this [of 6 "''PATCH ''"]
  have "take 4 data = ''GET '' \<Longrightarrow> ?thesis" "take 5 data = ''POST '' \<Longrightarrow> ?thesis"
    "take 4 data = ''PUT '' \<Longrightarrow> ?thesis" "take 7 data = ''DELETE '' \<Longrightarrow> ?thesis"
    "take 5 data = ''HEAD '' \<Longrightarrow> ?thesis" "take 8 data = ''OPTIONS '' \<Longrightarrow> ?thesis"
    "take 6 data = ''PATCH '' \<Longrightarrow> ?thesis"
    by simp_all
  ultimately show ?thesis
    by argo
qed

lemma http_response_not_request:
  assumes "http_response_prefix data"
  shows "\<not> http_request_prefix data"
proof -
  from assms have "data = ''HTTP/'' @ drop 5 data"
    unfolding http_response_prefix_def by (metis append_take_drop_id)
  then obtain rest where "data = ''HTTP/'' @ rest" ..
  then show ?thesis
    by (simp add: http_request_prefix_def)
qed

lemma dissect_http_short:
  assumes "len < 7"
  shows "dissect_http malloc_ok data len = Some (DPI_PROTO_UNKNOWN, None)"
  using assms by (simp add: dissect_http_def)

lemma dissect_http_request:
  assumes len: "7 \<le> len" and bounds: "http_method_test data \<noteq> None"
    and req: "http_request_prefix data"
  shows "dissect_http True data len =
           Some (DPI_PROTO_HTTP,
                 Some (zero_http\<lparr>http_is_request := 1,
                                 http_method := takeWhile (\<lambda>c. c \<noteq> CHR '' '') data\<rparr>))"
proof -
  from bounds obtain b where b: "http_method_test data = Some b"
    by blast
  with http_method_test_Some [OF b] req have test: "http_method_test data = Some True"
    by simp
  from http_request_prefix_cases [OF req] obtain lit rest where data: "data = lit @ rest"
    and sp: "CHR '' '' \<in> set lit" and nul: "NUL \<notin> set lit" and short: "length lit \<le> 8"
    by blast
  define k where "k = length (takeWhile (\<lambda>c. c \<noteq> CHR '' '') lit)"
  have chr: "strchr data CHR '' '' = Some (Some k)"
    unfolding data k_def by (rule strchr_in_literal [OF sp nul])
  have k: "k < 16" "k \<le> length lit"
    using short length_takeWhile_le [of "\<lambda>c. c \<noteq> CHR '' ''" lit] by (simp_all add: k_def)
  have tw: "takeWhile (\<lambda>c. c \<noteq> CHR '' '') data = takeWhile (\<lambda>c. c \<noteq> CHR '' '') lit"
    unfolding data using sp by (intro takeWhile_append1 [of "CHR '' ''"]) simp_all
  have "take k data = takeWhile (\<lambda>c. c \<noteq> CHR '' '') lit"
    unfolding data k_def
    using length_takeWhile_le [of "\<lambda>c. c \<noteq> CHR '' ''" lit]
    by (simp add: takeWhile_eq_take [symmetric])
  with len test chr k tw show ?thesis
    by (simp add: dissect_http_eq linorder_not_less [symmetric])
qed

lemma strncmp_http_response:
  assumes "strncmp_eq data ''HTTP/'' 5 = Some b"
  shows "b \<longleftrightarrow> http_response_prefix data"
  unfolding http_response_prefix_def
  using assms by (intro strncmp_eq_literal [of _ "''HTTP/''"]) simp_all

lemma dissect_http_response:
  assumes len: "7 \<le> len" and nul: "NUL \<in> set data" and resp: "http_response_prefix data"
  shows "\<exists>h. dissect_http True data len = Some (DPI_PROTO_HTTP, Some h) \<and> http_is_request h = 0"
proof -
  have bounds: "8 \<le> length data \<or> NUL \<in> set data" using nul by simp
  from http_method_test_in_bounds [OF bounds] obtain b where b: "http_method_test data = Some b"
    by blast
  with http_method_test_Some [OF b] http_response_not_request [OF resp]
  have test: "http_method_test data = Some False"
    by simp
  have "strncmp_eq data ''HTTP/'' 5 \<noteq> None"
    using nul by (intro strncmp_eq_in_bounds) simp_all
  then obtain c where c: "strncmp_eq data ''HTTP/'' 5 = Some c" by blast
  with strncmp_http_response [OF c] resp have cmp: "strncmp_eq data ''HTTP/'' 5 = Some True"
    by simp
  from strchr_in_bounds [OF nul] obtain sp where sp: "strchr data CHR '' '' = Some sp"
    by blast
  show ?thesis
  proof (cases sp)
    case None
    with len test cmp sp show ?thesis
      by (simp add: dissect_http_eq linorder_not_less [symmetric])
  next
    case (Some i)
    with sp have "NUL \<in> set (drop (Suc i) data)"
      using strchr_tail [of data "CHR '' ''" i] nul by simp
    from atoi_in_bounds [OF this] obtain code where "atoi (drop (Suc i) data) = Some code"
      by blast
    with len test cmp sp Some show ?thesis
      by (simp add: dissect_http_eq linorder_not_less [symmetric])
  qed
qed

lemma dissect_http_unknown:
  assumes len: "7 \<le> len" and bounds: "http_method_test data \<noteq> None"
    and five: "5 \<le> length data \<or> NUL \<in> set data"
    and req: "\<not> http_request_prefix data" and resp: "\<not> http_response_prefix data"
  shows "dissect_http malloc_ok data len = Some (DPI_PROTO_UNKNOWN, None)"
proof -
  from bounds obtain b where b: "http_method_test data = Some b"
    by blast
  with http_method_test_Some [OF b] req have test: "http_method_test data = Some False"
    by simp
  have "strncmp_eq data ''HTTP/'' 5 \<noteq> None"
    using five by (intro strncmp_eq_in_bounds) auto
  then obtain c where c: "strncmp_eq data ''HTTP/'' 5 = Some c" by blast
  with strncmp_http_response [OF c] resp have cmp: "strncmp_eq data ''HTTP/'' 5 = Some False"
    by simp
  with len test show ?thesis
    by (simp add: dissect_http_eq linorder_not_less [symmetric])
qed

lemma dissect_http_Some:
  assumes "dissect_http malloc_ok data len = Some (tag, out)"
  shows "(tag = DPI_PROTO_HTTP \<and> (\<exists>h. out = Some h \<and> http_is_request h = 1)
            \<longleftrightarrow> malloc_ok \<and> 7 \<le> len \<and> http_request_prefix data)
       \<and> (tag = DPI_PROTO_HTTP \<and> (\<exists>h. out = Some h \<and> http_is_request h = 0)
            \<longleftrightarrow> malloc_ok \<and> 7 \<le> len \<and> http_response_prefix data)
       \<and> (tag = DPI_PROTO_HTTP \<or> tag = DPI_PROTO_UNKNOWN \<and> out = None)"
proof (cases "len < 7")
  case True
  with assms show ?thesis by (auto simp add: dissect_http_def)
next
  case False
  then have len: "7 \<le> len" by simp
  from assms False obtain b where b: "http_method_test data = Some b"
    by (cases "http_method_test data") (simp_all add: dissect_http_eq)
  note req = http_method_test_Some [OF b]
  show ?thesis
  proof (cases b)
    case True
    with req have "\<not> http_response_prefix data"
      using http_response_not_request by blast
    with assms False b True req show ?thesis
      by (auto simp add: dissect_http_eq Let_def split: if_splits option.splits bind_splits)
  next
    case nreq: False
    from assms False b nreq obtain c where c: "strncmp_eq data ''HTTP/'' 5 = Some c"
      by (cases "strncmp_eq data ''HTTP/'' 5") (simp_all add: dissect_http_eq)
    note resp = strncmp_http_response [OF c]
    from assms False b nreq c req resp show ?thesis
      by (auto simp add: dissect_http_eq Let_def split: if_splits option.splits bind_splits)
  qed
qed

lemma dissect_http_in_bounds:
  assumes "NUL \<in> set data"
  shows "dissect_http malloc_ok data len \<noteq> None"
proof (cases "len < 7")
  case True
  then show ?thesis by (simp add: dissect_http_def)
next
  case False
  have bounds: "8 \<le> length data \<or> NUL \<in> set data" using assms by simp
  from http_method_test_in_bounds [OF bounds] obtain b where b: "http_method_test data = Some b"
    by blast
  have "strncmp_eq data ''HTTP/'' 5 \<noteq> None"
    using assms by (intro strncmp_eq_in_bounds) simp_all
  then obtain c where c: "strncmp_eq data ''HTTP/'' 5 = Some c" by blast
  from strchr_in_bounds [OF assms] obtain sp where sp: "strchr data CHR '' '' = Some sp"
    by blast
  have at: "\<And>i. sp = Some i \<Longrightarrow> atoi (drop (Suc i) data) \<noteq> None"
    using strchr_tail [of data "CHR '' ''"] sp assms by (intro atoi_in_bounds) simp
  show ?thesis
  proof (cases sp)
    case None
    with False b c sp show ?thesis
      by (simp add: dissect_http_eq Let_def)
  next
    case (Some i)
    with at obtain code where "atoi (drop (Suc i) data) = Some code" by blast
    with False b c sp Some show ?thesis
      by (simp add: dissect_http_eq Let_def)
  qed
qed

lemma compare_chars_None:
  assumes "compare_chars s p = None"
  shows "length s < length p \<and> s = take (length s) p"
  using assms by (induction s p rule: compare_chars.induct) (auto split: if_splits)

text \<open>
  The payload of a packet is the first \<open>len\<close> bytes of the array.  The comparisons of
  \<open>dissect_http\<close> stay inside a payload of seven bytes or more, except the one with
  \<open>OPTIONS \<close>, which reads an eighth byte when the first seven are \<open>OPTIONS\<close>.
\<close>

lemma payload_length:
  assumes "unat (len :: u32) \<le> length data" and "7 \<le> len"
  shows "7 \<le> unat len" and "7 \<le> length data"
proof -
  from assms(2) show "7 \<le> unat len"
    by (simp add: word_le_nat_alt)
  with assms(1) show "7 \<le> length data"
    by simp
qed

lemma payload_options:
  assumes "unat (len :: u32) \<le> length data" and "7 \<le> len"
    and "take (unat len) data \<noteq> ''OPTIONS''"
  shows "8 \<le> length data \<or> data \<noteq> ''OPTIONS''"
proof (cases "8 \<le> length data")
  case True
  then show ?thesis by simp
next
  case False
  with payload_length [OF assms(1,2)] assms(1) have "unat len = length data"
    by simp
  with assms(3) show ?thesis by simp
qed

lemma http_method_test_payload:
  assumes "unat (len :: u32) \<le> length data" and "7 \<le> len"
    and "take (unat len) data \<noteq> ''OPTIONS''"
  shows "http_method_test data \<noteq> None"
proof -
  have seven: "7 \<le> length data"
    by (rule payload_length [OF assms(1,2)])
  have short: "\<And>lit n. n = length lit \<Longrightarrow> n \<le> 7 \<Longrightarrow> strncmp_eq data lit n \<noteq> None"
    using seven by (intro strncmp_eq_in_bounds) auto
  have options: "strncmp_eq data ''OPTIONS '' 8 \<noteq> None"
  proof
    assume "strncmp_eq data ''OPTIONS '' 8 = None"
    then have none: "compare_chars data ''OPTIONS '' = None"
      by (simp add: strncmp_eq_def)
    from compare_chars_None [OF none] have lt: "length data < 8"
      and eq: "data = take (length data) ''OPTIONS ''"
      by simp_all
    from lt seven have "length data = 7" by simp
    with eq have "data = ''OPTIONS''" by simp
    with payload_options [OF assms] show False by simp
  qed
  from short [of 4 "''GET ''"] short [of 5 "''POST ''"] short [of 4 "''PUT ''"]
      short [of 7 "''DELETE ''"] short [of 5 "''HEAD ''"] options short [of 6 "''PATCH ''"]
  show ?thesis
    unfolding http_method_test_def sc_or_None by simp
qed

lemma take_payload:
  assumes "n \<le> k"
  shows "take n (take k data) = take n data"
  using assms by (simp add: min_def)

lemma http_request_prefix_payload:
  assumes "unat (len :: u32) \<le> length data" and "7 \<le> len"
    and "take (unat len) data \<noteq> ''OPTIONS''"
  shows "http_request_prefix (take (unat len) data) \<longleftrightarrow> http_request_prefix data"
proof -
  have seven: "7 \<le> unat len"
    by (rule payload_length [OF assms(1,2)])
  have short: "\<And>n. n \<le> 7 \<Longrightarrow> take n (take (unat len) data) = take n data"
    using seven by (intro take_payload) simp
  have "take 8 (take (unat len) data) = ''OPTIONS '' \<longleftrightarrow> take 8 data = ''OPTIONS ''"
  proof (cases "8 \<le> unat len")
    case True
    then show ?thesis by (simp add: take_payload)
  next
    case False
    with seven have len7: "unat len = 7" by simp
    have "length (take 8 (take (unat len) data)) \<le> 7"
      by (simp add: len7)
    then have "length (take 8 (take (unat len) data)) \<noteq> length ''OPTIONS ''"
      by simp
    then have l: "take 8 (take (unat len) data) \<noteq> ''OPTIONS ''"
      by (rule contrapos_nn) (simp only:)
    have "take 8 data \<noteq> ''OPTIONS ''"
    proof
      assume "take 8 data = ''OPTIONS ''"
      then have "take 7 (take 8 data) = ''OPTIONS''" by simp
      then have "take 7 data = ''OPTIONS''" by (simp add: take_payload)
      with assms(3) len7 show False by simp
    qed
    with l show ?thesis by simp
  qed
  moreover have "take 4 (take (unat len) data) = take 4 data"
    "take 5 (take (unat len) data) = take 5 data"
    "take 6 (take (unat len) data) = take 6 data"
    "take 7 (take (unat len) data) = take 7 data"
    by (rule short, simp)+
  ultimately show ?thesis
    unfolding http_request_prefix_def by (simp only:)
qed

lemma http_response_prefix_payload:
  assumes "unat (len :: u32) \<le> length data" and "7 \<le> len"
  shows "http_response_prefix (take (unat len) data) \<longleftrightarrow> http_response_prefix data"
proof -
  have "5 \<le> unat len"
    using payload_length(1) [OF assms] by simp
  then have "take 5 (take (unat len) data) = take 5 data"
    by (rule take_payload)
  then show ?thesis
    unfolding http_response_prefix_def by (simp only:)
qed

lemma method_payload:
  assumes "http_request_prefix data" and "http_request_prefix (take k data)"
  shows "takeWhile (\<lambda>c. c \<noteq> CHR '' '') (take k data) = takeWhile (\<lambda>c. c \<noteq> CHR '' '') data"
proof -
  from http_request_prefix_cases [OF assms(2)] obtain lit rest where
    payload: "take k data = lit @ rest" and sp: "CHR '' '' \<in> set lit"
    by blast
  have "data = take k data @ drop k data" by simp
  then have data: "data = lit @ (rest @ drop k data)"
    by (simp only: payload append_assoc)
  have "takeWhile (\<lambda>c. c \<noteq> CHR '' '') (lit @ rest) = takeWhile (\<lambda>c. c \<noteq> CHR '' '') lit"
    using sp by (intro takeWhile_append1 [of "CHR '' ''"]) simp_all
  moreover have "takeWhile (\<lambda>c. c \<noteq> CHR '' '') (lit @ (rest @ drop k data))
      = takeWhile (\<lambda>c. c \<noteq> CHR '' '') lit"
    using sp by (intro takeWhile_append1 [of "CHR '' ''"]) simp_all
  ultimately show ?thesis
    using payload data by metis
qed

text \<open>
  Claim C6, as amended.  The payload is the first \<open>len\<close> bytes of the array behind the
  pointer.  A payload shorter than seven bytes is never classified.  For a payload of at
  least seven bytes other than the seven bytes \<open>OPTIONS\<close>, whose record can be allocated,
  \<open>dissect_http\<close> returns \<open>HTTP\<close> with a request record exactly when the payload begins
  with one of \<open>GET \<close>, \<open>POST \<close>, \<open>PUT \<close>, \<open>DELETE \<close>, \<open>HEAD \<close>, \<open>OPTIONS \<close>,
  \<open>PATCH \<close>, and \<open>HTTP\<close> with a response record exactly when it begins with
  \<open>HTTP/\<close>; the request record carries the method, the bytes before the first space.
  The call returns for a request and for a payload with neither prefix; for a response
  it returns when the array holds a NUL, which the search for the status code needs.
\<close>

theorem dissect_http_prefixes:
  assumes "unat len \<le> length data" and "take (unat len) data \<noteq> ''OPTIONS''"
  shows
  "(len < 7 \<longrightarrow> dissect_http malloc_ok data len = Some (DPI_PROTO_UNKNOWN, None))
   \<and> (7 \<le> len \<and> http_request_prefix (take (unat len) data) \<longrightarrow>
        dissect_http True data len =
          Some (DPI_PROTO_HTTP,
                Some (zero_http\<lparr>http_is_request := 1,
                                http_method :=
                                  takeWhile (\<lambda>c. c \<noteq> CHR '' '') (take (unat len) data)\<rparr>)))
   \<and> (7 \<le> len \<and> NUL \<in> set data \<and> http_response_prefix (take (unat len) data) \<longrightarrow>
        (\<exists>h. dissect_http True data len = Some (DPI_PROTO_HTTP, Some h) \<and> http_is_request h = 0))
   \<and> (7 \<le> len \<and> \<not> http_request_prefix (take (unat len) data)
              \<and> \<not> http_response_prefix (take (unat len) data) \<longrightarrow>
        dissect_http True data len = Some (DPI_PROTO_UNKNOWN, None))
   \<and> (\<forall>tag out. dissect_http True data len = Some (tag, out) \<longrightarrow>
        ((tag = DPI_PROTO_HTTP \<and> (\<exists>h. out = Some h \<and> http_is_request h = 1))
           \<longleftrightarrow> 7 \<le> len \<and> http_request_prefix (take (unat len) data)) \<and>
        ((tag = DPI_PROTO_HTTP \<and> (\<exists>h. out = Some h \<and> http_is_request h = 0))
           \<longleftrightarrow> 7 \<le> len \<and> http_response_prefix (take (unat len) data)))"
proof (intro conjI impI allI)
  assume "len < 7"
  then show "dissect_http malloc_ok data len = Some (DPI_PROTO_UNKNOWN, None)"
    by (rule dissect_http_short)
next
  assume a: "7 \<le> len \<and> http_request_prefix (take (unat len) data)"
  then have len: "7 \<le> len" and payload: "http_request_prefix (take (unat len) data)"
    by simp_all
  from payload have req: "http_request_prefix data"
    by (simp only: http_request_prefix_payload [OF assms(1) len assms(2)])
  from dissect_http_request [OF len http_method_test_payload [OF assms(1) len assms(2)] req]
  show "dissect_http True data len =
          Some (DPI_PROTO_HTTP,
                Some (zero_http\<lparr>http_is_request := 1,
                                http_method :=
                                  takeWhile (\<lambda>c. c \<noteq> CHR '' '') (take (unat len) data)\<rparr>))"
    by (simp only: method_payload [OF req payload])
next
  assume a: "7 \<le> len \<and> NUL \<in> set data \<and> http_response_prefix (take (unat len) data)"
  then have len: "7 \<le> len" and nul: "NUL \<in> set data"
    and payload: "http_response_prefix (take (unat len) data)"
    by simp_all
  from payload have "http_response_prefix data"
    by (simp only: http_response_prefix_payload [OF assms(1) len])
  from dissect_http_response [OF len nul this]
  show "\<exists>h. dissect_http True data len = Some (DPI_PROTO_HTTP, Some h) \<and> http_is_request h = 0" .
next
  assume a: "7 \<le> len \<and> \<not> http_request_prefix (take (unat len) data)
              \<and> \<not> http_response_prefix (take (unat len) data)"
  then have len: "7 \<le> len" by simp
  from a have req: "\<not> http_request_prefix data"
    by (simp only: http_request_prefix_payload [OF assms(1) len assms(2)]) simp
  from a have resp: "\<not> http_response_prefix data"
    by (simp only: http_response_prefix_payload [OF assms(1) len]) simp
  have five: "5 \<le> length data \<or> NUL \<in> set data"
    using payload_length(2) [OF assms(1) len] by simp
  from dissect_http_unknown [OF len http_method_test_payload [OF assms(1) len assms(2)] five req resp]
  show "dissect_http True data len = Some (DPI_PROTO_UNKNOWN, None)" .
next
  fix tag out
  assume ret: "dissect_http True data len = Some (tag, out)"
  note some = dissect_http_Some [OF ret]
  show "(tag = DPI_PROTO_HTTP \<and> (\<exists>h. out = Some h \<and> http_is_request h = 1))
           \<longleftrightarrow> 7 \<le> len \<and> http_request_prefix (take (unat len) data)"
  proof (cases "7 \<le> len")
    case True
    from some show ?thesis
      by (simp add: http_request_prefix_payload [OF assms(1) True assms(2)])
  next
    case False
    with some show ?thesis by simp
  qed
  show "(tag = DPI_PROTO_HTTP \<and> (\<exists>h. out = Some h \<and> http_is_request h = 0))
           \<longleftrightarrow> 7 \<le> len \<and> http_response_prefix (take (unat len) data)"
  proof (cases "7 \<le> len")
    case True
    from some show ?thesis
      by (simp add: http_response_prefix_payload [OF assms(1) True])
  next
    case False
    with some show ?thesis by simp
  qed
qed

text \<open>
  The theorem at the request \<open>GET /index HTTP/1.1\<close> (method \<open>GET\<close>), at the response
  \<open>HTTP/1.1 200 OK\<close>, at \<open>GET/index.html\<close>, which is no request, at a five-byte
  payload, and at the seven bytes \<open>DELETE \<close> in an array of seven bytes.
\<close>

theorem dissect_http_prefixes_witness:
  "dissect_http True http_get_payload 32 =
     Some (DPI_PROTO_HTTP, Some (zero_http\<lparr>http_is_request := 1, http_method := ''GET''\<rparr>))
   \<and> (\<exists>h. dissect_http True http_ok_payload 19 = Some (DPI_PROTO_HTTP, Some h) \<and> http_is_request h = 0)
   \<and> dissect_http True ''GET/index.html'' 14 = Some (DPI_PROTO_UNKNOWN, None)
   \<and> dissect_http True ''GET /'' 5 = Some (DPI_PROTO_UNKNOWN, None)
   \<and> dissect_http True ''DELETE '' 7 =
     Some (DPI_PROTO_HTTP, Some (zero_http\<lparr>http_is_request := 1, http_method := ''DELETE''\<rparr>))"
proof -
  have "dissect_http True http_get_payload 32 =
     Some (DPI_PROTO_HTTP, Some (zero_http\<lparr>http_is_request := 1, http_method := ''GET''\<rparr>))"
    using dissect_http_prefixes [of 32 http_get_payload True]
    by (simp add: http_get_payload_def http_request_prefix_def)
  moreover have "\<exists>h. dissect_http True http_ok_payload 19 = Some (DPI_PROTO_HTTP, Some h)
                    \<and> http_is_request h = 0"
    using dissect_http_prefixes [of 19 http_ok_payload True]
    by (simp add: http_ok_payload_def http_response_prefix_def)
  moreover have "dissect_http True ''GET/index.html'' 14 = Some (DPI_PROTO_UNKNOWN, None)"
    using dissect_http_prefixes [of 14 "''GET/index.html''" True]
    by (simp add: http_request_prefix_def http_response_prefix_def)
  moreover have "dissect_http True ''GET /'' 5 = Some (DPI_PROTO_UNKNOWN, None)"
    using dissect_http_prefixes [of 5 "''GET /''" True]
    by simp
  moreover have "dissect_http True ''DELETE '' 7 =
     Some (DPI_PROTO_HTTP, Some (zero_http\<lparr>http_is_request := 1, http_method := ''DELETE''\<rparr>))"
    using dissect_http_prefixes [of 7 "''DELETE ''" True]
    by (simp add: http_request_prefix_def)
  ultimately show ?thesis by blast
qed

text \<open>
  Claim C6 as stated fails in four places.  The payload \<open>GET /\<close> begins with \<open>GET \<close>
  and is not classified, because of the test \<open>len < 7\<close> at the head of \<open>dissect_http\<close>.
  The seven-byte payload \<open>OPTIONS\<close> begins with none of the prefixes, and is classified as
  a request when the byte behind it is a space and not when it is a NUL: the comparison
  with \<open>OPTIONS \<close> reads eight bytes.  The request \<open>GET /index HTTP/1.1\<close> is not
  classified when \<open>malloc\<close> fails.  And for the payload \<open>HTTP/1.1\<close> in an array of eight
  bytes the search for a space runs past the end of the array.
\<close>

theorem dissect_http_prefixes_counterexample:
  "http_request_prefix ''GET /''
   \<and> dissect_http True ''GET /'' 5 = Some (DPI_PROTO_UNKNOWN, None)
   \<and> \<not> http_request_prefix (take 7 (''OPTIONS '' @ [NUL]))
   \<and> \<not> http_response_prefix (take 7 (''OPTIONS '' @ [NUL]))
   \<and> dissect_http True (''OPTIONS '' @ [NUL]) 7 =
       Some (DPI_PROTO_HTTP, Some (zero_http\<lparr>http_is_request := 1, http_method := ''OPTIONS''\<rparr>))
   \<and> take 7 (''OPTIONS'' @ [NUL]) = take 7 (''OPTIONS '' @ [NUL])
   \<and> dissect_http True (''OPTIONS'' @ [NUL]) 7 = Some (DPI_PROTO_UNKNOWN, None)
   \<and> http_request_prefix http_get_payload
   \<and> dissect_http False http_get_payload 32 = Some (DPI_PROTO_UNKNOWN, None)
   \<and> http_response_prefix ''HTTP/1.1''
   \<and> dissect_http True ''HTTP/1.1'' 8 = None"
  by (simp add: http_request_prefix_def http_response_prefix_def dissect_http_def
      strncmp_eq_def sc_or_def http_get_payload_def)

section \<open>What \<open>dpi_process_packet\<close> leaves alone\<close>

lemma dpi_process_packet_early_return:
  assumes "engine = None \<or> flow = None \<or> packet_data = None \<or> packet_len = 0"
  shows "dpi_process_packet heap engine flow packet_data packet_len timestamp_ns is_response alerts_out
           = Some (0, engine, alerts_out)"
  using assms
  by (cases engine; cases flow; cases packet_data) (auto simp add: dpi_process_packet_def)

text \<open>
  Claim C9.  A call of \<open>dpi_process_packet\<close> with a null engine, a null flow, a null
  data pointer or a packet length of zero returns 0 and leaves the engine, every session
  and classification in it included, and the caller's alert pointer as they were.
\<close>

theorem dpi_process_packet_rejects:
  assumes "engine = None \<or> flow = None \<or> packet_data = None \<or> packet_len = 0"
  shows "dpi_process_packet heap engine flow packet_data packet_len timestamp_ns is_response alerts_out
           = Some (0, engine, alerts_out)"
  using assms by (rule dpi_process_packet_early_return)

text \<open>
  The theorem at a packet of length zero and at a null engine.
\<close>

theorem dpi_process_packet_rejects_witness:
  "dpi_process_packet all_allocs (Some dpi_example_engine) (Some (example_flow 80))
     (Some http_get_packet) 0 1000 0 None = Some (0, Some dpi_example_engine, None)
   \<and> dpi_process_packet all_allocs None (Some (example_flow 80))
     (Some http_get_packet) 32 1000 0 None = Some (0, None, None)"
  using dpi_process_packet_rejects [of "Some dpi_example_engine" "Some (example_flow 80)"
      "Some http_get_packet" 0 all_allocs 1000 0 None]
    dpi_process_packet_rejects [of None "Some (example_flow 80)"
      "Some http_get_packet" 32 all_allocs 1000 0 None]
  by simp


subsection \<open>Frame of a call that goes through\<close>

lemma dpi_process_packet_frame:
  assumes "dpi_process_packet heap (Some e) flow packet_data packet_len timestamp_ns is_response alerts_out
             = Some (n, eo, out')"
  shows "n = 0 \<and> (\<exists>e'. eo = Some e' \<and> e_rules e' = e_rules e \<and> e_alerts e' = e_alerts e
            \<and> e_next_alert_id e' = e_next_alert_id e \<and> e_config e' = e_config e
            \<and> st_alerts_generated (e_stats e') = st_alerts_generated (e_stats e))"
  using assms
  by (cases flow; cases packet_data)
     (auto simp add: dpi_process_packet_def Let_def split: if_splits prod.splits bind_splits)

lemma set_protocol_frame [simp]:
  "s_flow (set_protocol p s) = s_flow s"
  "pr_confidence (s_protocol (set_protocol p s)) = pr_confidence (s_protocol s)"
  by (simp_all add: set_protocol_def)

lemma classify_cascade_frame:
  assumes "classify_cascade heap s flow data len = Some s'"
  shows "s_flow s' = s_flow s \<and> pr_confidence (s_protocol s') = pr_confidence (s_protocol s)"
  using assms
  by (auto simp add: classify_cascade_def split: if_splits bind_splits)

lemma classify_session_frame:
  assumes "classify_session heap s flow data len = Some s'"
  shows "s_flow s' = s_flow s \<and> pr_confidence (s_protocol s') = pr_confidence (s_protocol s)"
  using assms classify_cascade_frame [of heap s flow data len]
  by (auto simp add: classify_session_def split: if_splits bind_splits)

lemma record_anomaly_frame:
  "s_flow (record_anomaly ok s a) = s_flow s \<and> s_protocol (record_anomaly ok s a) = s_protocol s"
  by (simp add: record_anomaly_def Let_def)

lemma detect_anomalies_frame:
  assumes "detect_anomalies ok s data len is_response = Some s'"
  shows "s_flow s' = s_flow s \<and> s_protocol s' = s_protocol s"
proof (cases "10 \<le> s_anomaly_count s")
  case True
  with assms show ?thesis by (simp add: detect_anomalies_def)
next
  case False
  with assms obtain a where "s' = record_anomaly ok s a"
    unfolding detect_anomalies_def Let_def by (auto split: bind_splits)
  then show ?thesis by (simp add: record_anomaly_frame)
qed

lemma session_packet_frame:
  assumes "session_packet heap config s flow data len ts is_response = Some s'"
  shows "s_flow s' = s_flow s \<and> pr_confidence (s_protocol s') = pr_confidence (s_protocol s)"
proof -
  define s0 where "s0 = s\<lparr>s_last_seen_ns := ts, s_packets_seen := s_packets_seen s + 1,
                          s_total_bytes := s_total_bytes s + ucast len\<rparr>"
  from assms obtain s1 where 1: "classify_session heap s0 flow data len = Some s1"
    by (auto simp add: session_packet_def s0_def Let_def split: bind_splits)
  define s2 where "s2 = (if s_state s1 = DPI_STATE_NEW then s1\<lparr>s_state := DPI_STATE_ESTABLISHED\<rparr> else s1)"
  have 2: "s_flow s2 = s_flow s \<and> pr_confidence (s_protocol s2) = pr_confidence (s_protocol s)"
    using classify_session_frame [OF 1] by (simp add: s2_def s0_def)
  from assms 1 have 3: "(if cfg_enable_anomaly_detection config \<noteq> 0
       then detect_anomalies (alloc_anomalies heap) s2 data len is_response else Some s2) = Some s'"
    unfolding session_packet_def s0_def [symmetric] Let_def s2_def by simp
  show ?thesis
  proof (cases "cfg_enable_anomaly_detection config \<noteq> 0")
    case True
    with 3 have "detect_anomalies (alloc_anomalies heap) s2 data len is_response = Some s'"
      by simp
    from detect_anomalies_frame [OF this] 2 show ?thesis by simp
  next
    case False
    with 3 have "s' = s2" by simp
    with 2 show ?thesis by simp
  qed
qed

lemma session_index_less:
  assumes "session_index ss g = Some i"
  shows "i < length ss \<and> flow_tuple_equal (s_flow (ss ! i)) g"
  using assms by (induction ss arbitrary: i) (auto split: if_splits)

lemma session_index_update:
  assumes "s_flow s' = s_flow (ss ! i)" and "i < length ss"
  shows "session_index (ss[i := s']) g = session_index ss g"
  using assms
proof (induction ss arbitrary: i)
  case Nil
  then show ?case by simp
next
  case (Cons s ss)
  then show ?case by (cases i) auto
qed

lemma session_index_append:
  "session_index (ss @ [s]) g =
     (case session_index ss g of
        Some i \<Rightarrow> Some i
      | None \<Rightarrow> if flow_tuple_equal (s_flow s) g then Some (length ss) else None)"
  by (induction ss) (auto split: option.splits)

lemma dpi_classify_protocol_confidence:
  "pr_confidence (dpi_classify_protocol (Some e) (Some g))
     = session_confidence (stab_sessions (e_sessions e)) g"
  by (simp add: dpi_classify_protocol_def dpi_get_session_def session_confidence_def
      zero_protocol_result_def split: option.splits)

lemma session_confidence_update:
  assumes "s_flow s' = s_flow (ss ! i)" and "i < length ss"
    and "pr_confidence (s_protocol s') = pr_confidence (s_protocol (ss ! i))"
  shows "session_confidence (ss[i := s']) g = session_confidence ss g"
proof (cases "session_index ss g")
  case None
  with assms show ?thesis
    by (simp add: session_confidence_def session_index_update)
next
  case (Some j)
  then have "j < length ss" using session_index_less by blast
  with assms Some show ?thesis
    by (cases "i = j") (simp_all add: session_confidence_def session_index_update)
qed

lemma session_confidence_append:
  assumes "pr_confidence (s_protocol s) = 0"
  shows "session_confidence (ss @ [s]) g = session_confidence ss g"
proof (cases "session_index ss g")
  case None
  with assms show ?thesis
    by (simp add: session_confidence_def session_index_append)
next
  case (Some j)
  then have "j < length ss" using session_index_less by blast
  with Some show ?thesis
    by (simp add: session_confidence_def session_index_append nth_append)
qed

lemma new_session_confidence:
  "pr_confidence (s_protocol (new_session heap sid f ts)) = 0"
  by (simp add: new_session_def zero_session_def zero_protocol_result_def)

lemma find_or_create_session_confidence:
  assumes "find_or_create_session heap table next_id f ts = (table', next_id', found)"
  shows "session_confidence (stab_sessions table') g = session_confidence (stab_sessions table) g
         \<and> (\<forall>i. found = Some i \<longrightarrow> i < length (stab_sessions table'))"
proof (cases "session_index (stab_sessions table) f")
  case (Some i)
  with assms session_index_less [OF Some] show ?thesis
    by (auto simp add: find_or_create_session_def)
next
  case None
  with assms show ?thesis
    by (auto simp add: find_or_create_session_def session_confidence_append new_session_confidence
        split: if_splits)
qed

lemma dpi_process_packet_confidence:
  assumes "dpi_process_packet heap (Some e) flow packet_data packet_len timestamp_ns is_response alerts_out
             = Some (n, Some e', out')"
  shows "session_confidence (stab_sessions (e_sessions e')) g
           = session_confidence (stab_sessions (e_sessions e)) g"
proof (cases "flow = None \<or> packet_data = None \<or> packet_len = 0")
  case True
  from dpi_process_packet_early_return [of "Some e" flow packet_data packet_len heap timestamp_ns
      is_response alerts_out] True assms
  show ?thesis by auto
next
  case False
  then obtain f data where fl: "flow = Some f" and pd: "packet_data = Some data"
    and len: "packet_len \<noteq> 0"
    by auto
  obtain table next_id found where
    foc: "find_or_create_session heap (e_sessions e) (e_next_session_id e) f timestamp_ns
            = (table, next_id, found)"
    by (cases "find_or_create_session heap (e_sessions e) (e_next_session_id e) f timestamp_ns")
  note c1 = find_or_create_session_confidence [OF foc, of g]
  show ?thesis
  proof (cases found)
    case None
    with assms fl pd len foc c1 show ?thesis
      by (auto simp add: dpi_process_packet_def Let_def split: bind_splits)
  next
    case (Some i)
    with c1 have i: "i < length (stab_sessions table)" by simp
    from assms fl pd len foc Some obtain s' where
      sp: "session_packet heap (e_config e) (stab_sessions table ! i) f data packet_len
             timestamp_ns is_response = Some s'"
      and e': "e_sessions e' = table\<lparr>stab_sessions := (stab_sessions table)[i := s']\<rparr>"
      by (auto simp add: dpi_process_packet_def Let_def split: bind_splits)
    from session_packet_frame [OF sp] i
    have "session_confidence ((stab_sessions table)[i := s']) g
            = session_confidence (stab_sessions table) g"
      by (intro session_confidence_update) simp_all
    with e' c1 show ?thesis by simp
  qed
qed


subsection \<open>A readable packet is processed to the end\<close>

lemma byte_at_in_bounds:
  assumes "i < length data"
  shows "\<exists>b. byte_at data i = Some b"
  using assms by (simp add: byte_at_def char_at_def)

lemma char_at_in_bounds:
  assumes "i < length data"
  shows "char_at data i = Some (data ! i)"
  using assms by (simp add: char_at_def)

lemma u32_le_unat:
  fixes len :: u32
  assumes "\<not> len < k" and "unat len \<le> n"
  shows "unat k \<le> n"
proof -
  from assms(1) have "k \<le> len" by simp
  then have "unat k \<le> unat len" by (simp add: word_le_nat_alt)
  with assms(2) show ?thesis by simp
qed

lemma dissect_dns_in_bounds:
  assumes "packet_readable data len"
  shows "dissect_dns malloc_ok data len \<noteq> None"
proof (cases "len < 12")
  case True
  then show ?thesis by (simp add: dissect_dns_def)
next
  case False
  from u32_le_unat [OF False, of "length data"] assms have "12 \<le> length data"
    by (simp add: packet_readable_def)
  then have "0 < length data" "1 < length data" "2 < length data" "3 < length data" by linarith+
  from this [THEN byte_at_in_bounds] False show ?thesis
    by (auto simp add: dissect_dns_def)
qed

lemma dissect_tls_in_bounds:
  assumes "packet_readable data len"
  shows "dissect_tls malloc_ok data len \<noteq> None"
proof (cases "len < 5")
  case True
  then show ?thesis by (simp add: dissect_tls_def)
next
  case False
  from u32_le_unat [OF False, of "length data"] assms have "5 \<le> length data"
    by (simp add: packet_readable_def)
  then have "0 < length data" "1 < length data" "2 < length data" by linarith+
  from this [THEN byte_at_in_bounds] False show ?thesis
    by (auto simp add: dissect_tls_def)
qed

lemma sc_and_in_bounds:
  assumes "a \<noteq> None" and "b \<noteq> None"
  shows "sc_and a b \<noteq> None"
  using assms by (auto simp add: sc_and_def split: option.splits bool.splits)

lemma sc_or_in_bounds:
  assumes "a \<noteq> None" and "b \<noteq> None"
  shows "sc_or a b \<noteq> None"
  using assms by (auto simp add: sc_or_def split: option.splits bool.splits)

lemma dissect_smtp_in_bounds:
  assumes "packet_readable data len"
  shows "dissect_smtp data len \<noteq> None"
proof (cases "len < 8")
  case True
  then show ?thesis by (simp add: dissect_smtp_def)
next
  case False
  from u32_le_unat [OF False, of "length data"] assms have "8 \<le> length data"
    by (simp add: packet_readable_def)
  then have ch: "0 < length data" "1 < length data" "2 < length data" "3 < length data" by linarith+
  have reply: "sc_and (map_option isdigit (char_at data 0))
         (sc_and (map_option isdigit (char_at data 1))
         (sc_and (map_option isdigit (char_at data 2))
                 (map_option (\<lambda>c. c = CHR '' '') (char_at data 3)))) \<noteq> None"
    using ch by (intro sc_and_in_bounds) (simp_all add: char_at_def)
  have "\<And>lit n. n = length lit \<Longrightarrow> n \<le> 8 \<Longrightarrow> strncmp_eq data lit n \<noteq> None"
    using \<open>8 \<le> length data\<close> by (intro strncmp_eq_in_bounds) auto
  from this [of 5 "''EHLO ''"] this [of 5 "''HELO ''"] this [of 5 "''MAIL ''"]
    this [of 5 "''RCPT ''"] this [of 4 "''DATA''"] this [of 4 "''QUIT''"]
  have command: "sc_or (strncmp_eq data ''EHLO '' 5)
           (sc_or (strncmp_eq data ''HELO '' 5)
           (sc_or (strncmp_eq data ''MAIL '' 5)
           (sc_or (strncmp_eq data ''RCPT '' 5)
           (sc_or (strncmp_eq data ''DATA'' 4)
                  (strncmp_eq data ''QUIT'' 4))))) \<noteq> None"
    by (intro sc_or_in_bounds) simp_all
  from reply command False show ?thesis
    by (auto simp add: dissect_smtp_def)
qed

lemma dissect_smb_in_bounds:
  assumes "packet_readable data len"
  shows "dissect_smb data len \<noteq> None"
proof (cases "len < 4")
  case True
  then show ?thesis by (simp add: dissect_smb_def)
next
  case False
  from u32_le_unat [OF False, of "length data"] assms have "4 \<le> length data"
    by (simp add: packet_readable_def)
  then have ch: "0 < length data" "1 < length data" "2 < length data" "3 < length data" by linarith+
  have "sc_and (sc_or (map_option (\<lambda>c. c = CHR 0xFF) (char_at data 0))
                        (map_option (\<lambda>c. c = CHR 0xFE) (char_at data 0)))
         (sc_and (map_option (\<lambda>c. c = CHR ''S'') (char_at data 1))
         (sc_and (map_option (\<lambda>c. c = CHR ''M'') (char_at data 2))
                 (map_option (\<lambda>c. c = CHR ''B'') (char_at data 3)))) \<noteq> None"
    using ch by (intro sc_and_in_bounds sc_or_in_bounds) (simp_all add: char_at_def)
  with False show ?thesis
    by (auto simp add: dissect_smb_def)
qed

lemma classify_cascade_in_bounds:
  assumes "packet_readable data len"
  shows "classify_cascade heap s f data len \<noteq> None"
proof -
  from assms have "NUL \<in> set data" by (simp add: packet_readable_def)
  from dissect_http_in_bounds [OF this, of "alloc_http heap" len]
    dissect_dns_in_bounds [OF assms, of "alloc_dns heap"]
    dissect_tls_in_bounds [OF assms, of "alloc_tls heap"]
    dissect_smtp_in_bounds [OF assms] dissect_smb_in_bounds [OF assms]
  show ?thesis
    by (auto simp add: classify_cascade_def)
qed

lemma classify_session_in_bounds:
  assumes "packet_readable data len"
  shows "classify_session heap s f data len \<noteq> None"
  using classify_cascade_in_bounds [OF assms, of heap s f]
  by (auto simp add: classify_session_def)

lemma detect_anomalies_in_bounds:
  assumes "packet_readable data len"
  shows "detect_anomalies ok s data len is_response \<noteq> None"
proof -
  from assms have "strstr_found data ''User-Agent: '' \<noteq> None"
    by (simp add: packet_readable_def strstr_found_def c_string_def)
  then show ?thesis
    by (auto simp add: detect_anomalies_def Let_def)
qed

lemma session_packet_in_bounds:
  assumes "packet_readable data len"
  shows "session_packet heap config s f data len ts is_response \<noteq> None"
proof -
  define s0 where "s0 = s\<lparr>s_last_seen_ns := ts, s_packets_seen := s_packets_seen s + 1,
                          s_total_bytes := s_total_bytes s + ucast len\<rparr>"
  from classify_session_in_bounds [OF assms, of heap s0 f]
  obtain s1 where 1: "classify_session heap s0 f data len = Some s1" by blast
  define s2 where "s2 = (if s_state s1 = DPI_STATE_NEW then s1\<lparr>s_state := DPI_STATE_ESTABLISHED\<rparr> else s1)"
  have "session_packet heap config s f data len ts is_response =
          (if cfg_enable_anomaly_detection config \<noteq> 0
           then detect_anomalies (alloc_anomalies heap) s2 data len is_response else Some s2)"
    unfolding session_packet_def Let_def s0_def [symmetric] s2_def using 1 by simp
  with detect_anomalies_in_bounds [OF assms, of "alloc_anomalies heap" s2 is_response]
  show ?thesis by simp
qed

lemma dpi_process_packet_in_bounds:
  assumes "stab_capacity (e_sessions e) \<noteq> 0" and "packet_readable data len"
  shows "\<exists>e' out'. dpi_process_packet heap (Some e) (Some f) (Some data) len ts is_response alerts_out
            = Some (0, Some e', out')"
proof (cases "len = 0")
  case True
  then show ?thesis by (simp add: dpi_process_packet_def)
next
  case False
  obtain table next_id found where
    foc: "find_or_create_session heap (e_sessions e) (e_next_session_id e) f ts
            = (table, next_id, found)"
    by (cases "find_or_create_session heap (e_sessions e) (e_next_session_id e) f ts")
  have hash: "flow_tuple_hash_dpi f (stab_capacity (e_sessions e)) \<noteq> None"
    using assms(1) by (simp add: flow_tuple_hash_dpi_def Let_def)
  then obtain h where h: "flow_tuple_hash_dpi f (stab_capacity (e_sessions e)) = Some h"
    by blast
  show ?thesis
  proof (cases found)
    case None
    with False foc h show ?thesis
      by (simp add: dpi_process_packet_def Let_def)
  next
    case (Some i)
    from session_packet_in_bounds [OF assms(2), of heap "e_config e" "stab_sessions table ! i" f ts
        is_response]
    obtain s' where "session_packet heap (e_config e) (stab_sessions table ! i) f data len ts
        is_response = Some s'"
      by blast
    with False foc h Some show ?thesis
      by (simp add: dpi_process_packet_def Let_def)
  qed
qed


subsection \<open>Rules are not evaluated\<close>

text \<open>
  Claim C1, as amended.  \<open>dpi_process_packet\<close> evaluates no rule.  Whatever rules are
  installed, a call that returns has returned 0 and has left the rule engine, the alert
  queue, \<open>next_alert_id\<close> and the \<open>alerts_generated\<close> counter as they were; and a call
  with a readable packet on an engine whose session table has a capacity other than zero
  does return.
\<close>

theorem dpi_process_packet_skips_rules:
  "(\<forall>n eo out'. dpi_process_packet heap (Some e) flow packet_data packet_len timestamp_ns
                    is_response alerts_out = Some (n, eo, out') \<longrightarrow>
       n = 0 \<and> (\<exists>e'. eo = Some e' \<and> e_rules e' = e_rules e \<and> e_alerts e' = e_alerts e
                    \<and> e_next_alert_id e' = e_next_alert_id e
                    \<and> st_alerts_generated (e_stats e') = st_alerts_generated (e_stats e)))
   \<and> (stab_capacity (e_sessions e) \<noteq> 0 \<and> packet_readable data packet_len \<longrightarrow>
       (\<exists>e' out'. dpi_process_packet heap (Some e) (Some f) (Some data) packet_len timestamp_ns
                     is_response alerts_out = Some (0, Some e', out')))"
proof (intro conjI allI impI)
  fix n eo out'
  assume "dpi_process_packet heap (Some e) flow packet_data packet_len timestamp_ns
            is_response alerts_out = Some (n, eo, out')"
  from dpi_process_packet_frame [OF this]
  show "n = 0" and "\<exists>e'. eo = Some e' \<and> e_rules e' = e_rules e \<and> e_alerts e' = e_alerts e
                    \<and> e_next_alert_id e' = e_next_alert_id e
                    \<and> st_alerts_generated (e_stats e') = st_alerts_generated (e_stats e)"
    by auto
next
  assume "stab_capacity (e_sessions e) \<noteq> 0 \<and> packet_readable data packet_len"
  then show "\<exists>e' out'. dpi_process_packet heap (Some e) (Some f) (Some data) packet_len timestamp_ns
                     is_response alerts_out = Some (0, Some e', out')"
    by (intro dpi_process_packet_in_bounds) simp_all
qed

lemma evil_engine_capacity: "stab_capacity (e_sessions evil_engine) \<noteq> 0"
  by (simp add: evil_engine_def dpi_example_engine_def dpi_init_def example_config_def)

lemma example_engine_capacity: "stab_capacity (e_sessions dpi_example_engine) \<noteq> 0"
  by (simp add: dpi_example_engine_def dpi_init_def example_config_def)

text \<open>
  The theorem at an engine holding one enabled content rule for \<open>evil\<close> and the
  packet \<open>evil\<close>.
\<close>

theorem dpi_process_packet_skips_rules_witness:
  "stab_capacity (e_sessions evil_engine) \<noteq> 0 \<and> packet_readable evil_payload 4
   \<and> (\<exists>e' out'. dpi_process_packet all_allocs (Some evil_engine) (Some (example_flow 8888))
         (Some evil_payload) 4 1000 0 None = Some (0, Some e', out')
       \<and> e_rules e' = e_rules evil_engine \<and> e_alerts e' = e_alerts evil_engine
       \<and> e_next_alert_id e' = e_next_alert_id evil_engine
       \<and> st_alerts_generated (e_stats e') = st_alerts_generated (e_stats evil_engine))"
proof -
  note skip = dpi_process_packet_skips_rules [of all_allocs evil_engine "Some (example_flow 8888)"
      "Some evil_payload" 4 1000 0 None evil_payload "example_flow 8888"]
  have readable: "packet_readable evil_payload 4"
    by (simp add: packet_readable_def evil_payload_def)
  with skip evil_engine_capacity obtain e' out' where
    run: "dpi_process_packet all_allocs (Some evil_engine) (Some (example_flow 8888))
         (Some evil_payload) 4 1000 0 None = Some (0, Some e', out')"
    by blast
  with skip have "e_rules e' = e_rules evil_engine \<and> e_alerts e' = e_alerts evil_engine
       \<and> e_next_alert_id e' = e_next_alert_id evil_engine
       \<and> st_alerts_generated (e_stats e') = st_alerts_generated (e_stats evil_engine)"
    by auto
  with run readable evil_engine_capacity show ?thesis by blast
qed

lemma max_rules_word: "(of_nat DPI_MAX_RULES :: u32) = 10000"
  by (simp add: DPI_MAX_RULES_def)

lemma max_rules_not_le_one: "\<not> (10000 :: u32) \<le> 1"
  by (simp add: word_le_nat_alt)

lemma rule_array_prefix: "replicate DPI_MAX_RULES x = x # x # replicate 9998 x"
proof -
  have eq: "DPI_MAX_RULES = Suc (Suc 9998)" by (simp add: DPI_MAX_RULES_def)
  show ?thesis unfolding eq by (simp only: replicate.simps)
qed

text \<open>
  Claim C1 as stated fails.  \<open>dpi_add_rule\<close> installs an enabled content rule for the
  pattern \<open>evil\<close>, with protocol \<open>UNKNOWN\<close> and port range \<open>0..0\<close>, as rule 1.  The packet
  \<open>evil\<close> on a flow to port 8888 then gets a session that the rule admits, and its
  payload contains the pattern, so that the specification asks for one alert; the call
  returns 0 and the alert queue is as before.
\<close>

theorem dpi_process_packet_rules_counterexample:
  "dpi_add_rule regcomp_any (Some dpi_example_engine) (Some (evil_rule DPI_RULE_CONTENT))
     = Some (1, Some evil_engine)
   \<and> map_option fst (dpi_process_packet all_allocs (Some evil_engine) (Some (example_flow 8888))
        (Some evil_payload) 4 1000 0 None) = Some 0
   \<and> map_option e_alerts (engine_after (dpi_process_packet all_allocs (Some evil_engine)
        (Some (example_flow 8888)) (Some evil_payload) 4 1000 0 None)) = Some (e_alerts evil_engine)
   \<and> spec_alerts_expected (engine_after (dpi_process_packet all_allocs (Some evil_engine)
        (Some (example_flow 8888)) (Some evil_payload) 4 1000 0 None))
        (example_flow 8888) (take 4 evil_payload) = Some 1"
proof -
  have add: "dpi_add_rule regcomp_any (Some dpi_example_engine) (Some (evil_rule DPI_RULE_CONTENT))
     = Some (1, Some evil_engine)"
    by (simp add: dpi_example_engine_def evil_engine_def dpi_init_def dpi_add_rule_def Let_def
        max_rules_word evil_rule_def DPI_MAX_RULES_def)
  have run: "dpi_process_packet all_allocs (Some evil_engine) (Some (example_flow 8888))
        (Some evil_payload) 4 1000 0 None
      = Some (0, Some (evil_engine
           \<lparr>e_sessions := \<lparr>stab_sessions =
               [(new_session all_allocs 1 (example_flow 8888) 1000)
                  \<lparr>s_state := DPI_STATE_ESTABLISHED, s_packets_seen := 1, s_total_bytes := 4,
                   s_protocol := zero_protocol_result\<lparr>pr_detection_tick := 1\<rparr>\<rparr>],
               stab_capacity = 4\<rparr>,
            e_next_session_id := 2,
            e_stats := zero_stats\<lparr>st_packets_processed := 1, st_bytes_processed := 4,
                                  st_active_sessions := 1\<rparr>\<rparr>), None)"
    by (simp add: dpi_process_packet_def evil_engine_def dpi_example_engine_def dpi_init_def
        example_config_def flow_tuple_hash_dpi_def find_or_create_session_def session_packet_def classify_session_def
        classify_cascade_def dissect_http_def dissect_dns_def dissect_tls_def dissect_smtp_def
        dissect_smb_def classify_by_port_def detect_anomalies_def record_anomaly_def
        new_session_def zero_session_def zero_protocol_result_def zero_anomaly_def set_protocol_def zero_stats_def
        all_allocs_def example_flow_def evil_payload_def Let_def sc_and_def sc_or_def char_at_def
        byte_at_def)
  show ?thesis
    unfolding run add
    by (simp add: engine_after_def spec_alerts_expected_def dpi_get_session_def evil_engine_def
        flow_tuple_equal_def new_session_def example_flow_def spec_rule_admits_def
        spec_rule_matches_def evil_rule_def zero_rule_def evil_payload_def dpi_example_engine_def
        dpi_init_def rule_array_prefix)
qed


subsection \<open>The confidence is never written\<close>

text \<open>
  Claim C7, as amended.  Classification leaves the stored confidence as it was.  For
  every flow, the confidence that \<open>dpi_classify_protocol\<close> reports after a
  \<open>dpi_process_packet\<close> call is the one it reported before; for a flow that had no
  session it is 0, whether a payload dissector or the port table classified the session
  that the call created.  A call with a readable packet on an engine whose session table
  has a capacity other than zero returns.
\<close>

theorem dpi_process_packet_keeps_confidence:
  "(\<forall>n e' out' g. dpi_process_packet heap (Some e) flow packet_data packet_len timestamp_ns
                     is_response alerts_out = Some (n, Some e', out') \<longrightarrow>
       pr_confidence (dpi_classify_protocol (Some e') (Some g))
         = pr_confidence (dpi_classify_protocol (Some e) (Some g)))
   \<and> (\<forall>n e' out' g. dpi_process_packet heap (Some e) flow packet_data packet_len timestamp_ns
                     is_response alerts_out = Some (n, Some e', out')
                     \<and> dpi_get_session (Some e) (Some g) = None \<longrightarrow>
       pr_confidence (dpi_classify_protocol (Some e') (Some g)) = 0)
   \<and> (stab_capacity (e_sessions e) \<noteq> 0 \<and> packet_readable data packet_len \<longrightarrow>
       (\<exists>e' out'. dpi_process_packet heap (Some e) (Some f) (Some data) packet_len timestamp_ns
                     is_response alerts_out = Some (0, Some e', out')))"
proof (intro conjI allI impI)
  fix n e' out' g
  assume "dpi_process_packet heap (Some e) flow packet_data packet_len timestamp_ns
            is_response alerts_out = Some (n, Some e', out')"
  from dpi_process_packet_confidence [OF this, of g]
  show "pr_confidence (dpi_classify_protocol (Some e') (Some g))
         = pr_confidence (dpi_classify_protocol (Some e) (Some g))"
    by (simp add: dpi_classify_protocol_confidence)
next
  fix n e' out' g
  assume a: "dpi_process_packet heap (Some e) flow packet_data packet_len timestamp_ns
            is_response alerts_out = Some (n, Some e', out')
          \<and> dpi_get_session (Some e) (Some g) = None"
  then have "session_confidence (stab_sessions (e_sessions e)) g = 0"
    by (simp add: dpi_get_session_def session_confidence_def)
  with a dpi_process_packet_confidence [of heap e flow packet_data packet_len timestamp_ns
      is_response alerts_out n e' out' g]
  show "pr_confidence (dpi_classify_protocol (Some e') (Some g)) = 0"
    by (simp add: dpi_classify_protocol_confidence)
next
  assume "stab_capacity (e_sessions e) \<noteq> 0 \<and> packet_readable data packet_len"
  then show "\<exists>e' out'. dpi_process_packet heap (Some e) (Some f) (Some data) packet_len timestamp_ns
                     is_response alerts_out = Some (0, Some e', out')"
    by (intro dpi_process_packet_in_bounds) simp_all
qed

text \<open>
  The theorem at the first packet of an HTTP flow on a new engine.
\<close>

theorem dpi_process_packet_keeps_confidence_witness:
  "stab_capacity (e_sessions dpi_example_engine) \<noteq> 0 \<and> packet_readable http_get_packet 32
   \<and> dpi_get_session (Some dpi_example_engine) (Some (example_flow 80)) = None
   \<and> (\<exists>e' out'. dpi_process_packet all_allocs (Some dpi_example_engine) (Some (example_flow 80))
         (Some http_get_packet) 32 1000 0 None = Some (0, Some e', out')
       \<and> pr_confidence (dpi_classify_protocol (Some e') (Some (example_flow 80))) = 0)"
proof -
  note keep = dpi_process_packet_keeps_confidence [of all_allocs dpi_example_engine
      "Some (example_flow 80)" "Some http_get_packet" 32 1000 0 None http_get_packet
      "example_flow 80"]
  have readable: "packet_readable http_get_packet 32"
    by (simp add: packet_readable_def http_get_packet_def http_get_payload_def)
  have fresh: "dpi_get_session (Some dpi_example_engine) (Some (example_flow 80)) = None"
    by (simp add: dpi_get_session_def dpi_example_engine_def dpi_init_def)
  from keep readable example_engine_capacity obtain e' out' where
    run: "dpi_process_packet all_allocs (Some dpi_example_engine) (Some (example_flow 80))
         (Some http_get_packet) 32 1000 0 None = Some (0, Some e', out')"
    by blast
  with keep fresh have "pr_confidence (dpi_classify_protocol (Some e') (Some (example_flow 80))) = 0"
    by blast
  with run readable fresh example_engine_capacity show ?thesis by blast
qed

text \<open>
  Claim C7 as stated fails.  On a new engine the request \<open>GET /index HTTP/1.1\<close> is
  classified as HTTP by the payload dissector, and the five bytes \<open>hello\<close> on a flow to
  port 22 are classified as SSH by the port table; the stored confidence is 0 in both
  sessions, not 100 and 50.
\<close>

theorem dpi_process_packet_confidence_counterexample:
  "dpi_classify_protocol
     (engine_after (dpi_process_packet all_allocs (Some dpi_example_engine) (Some (example_flow 80))
        (Some http_get_packet) 32 1000 0 None)) (Some (example_flow 80))
     = \<lparr>pr_protocol = DPI_PROTO_HTTP, pr_confidence = 0, pr_detection_tick = 1, pr_app_name = []\<rparr>
   \<and> dpi_classify_protocol
     (engine_after (dpi_process_packet all_allocs (Some dpi_example_engine) (Some (example_flow 22))
        (Some hello_packet) 5 1000 0 None)) (Some (example_flow 22))
     = \<lparr>pr_protocol = DPI_PROTO_SSH, pr_confidence = 0, pr_detection_tick = 1, pr_app_name = []\<rparr>"
proof -
  have http: "dissect_http True http_get_packet 32 =
     Some (DPI_PROTO_HTTP, Some (zero_http\<lparr>http_is_request := 1, http_method := ''GET''\<rparr>))"
    by (simp add: dissect_http_def http_get_packet_def http_get_payload_def strncmp_eq_def sc_or_def)
  have ua: "strstr_found http_get_packet ''User-Agent: '' = Some False"
    by (simp add: strstr_found_def c_string_def http_get_packet_def http_get_payload_def)
  have 1: "dpi_classify_protocol
     (engine_after (dpi_process_packet all_allocs (Some dpi_example_engine) (Some (example_flow 80))
        (Some http_get_packet) 32 1000 0 None)) (Some (example_flow 80))
     = \<lparr>pr_protocol = DPI_PROTO_HTTP, pr_confidence = 0, pr_detection_tick = 1, pr_app_name = []\<rparr>"
    by (simp add: dpi_process_packet_def dpi_example_engine_def dpi_init_def
        example_config_def flow_tuple_hash_dpi_def find_or_create_session_def session_packet_def
        classify_session_def classify_cascade_def http ua detect_anomalies_def record_anomaly_def
        new_session_def zero_session_def zero_protocol_result_def zero_anomaly_def set_protocol_def
        all_allocs_def example_flow_def Let_def engine_after_def dpi_classify_protocol_def
        dpi_get_session_def flow_tuple_equal_def)
  have 2: "dpi_classify_protocol
     (engine_after (dpi_process_packet all_allocs (Some dpi_example_engine) (Some (example_flow 22))
        (Some hello_packet) 5 1000 0 None)) (Some (example_flow 22))
     = \<lparr>pr_protocol = DPI_PROTO_SSH, pr_confidence = 0, pr_detection_tick = 1, pr_app_name = []\<rparr>"
    by (simp add: dpi_process_packet_def dpi_example_engine_def dpi_init_def
        example_config_def flow_tuple_hash_dpi_def find_or_create_session_def session_packet_def
        classify_session_def classify_cascade_def dissect_http_def dissect_dns_def dissect_tls_def
        dissect_smtp_def dissect_smb_def classify_by_port_def detect_anomalies_def
        record_anomaly_def new_session_def zero_session_def zero_protocol_result_def
        zero_anomaly_def set_protocol_def all_allocs_def example_flow_def hello_packet_def Let_def
        sc_and_def sc_or_def char_at_def byte_at_def engine_after_def dpi_classify_protocol_def
        dpi_get_session_def flow_tuple_equal_def)
  from 1 2 show ?thesis by (rule conjI)
qed

section \<open>Rule ids\<close>

lemma take_one_update:
  assumes "xs \<noteq> []"
  shows "take (Suc 0) (xs[0 := x]) = [x]"
  using assms by (cases xs) simp_all

lemma dpi_add_rule_first:
  assumes cnt: "re_rule_count (e_rules e0) = 0"
    and add: "dpi_add_rule regcomp_ok (Some e0) (Some r) = Some (rule_id, eo)"
    and ok: "rule_id \<noteq> 0"
  shows "rule_id = 1 \<and> (\<exists>regexes. eo = Some (e0\<lparr>e_rules := (e_rules e0)
             \<lparr>re_rules := (re_rules (e_rules e0))[0 := r\<lparr>r_rule_id := 1\<rparr>],
              re_compiled_regex := regexes, re_rule_count := 1\<rparr>\<rparr>)
           \<and> length regexes = length (re_compiled_regex (e_rules e0)))"
proof -
  from add ok have nfull: "\<not> re_max_rules (e_rules e0) \<le> re_rule_count (e_rules e0)"
    by (auto simp add: dpi_add_rule_def Let_def split: if_splits)
  show ?thesis
  proof (cases "r_pattern r")
    case None
    with add ok cnt nfull show ?thesis
      by (auto simp add: dpi_add_rule_def Let_def split: if_splits
          intro!: exI [of _ "re_compiled_regex (e_rules e0)"])
  next
    case (Some pattern)
    show ?thesis
    proof (cases "r_type r = DPI_RULE_REGEX")
      case True
      with add ok cnt nfull Some show ?thesis
        by (auto simp add: dpi_add_rule_def Let_def split: if_splits
            intro!: exI [of _ "(re_compiled_regex (e_rules e0))[0 := Regex_Compiled pattern]"])
    next
      case False
      with add ok cnt nfull Some show ?thesis
        by (auto simp add: dpi_add_rule_def Let_def split: if_splits
            intro!: exI [of _ "re_compiled_regex (e_rules e0)"])
    qed
  qed
qed

lemma dpi_remove_rule_only:
  assumes rules: "rules \<noteq> []" "regexes \<noteq> []"
    and e1: "e1 = e0\<lparr>e_rules := (e_rules e0)
             \<lparr>re_rules := rules[0 := r\<lparr>r_rule_id := 1\<rparr>],
              re_compiled_regex := regexes, re_rule_count := 1\<rparr>\<rparr>"
  shows "\<exists>e2. dpi_remove_rule (Some e1) 1 = Some (0, Some e2)
            \<and> re_rule_count (e_rules e2) = 0
            \<and> dpi_remove_rule (Some e2) 1 = Some (- 1, Some e2)"
proof -
  have len: "0 < length rules" "0 < length regexes" using rules by simp_all
  define regs where "regs = (if r_type r = DPI_RULE_REGEX then regexes[0 := Regex_Freed] else regexes)"
  define e2 where "e2 = e1\<lparr>e_rules := (e_rules e1)
       \<lparr>re_rules := rules[0 := r\<lparr>r_rule_id := 1\<rparr>], re_compiled_regex := regs, re_rule_count := 0\<rparr>\<rparr>"
  have "dpi_remove_rule (Some e1) 1 = Some (0, Some e2)"
    using len rules
    by (simp add: dpi_remove_rule_def e1 e2_def regs_def Let_def take_one_update
        memmove_down_def Suc_le_eq)
  moreover have "re_rule_count (e_rules e2) = 0"
    by (simp add: e2_def)
  moreover have "dpi_remove_rule (Some e2) 1 = Some (- 1, Some e2)"
    by (simp add: dpi_remove_rule_def e2_def Let_def)
  ultimately show ?thesis by blast
qed

text \<open>
  Claim C8.  On the engine that \<open>dpi_init\<close> returns, a successful \<open>dpi_add_rule\<close> of a
  rule of type \<open>REGEX\<close> returns the id 1 and leaves one rule; \<open>dpi_remove_rule\<close> of id 1
  then returns 0 and brings the rule count back to what it was, 0; and a second
  \<open>dpi_remove_rule\<close> of id 1 returns -1 and leaves the engine as it is.
\<close>

theorem dpi_add_remove_rule_roundtrip:
  assumes init: "dpi_init True config = Some e0"
    and regex: "r_type r = DPI_RULE_REGEX"
    and add: "dpi_add_rule regcomp_ok (Some e0) (Some r) = Some (rule_id, eo)"
    and ok: "rule_id \<noteq> 0"
  shows "rule_id = 1
       \<and> (\<exists>e1 e2. eo = Some e1 \<and> re_rule_count (e_rules e1) = 1
             \<and> dpi_remove_rule (Some e1) 1 = Some (0, Some e2)
             \<and> re_rule_count (e_rules e2) = re_rule_count (e_rules e0)
             \<and> re_rule_count (e_rules e2) = 0
             \<and> dpi_remove_rule (Some e2) 1 = Some (- 1, Some e2))"
proof -
  from init have cnt: "re_rule_count (e_rules e0) = 0"
    and rules: "re_rules (e_rules e0) \<noteq> []"
    and regs: "length (re_compiled_regex (e_rules e0)) = DPI_MAX_RULES"
    by (auto simp add: dpi_init_def DPI_MAX_RULES_def)
  from dpi_add_rule_first [OF cnt add ok] obtain regexes where id: "rule_id = 1"
    and eo: "eo = Some (e0\<lparr>e_rules := (e_rules e0)
             \<lparr>re_rules := (re_rules (e_rules e0))[0 := r\<lparr>r_rule_id := 1\<rparr>],
              re_compiled_regex := regexes, re_rule_count := 1\<rparr>\<rparr>)"
    and len: "length regexes = length (re_compiled_regex (e_rules e0))"
    by blast
  from len regs have "regexes \<noteq> []" by (auto simp add: DPI_MAX_RULES_def)
  from dpi_remove_rule_only [OF rules this refl, where ?e0.0 = e0 and r = r] id eo cnt show ?thesis
    by auto
qed

text \<open>
  The theorem at the rule for the pattern \<open>evil\<close>, with a \<open>regcomp\<close> that accepts
  it.
\<close>

theorem dpi_add_remove_rule_roundtrip_witness:
  "dpi_init True example_config = Some dpi_example_engine
   \<and> r_type (evil_rule DPI_RULE_REGEX) = DPI_RULE_REGEX
   \<and> (\<exists>e1 e2. dpi_add_rule regcomp_any (Some dpi_example_engine) (Some (evil_rule DPI_RULE_REGEX))
                  = Some (1, Some e1)
          \<and> re_rule_count (e_rules e1) = 1
          \<and> dpi_remove_rule (Some e1) 1 = Some (0, Some e2)
          \<and> re_rule_count (e_rules e2) = 0
          \<and> dpi_remove_rule (Some e2) 1 = Some (- 1, Some e2))"
proof -
  have init: "dpi_init True example_config = Some dpi_example_engine"
    by (simp add: dpi_example_engine_def dpi_init_def)
  have regex: "r_type (evil_rule DPI_RULE_REGEX) = DPI_RULE_REGEX"
    by (simp add: evil_rule_def)
  have "\<exists>eo. dpi_add_rule regcomp_any (Some dpi_example_engine) (Some (evil_rule DPI_RULE_REGEX))
          = Some (1, eo)"
    by (simp add: dpi_example_engine_def dpi_init_def dpi_add_rule_def Let_def DPI_MAX_RULES_def
        evil_rule_def regcomp_any_def)
  then obtain eo where add: "dpi_add_rule regcomp_any (Some dpi_example_engine)
      (Some (evil_rule DPI_RULE_REGEX)) = Some (1, eo)"
    by blast
  from dpi_add_remove_rule_roundtrip [OF init regex add] add init regex show ?thesis
    by auto
qed

text \<open>
  Claim C2 against the code.  On a new engine, add a rule (id 1), add a second rule
  (id 2), remove rule 1, and add a third rule: \<open>dpi_add_rule\<close> returns
  \<open>rule_count + 1 = 2\<close> again.  The ids handed out are 1, 2, 2, and the two rules in
  use both carry the id 2.
\<close>

theorem dpi_add_rule_reuses_id:
  "map_option fst
     (rule_calls regcomp_any dpi_example_engine
        [Add_Rule (evil_rule DPI_RULE_REGEX), Add_Rule (evil_rule DPI_RULE_CONTENT),
         Remove_Rule 1, Add_Rule (evil_rule DPI_RULE_CONTENT)]) = Some [1, 2, 2]
   \<and> map_option (\<lambda>(ids, e). live_rule_ids e)
     (rule_calls regcomp_any dpi_example_engine
        [Add_Rule (evil_rule DPI_RULE_REGEX), Add_Rule (evil_rule DPI_RULE_CONTENT),
         Remove_Rule 1, Add_Rule (evil_rule DPI_RULE_CONTENT)]) = Some [2, 2]"
  by (simp add: dpi_example_engine_def dpi_init_def rule_array_prefix max_rules_word max_rules_not_le_one dpi_add_rule_def
      dpi_remove_rule_def Let_def evil_rule_def regcomp_any_def memmove_down_def live_rule_ids_def
      zero_rule_def)

section \<open>Draining the alert queue\<close>










text \<open>
  The loop itself, on a queue that holds two alerts, which no engine of the program
  does.  With \<open>clear_after_read = 1\<close> it hands out the two alerts in order and moves
  \<open>head\<close> past them.  With \<open>clear_after_read = 0\<close> and room for three it hands out the
  alert at \<open>head\<close> three times, since \<open>head\<close> is its only cursor.
\<close>

lemma get_alerts_loop_example:
  "get_alerts_loop alert_queue_example [zero_alert, zero_alert, zero_alert] 3 1 0
     = Some (2, alert_queue_example\<lparr>aq_head := 2\<rparr>, [alert_with_id 1, alert_with_id 2, zero_alert])
   \<and> get_alerts_loop alert_queue_example [zero_alert, zero_alert, zero_alert] 3 0 0
     = Some (3, alert_queue_example, [alert_with_id 1, alert_with_id 1, alert_with_id 1])"
  by (simp add: alert_queue_example_def get_alerts_loop.simps Let_def)

section \<open>The TLS mode is engine-wide\<close>

text \<open>
  Claim C10.  For every engine \<open>e\<close>, every mode and any two flows,
  \<open>dpi_set_tls_mode\<close> gives the same result for both flows: it returns 0 and the engine
  \<open>e\<close> with the field \<open>tls_mode\<close> of its configuration set to the mode; sessions, rules,
  alerts, statistics, the id counters and the other configuration fields are those of
  \<open>e\<close>.
\<close>

theorem dpi_set_tls_mode_engine_wide:
  "dpi_set_tls_mode (Some e) (Some f1) mode = dpi_set_tls_mode (Some e) (Some f2) mode
   \<and> dpi_set_tls_mode (Some e) (Some f1) mode
       = (0, Some (e\<lparr>e_config := (e_config e)\<lparr>cfg_tls_mode := mode\<rparr>\<rparr>))
   \<and> e_sessions (the (snd (dpi_set_tls_mode (Some e) (Some f1) mode))) = e_sessions e
   \<and> e_rules (the (snd (dpi_set_tls_mode (Some e) (Some f1) mode))) = e_rules e
   \<and> e_alerts (the (snd (dpi_set_tls_mode (Some e) (Some f1) mode))) = e_alerts e
   \<and> e_stats (the (snd (dpi_set_tls_mode (Some e) (Some f1) mode))) = e_stats e
   \<and> e_next_session_id (the (snd (dpi_set_tls_mode (Some e) (Some f1) mode))) = e_next_session_id e
   \<and> e_next_alert_id (the (snd (dpi_set_tls_mode (Some e) (Some f1) mode))) = e_next_alert_id e
   \<and> cfg_tls_mode (e_config (the (snd (dpi_set_tls_mode (Some e) (Some f1) mode)))) = mode
   \<and> (e_config (the (snd (dpi_set_tls_mode (Some e) (Some f1) mode))))
         \<lparr>cfg_tls_mode := cfg_tls_mode (e_config e)\<rparr> = e_config e"
  by (simp add: dpi_set_tls_mode_def)

end
